(* ===== verification/Prelude.thy ===== *)
theory Prelude
  imports Main
begin

text \<open>
  The vocabulary every component of the development shares.

  \<^item> JavaScript errors and results: a thrown \<open>Error\<close> is a value of \<open>js_error\<close>; a computation
    that may throw returns \<open>'a result\<close>, the error on the left.
  \<^item> \<open>js_value\<close>: the values of the language that cross an untyped boundary (decoded contract
    values, free-form options).
  \<^item> Truthiness of optional strings, the \<open>??\<close> operator on arrays, and the grouping idiom
    \<open>acc[key] ??= []; acc[key].push(item)\<close> with its characterisation by \<open>filter\<close>.
  \<^item> \<open>traverse\<close>: \<open>Array.map\<close> with a callback that may throw, and \<open>Promise.all\<close>.
  \<^item> \<open>bind_result\<close>: what follows an expression that may throw.
  \<^item> \<open>run_steps\<close>: a sequence of awaited calls over a state, stopped by the first throw.
\<close>

named_theorems js_simps \<open>unfolding rules of the small language operators\<close>

section \<open>Errors and results\<close>

record js_error =
  error_name :: string
  message :: string

type_synonym 'a result = "js_error + 'a"

text \<open>\<open>new Error(msg)\<close>\<close>

definition Error :: "string \<Rightarrow> js_error" where
  "Error msg = \<lparr>error_name = ''Error'', message = msg\<rparr>"

text \<open>\<open>assert(cond, msg)\<close> of Node throws an \<open>AssertionError\<close> with the given message.\<close>

definition AssertionError :: "string \<Rightarrow> js_error" where
  "AssertionError msg = \<lparr>error_name = ''AssertionError'', message = msg\<rparr>"

definition TypeError :: "string \<Rightarrow> js_error" where
  "TypeError msg = \<lparr>error_name = ''TypeError'', message = msg\<rparr>"

definition SyntaxError :: "string \<Rightarrow> js_error" where
  "SyntaxError msg = \<lparr>error_name = ''SyntaxError'', message = msg\<rparr>"

lemma message_of_errors [simp]:
  "message (Error m) = m" "message (AssertionError m) = m"
  "message (TypeError m) = m" "message (SyntaxError m) = m"
  by (simp_all add: Error_def AssertionError_def TypeError_def SyntaxError_def)

lemma Error_inject [simp]: "Error m = Error n \<longleftrightarrow> m = n"
  by (auto simp: Error_def)

section \<open>Values of the language\<close>

datatype js_value =
    JUndefined
  | JNull
  | JBool bool
  | JNum int
  | JStr string
  | JArr "js_value list"
  | JObj "(string \<times> js_value) list"

text \<open>A value in a boolean position.\<close>

fun truthy_js :: "js_value \<Rightarrow> bool" where
  "truthy_js JUndefined = False"
| "truthy_js JNull = False"
| "truthy_js (JBool b) = b"
| "truthy_js (JNum i) = (i \<noteq> 0)"
| "truthy_js (JStr s) = (s \<noteq> [])"
| "truthy_js (JArr vs) = True"
| "truthy_js (JObj fs) = True"

text \<open>A string, or \<open>undefined\<close>, in a boolean position: the empty string is falsy.\<close>

definition truthy_str :: "string option \<Rightarrow> bool" where
  "truthy_str s = (case s of None \<Rightarrow> False | Some t \<Rightarrow> t \<noteq> [])"

lemma truthy_str_simps [simp, js_simps]:
  "truthy_str None = False" "truthy_str (Some t) = (t \<noteq> [])"
  by (simp_all add: truthy_str_def)

lemma truthy_str_iff: "truthy_str s \<longleftrightarrow> (\<exists>t. s = Some t \<and> t \<noteq> [])"
  by (cases s) auto

text \<open>A number, or \<open>undefined\<close>, in a boolean position: zero is falsy.\<close>

definition truthy_num :: "int option \<Rightarrow> bool" where
  "truthy_num n = (case n of None \<Rightarrow> False | Some k \<Rightarrow> k \<noteq> 0)"

lemma truthy_num_simps [simp, js_simps]:
  "truthy_num None = False" "truthy_num (Some k) = (k \<noteq> 0)"
  by (simp_all add: truthy_num_def)

text \<open>The operator \<open>%\<close> on integers takes the sign of its left operand.\<close>

definition js_rem :: "int \<Rightarrow> int \<Rightarrow> int" where
  "js_rem a b = sgn a * (\<bar>a\<bar> mod \<bar>b\<bar>)"

lemma js_rem_eq_0_iff: "js_rem a b = 0 \<longleftrightarrow> b dvd a"
proof (cases "a = 0")
  case False
  then have "js_rem a b = 0 \<longleftrightarrow> \<bar>a\<bar> mod \<bar>b\<bar> = 0"
    by (simp add: js_rem_def sgn_if)
  also have "\<dots> \<longleftrightarrow> b dvd a"
    by (simp add: mod_eq_0_iff_dvd)
  finally show ?thesis .
qed (simp add: js_rem_def)

section \<open>Records used as dictionaries of arrays\<close>

text \<open>\<open>xs ?? []\<close>\<close>

definition or_empty :: "'a list option \<Rightarrow> 'a list" where
  "or_empty xs = (case xs of None \<Rightarrow> [] | Some ys \<Rightarrow> ys)"

lemma or_empty_simps [simp, js_simps]:
  "or_empty None = []" "or_empty (Some ys) = ys"
  by (simp_all add: or_empty_def)

text \<open>\<open>acc[key] ??= []; acc[key].push(item)\<close>\<close>

definition group_push :: "('k \<Rightarrow> 'a list option) \<Rightarrow> 'k \<Rightarrow> 'a \<Rightarrow> ('k \<Rightarrow> 'a list option)" where
  "group_push acc key x = acc(key := Some (or_empty (acc key) @ [x]))"

text \<open>
  \<open>xs.reduce((acc, item) => { ... push under key(item) ...; return acc }, {})\<close>. The keys are hashes,
  ledger-wide ids and indexes, never names that an empty object inherits.
\<close>

definition group_on :: "('a \<Rightarrow> 'k) \<Rightarrow> 'a list \<Rightarrow> ('k \<Rightarrow> 'a list option)" where
  "group_on key xs = foldl (\<lambda>acc x. group_push acc (key x) x) (\<lambda>_. None) xs"

lemma or_empty_foldl_group_push:
  "or_empty (foldl (\<lambda>acc x. group_push acc (key x) x) acc xs k)
     = or_empty (acc k) @ filter (\<lambda>x. key x = k) xs"
  by (induction xs arbitrary: acc) (auto simp: group_push_def)

lemma or_empty_group_on [simp]: "or_empty (group_on key xs k) = filter (\<lambda>x. key x = k) xs"
  by (simp add: group_on_def or_empty_foldl_group_push)

section \<open>Mapping with a callback that may throw\<close>

fun traverse :: "('a \<Rightarrow> 'b result) \<Rightarrow> 'a list \<Rightarrow> 'b list result" where
  "traverse f [] = Inr []"
| "traverse f (x # xs) =
     (case f x of
        Inl e \<Rightarrow> Inl e
      | Inr y \<Rightarrow> (case traverse f xs of Inl e \<Rightarrow> Inl e | Inr ys \<Rightarrow> Inr (y # ys)))"

lemma traverse_Inr_iff:
  "traverse f xs = Inr ys \<longleftrightarrow> list_all2 (\<lambda>x y. f x = Inr y) xs ys"
proof (induction xs arbitrary: ys)
  case (Cons x xs)
  then show ?case
    by (cases "f x"; cases "traverse f xs") (auto simp: list_all2_Cons1)
qed auto

lemma traverse_Inr_map: "(\<And>x. x \<in> set xs \<Longrightarrow> f x = Inr (g x)) \<Longrightarrow> traverse f xs = Inr (map g xs)"
  by (induction xs) auto

lemma traverse_InlD: "traverse f xs = Inl e \<Longrightarrow> \<exists>x\<in>set xs. f x = Inl e"
  by (induction xs) (auto split: sum.splits)

lemma traverse_cong [fundef_cong]:
  "xs = ys \<Longrightarrow> (\<And>x. x \<in> set ys \<Longrightarrow> f x = g x) \<Longrightarrow> traverse f xs = traverse g ys"
proof (induction ys arbitrary: xs)
  case (Cons y ys)
  then show ?case by (cases xs) (auto split: sum.splits)
qed simp

text \<open>The values of an object, each with its key, under a callback that may throw.\<close>

definition keyed :: "('k \<Rightarrow> 'a \<Rightarrow> 'b result) \<Rightarrow> 'k \<times> 'a \<Rightarrow> ('k \<times> 'b) result" where
  "keyed g kv = (case g (fst kv) (snd kv) of Inl e \<Rightarrow> Inl e | Inr w \<Rightarrow> Inr (fst kv, w))"

lemma map_of_traverse_keyed:
  "traverse (keyed g) kvs = Inr fs \<Longrightarrow>
   (case map_of kvs k of
      None \<Rightarrow> map_of fs k = None
    | Some v \<Rightarrow> \<exists>w. g k v = Inr w \<and> map_of fs k = Some w)"
proof (induction kvs arbitrary: fs)
  case (Cons kv kvs)
  then show ?case
    by (cases kv) (auto simp: keyed_def split: sum.splits option.splits)
qed simp

lemma list_all2_right: "list_all2 P xs ys \<Longrightarrow> y \<in> set ys \<Longrightarrow> \<exists>x\<in>set xs. P x y"
  by (induction rule: list_all2_induct) auto

section \<open>Sequencing results\<close>

text \<open>
  \<open>bind_result r f\<close>: \<open>f\<close> on the value of \<open>r\<close>, unless \<open>r\<close> has thrown. The collection \<open>returns\<close> holds
  the conditions under which a compound expression returns a given value.
\<close>

named_theorems returns \<open>when a result is a value\<close>

definition bind_result :: "'a result \<Rightarrow> ('a \<Rightarrow> 'b result) \<Rightarrow> 'b result" where
  "bind_result r f = (case r of Inl e \<Rightarrow> Inl e | Inr x \<Rightarrow> f x)"

lemma bind_result_simps [simp]:
  "bind_result (Inl e) f = Inl e" "bind_result (Inr x) f = f x"
  by (simp_all add: bind_result_def)

lemma bind_result_Inr_iff [returns]: "bind_result r f = Inr y \<longleftrightarrow> (\<exists>x. r = Inr x \<and> f x = Inr y)"
  by (cases r) simp_all

lemma map_sum_Inr_iff [returns]: "map_sum g f r = Inr y \<longleftrightarrow> (\<exists>x. r = Inr x \<and> y = f x)"
  by (cases r) auto

lemma bind_result_cong [fundef_cong]:
  "r = r' \<Longrightarrow> (\<And>x. r' = Inr x \<Longrightarrow> f x = g x) \<Longrightarrow> bind_result r f = bind_result r' g"
  by (cases r') simp_all

section \<open>Sorted lists\<close>

lemma sorted_map_le_last:
  "sorted (map f xs) \<Longrightarrow> x \<in> set xs \<Longrightarrow> f x \<le> f (last xs)"
  by (induction xs) auto

section \<open>Sequences of awaited calls\<close>

text \<open>
  An awaited call that reads and writes a state and may throw. A throw keeps the effects made
  so far and skips what follows it.
\<close>

type_synonym ('s, 'a) action = "'s \<Rightarrow> 'a result \<times> 's"

definition andThen :: "('s, unit) action \<Rightarrow> ('s, unit) action \<Rightarrow> ('s, unit) action" where
  "andThen a b s = (case a s of (Inl e, s') \<Rightarrow> (Inl e, s') | (Inr _, s') \<Rightarrow> b s')"

definition skip :: "('s, unit) action" where
  "skip s = (Inr (), s)"

text \<open>\<open>for (const x of xs) await body(x)\<close>\<close>

fun for_each :: "'a list \<Rightarrow> ('a \<Rightarrow> ('s, unit) action) \<Rightarrow> ('s, unit) action" where
  "for_each [] body = skip"
| "for_each (x # xs) body = andThen (body x) (for_each xs body)"

lemma andThen_skip [simp]: "andThen a skip = a" "andThen skip a = a"
  by (auto simp: andThen_def skip_def fun_eq_iff split: sum.splits prod.splits)

lemma andThen_assoc: "andThen (andThen a b) c = andThen a (andThen b c)"
  by (auto simp: andThen_def fun_eq_iff split: sum.splits prod.splits)

lemma for_each_append: "for_each (xs @ ys) body = andThen (for_each xs body) (for_each ys body)"
  by (induction xs) (simp_all add: andThen_assoc)

lemma for_each_map: "for_each (map f xs) body = for_each xs (\<lambda>x. body (f x))"
  by (induction xs) simp_all

lemma for_each_concat: "for_each (concat xss) body = for_each xss (\<lambda>xs. for_each xs body)"
  by (induction xss) (simp_all add: for_each_append)

lemma for_each_cong [cong]:
  "xs = ys \<Longrightarrow> (\<And>x. x \<in> set ys \<Longrightarrow> f x = g x) \<Longrightarrow> for_each xs f = for_each ys g"
proof (induction ys arbitrary: xs)
  case (Cons y ys)
  then show ?case by (cases xs) auto
qed simp

text \<open>A loop whose body leaves the state alone leaves the state alone.\<close>

lemma for_each_idle: "(\<And>x. x \<in> set xs \<Longrightarrow> body x s = (Inr (), s)) \<Longrightarrow> for_each xs body s = (Inr (), s)"
  by (induction xs) (simp_all add: andThen_def skip_def)

lemmas for_each_simps = for_each_append for_each_map for_each_concat

end
