(* ===== verification/Lodash.thy ===== *)
theory Lodash
  imports Prelude
begin

text \<open>
  The lodash functions the program calls. Lodash is not part of the repository: the components
  take these functions as parameters, and the locales below state their documented behaviour,
  which the properties of the components assume by name.

  \<^item> \<open>lodash_events\<close>: \<open>groupBy\<close> collects the elements under the key the iteratee returns, in
    their order of occurrence, and has no entry for a key no element has; \<open>compact\<close> removes falsy
    values, so it keeps every object, and turns \<open>undefined\<close> into the empty array; \<open>last\<close> is the
    last element, \<open>undefined\<close> for an empty array.
  \<^item> \<open>lodash_uniqBy\<close>: of the elements with the same key only the first is kept, in the order
    of occurrence.
  \<^item> \<open>lodash_sortBy\<close>: a stable ascending sort by key.

  Each locale is interpreted on a computable reference function, which the witnesses use.
\<close>

section \<open>\<open>groupBy\<close>, \<open>compact\<close>, \<open>last\<close>\<close>

record 'a lodash =
  groupBy :: "'a list \<Rightarrow> ('a \<Rightarrow> string) \<Rightarrow> string \<Rightarrow> 'a list option"
  compact :: "'a list option \<Rightarrow> 'a list"
  last_of :: "'a list \<Rightarrow> 'a option"

locale lodash_events =
  fixes lo :: "'a lodash"
  assumes groupBy_spec:
      "groupBy lo xs f k
         = (if \<exists>x\<in>set xs. f x = k then Some (filter (\<lambda>x. f x = k) xs) else None)"
    and compact_undefined: "compact lo None = []"
    and compact_objects: "compact lo (Some xs) = xs"
    and last_of_spec: "last_of lo xs = (if xs = [] then None else Some (last xs))"
begin

lemma compact_groupBy: "compact lo (groupBy lo xs f k) = filter (\<lambda>x. f x = k) xs"
  by (auto simp: groupBy_spec compact_undefined compact_objects filter_empty_conv)

end

definition reference_lodash :: "'a lodash" where
  "reference_lodash =
     \<lparr>groupBy = (\<lambda>xs f. group_on f xs),
      compact = or_empty,
      last_of = (\<lambda>xs. if xs = [] then None else Some (last xs))\<rparr>"

lemma foldl_group_push_spec:
  "foldl (\<lambda>acc x. group_push acc (f x) x) acc xs k
     = (if \<exists>x\<in>set xs. f x = k then Some (or_empty (acc k) @ filter (\<lambda>x. f x = k) xs) else acc k)"
  by (induction xs arbitrary: acc) (auto simp: group_push_def filter_empty_conv)

interpretation reference_lodash: lodash_events reference_lodash
  by unfold_locales (auto simp: reference_lodash_def group_on_def foldl_group_push_spec)

section \<open>\<open>uniqBy\<close>\<close>

locale lodash_uniqBy =
  fixes uniqBy :: "'a list \<Rightarrow> ('a \<Rightarrow> 'k) \<Rightarrow> 'a list"
  assumes uniqBy_Nil: "uniqBy [] f = []"
    and uniqBy_snoc:
      "uniqBy (xs @ [x]) f = (if f x \<in> f ` set xs then uniqBy xs f else uniqBy xs f @ [x])"
begin

lemma uniqBy_keys: "f ` set (uniqBy xs f) = f ` set xs"
  by (induction xs rule: rev_induct) (auto simp: uniqBy_Nil uniqBy_snoc)

lemma uniqBy_subset: "set (uniqBy xs f) \<subseteq> set xs"
  by (induction xs rule: rev_induct) (auto simp: uniqBy_Nil uniqBy_snoc)

lemma uniqBy_distinct: "distinct (map f (uniqBy xs f))"
proof (induction xs rule: rev_induct)
  case (snoc x xs)
  then show ?case using uniqBy_keys [of f xs] by (auto simp: uniqBy_snoc)
qed (simp add: uniqBy_Nil)

lemma uniqBy_represents: "x \<in> set xs \<Longrightarrow> \<exists>y\<in>set (uniqBy xs f). f y = f x"
  using uniqBy_keys [of f xs] by (metis imageE imageI)

lemma uniqBy_empty_iff: "uniqBy xs f = [] \<longleftrightarrow> xs = []"
  using uniqBy_keys [of f xs] by (metis image_is_empty set_empty uniqBy_Nil)

end

fun reference_uniqBy_from :: "'k list \<Rightarrow> 'a list \<Rightarrow> ('a \<Rightarrow> 'k) \<Rightarrow> 'a list" where
  "reference_uniqBy_from seen [] f = []"
| "reference_uniqBy_from seen (x # xs) f =
     (if f x \<in> set seen then reference_uniqBy_from seen xs f
      else x # reference_uniqBy_from (f x # seen) xs f)"

definition reference_uniqBy :: "'a list \<Rightarrow> ('a \<Rightarrow> 'k) \<Rightarrow> 'a list" where
  "reference_uniqBy = reference_uniqBy_from []"

lemma reference_uniqBy_from_snoc:
  "reference_uniqBy_from seen (xs @ [x]) f =
     (if f x \<in> set seen \<union> f ` set xs then reference_uniqBy_from seen xs f
      else reference_uniqBy_from seen xs f @ [x])"
  by (induction xs arbitrary: seen) auto

interpretation reference_uniqBy: lodash_uniqBy reference_uniqBy
  by unfold_locales (simp_all add: reference_uniqBy_def reference_uniqBy_from_snoc)

section \<open>\<open>sortBy\<close>\<close>

locale lodash_sortBy =
  fixes sortBy :: "'a list \<Rightarrow> ('a \<Rightarrow> 'k::linorder) \<Rightarrow> 'a list"
  assumes sortBy_sorted: "sorted (map f (sortBy xs f))"
    and sortBy_stable: "filter (\<lambda>x. f x = k) (sortBy xs f) = filter (\<lambda>x. f x = k) xs"
begin

lemma sortBy_set: "set (sortBy xs f) = set xs"
proof -
  have "x \<in> set (sortBy xs f) \<longleftrightarrow> x \<in> set xs" for x
  proof -
    have "x \<in> set (sortBy xs f) \<longleftrightarrow> x \<in> set (filter (\<lambda>y. f y = f x) (sortBy xs f))" by simp
    also have "\<dots> \<longleftrightarrow> x \<in> set (filter (\<lambda>y. f y = f x) xs)" by (simp only: sortBy_stable)
    finally show ?thesis by simp
  qed
  then show ?thesis by blast
qed

end

interpretation reference_sortBy: lodash_sortBy "\<lambda>xs f. sort_key f xs"
  by unfold_locales (simp_all add: sort_key_stable)

end
