(* ===== verification/Js_Text.thy ===== *)
theory Js_Text
  imports Prelude
begin

text \<open>
  The string operations the program uses: lower-casing and normalised equality
  (\<open>packages/node/src/utils/string.ts\<close>), \<open>includes\<close>, \<open>startsWith\<close> and \<open>split('-')[0]\<close>, the decimal
  printing of integers, \<open>parseInt\<close> with radix 10, and \<open>BigInt(text).toString()\<close>.
  Strings are lists of 8-bit characters; \<open>toLowerCase\<close> acts on the ASCII letters, which is what
  addresses, asset codes and operation types are made of.
\<close>

section \<open>Case\<close>

definition char_lower :: "char \<Rightarrow> char" where
  "char_lower c = (if 65 \<le> (of_char c :: nat) \<and> (of_char c :: nat) \<le> 90
     then char_of ((of_char c :: nat) + 32) else c)"

definition toLowerCase :: "string \<Rightarrow> string" where
  "toLowerCase s = map char_lower s"

definition stringNormalizedEq :: "string \<Rightarrow> string option \<Rightarrow> bool" where
  "stringNormalizedEq a b = (Some (toLowerCase a) = map_option toLowerCase b)"

lemma of_char_char_lower:
  "(of_char (char_lower c) :: nat)
     = (if 65 \<le> (of_char c :: nat) \<and> (of_char c :: nat) \<le> 90 then of_char c + 32 else of_char c)"
  by (auto simp: char_lower_def of_char_of)

lemma char_lower_idem [simp]: "char_lower (char_lower c) = char_lower c"
  using of_char_char_lower [of c] by (auto simp: char_lower_def of_char_of)

lemma toLowerCase_idem [simp]: "toLowerCase (toLowerCase s) = toLowerCase s"
  by (simp add: toLowerCase_def)

lemma toLowerCase_Nil_iff [simp]: "toLowerCase s = [] \<longleftrightarrow> s = []"
  by (simp add: toLowerCase_def)

lemma toLowerCase_Nil [simp]: "toLowerCase [] = []"
  by (simp add: toLowerCase_def)

section \<open>Searching\<close>

fun str_startsWith :: "string \<Rightarrow> string \<Rightarrow> bool" where
  "str_startsWith s [] = True"
| "str_startsWith [] (c # p) = False"
| "str_startsWith (d # s) (c # p) = (d = c \<and> str_startsWith s p)"

fun str_includes :: "string \<Rightarrow> string \<Rightarrow> bool" where
  "str_includes [] p = str_startsWith [] p"
| "str_includes (d # s) p = (str_startsWith (d # s) p \<or> str_includes s p)"

lemma str_startsWith_iff: "str_startsWith s p \<longleftrightarrow> (\<exists>t. s = p @ t)"
  by (induction s p rule: str_startsWith.induct) auto

lemma str_includes_iff: "str_includes s p \<longleftrightarrow> (\<exists>a b. s = a @ p @ b)"
proof (induction s)
  case Nil
  then show ?case by (auto simp: str_startsWith_iff)
next
  case (Cons d s)
  show ?case (is "?l \<longleftrightarrow> ?r")
  proof
    assume ?l
    then consider "str_startsWith (d # s) p" | "str_includes s p" by auto
    then show ?r
    proof cases
      case 1
      then show ?thesis unfolding str_startsWith_iff by (metis append_Nil)
    next
      case 2
      then show ?thesis unfolding Cons by (metis append_Cons)
    qed
  next
    assume ?r
    then obtain a b where "d # s = a @ p @ b" by blast
    then have "str_startsWith (d # s) p \<or> (\<exists>a b. s = a @ p @ b)"
      unfolding str_startsWith_iff by (metis append_Cons append_Nil list.exhaust list.inject)
    then show ?l unfolding Cons [symmetric] by simp
  qed
qed

lemma startsWith_includes: "str_startsWith s p \<Longrightarrow> str_includes s p"
  by (cases s) auto

text \<open>\<open>s.split('-')[0]\<close>: the text before the first dash, all of it when there is none.\<close>

definition split_dash_head :: "string \<Rightarrow> string" where
  "split_dash_head s = takeWhile (\<lambda>c. c \<noteq> CHR ''-'') s"

section \<open>Decimal numbers\<close>

definition digit_char :: "nat \<Rightarrow> char" where
  "digit_char d = char_of (d + 48)"

definition is_digit :: "char \<Rightarrow> bool" where
  "is_digit c = (48 \<le> (of_char c :: nat) \<and> (of_char c :: nat) \<le> 57)"

definition digit_val :: "char \<Rightarrow> nat" where
  "digit_val c = of_char c - 48"

text \<open>\<open>n.toString()\<close> of a natural number.\<close>

fun nat_string :: "nat \<Rightarrow> string" where
  "nat_string n = (if n < 10 then [digit_char n] else nat_string (n div 10) @ [digit_char (n mod 10)])"

declare nat_string.simps [simp del]

text \<open>\<open>n.toString()\<close> of an integer.\<close>

definition int_string :: "int \<Rightarrow> string" where
  "int_string i = (if i < 0 then CHR ''-'' # nat_string (nat (- i)) else nat_string (nat i))"

text \<open>The value of a string of decimal digits.\<close>

definition digits_val :: "string \<Rightarrow> nat" where
  "digits_val ds = foldl (\<lambda>n c. 10 * n + digit_val c) 0 ds"

lemma digit_char_facts [simp]:
  "d < 10 \<Longrightarrow> is_digit (digit_char d)" "d < 10 \<Longrightarrow> digit_val (digit_char d) = d"
  by (simp_all add: is_digit_def digit_char_def digit_val_def of_char_of)

lemma digit_char_digit_val [simp]: "is_digit c \<Longrightarrow> digit_char (digit_val c) = c"
  by (simp add: is_digit_def digit_char_def digit_val_def)

lemma digit_val_less [simp]: "is_digit c \<Longrightarrow> digit_val c < 10"
  by (auto simp: is_digit_def digit_val_def)

lemma digits_val_simps [simp]:
  "digits_val [] = 0" "digits_val (ds @ [c]) = 10 * digits_val ds + digit_val c"
  by (simp_all add: digits_val_def)

lemma nat_string_nonempty [simp]: "nat_string n \<noteq> []"
  by (subst nat_string.simps) simp

lemma nat_string_digits: "c \<in> set (nat_string n) \<Longrightarrow> is_digit c"
proof (induction n rule: nat_string.induct)
  case (1 n)
  then show ?case by (subst (asm) nat_string.simps) (auto split: if_splits)
qed

lemma digits_val_nat_string [simp]: "digits_val (nat_string n) = n"
proof (induction n rule: nat_string.induct)
  case (1 n)
  then show ?case
    by (subst nat_string.simps) (auto simp: digits_val_def)
qed

lemma nat_string_inject [simp]: "nat_string m = nat_string n \<longleftrightarrow> m = n"
  by (metis digits_val_nat_string)

lemma digits_val_replicate_zero: "digits_val (replicate k (CHR ''0'') @ ds) = digits_val ds"
proof (induction ds rule: rev_induct)
  case Nil
  show ?case
  proof (induction k)
    case (Suc k)
    have "replicate (Suc k) (CHR ''0'') = replicate k (CHR ''0'') @ [CHR ''0'']"
      by (simp add: replicate_append_same)
    then show ?case using Suc by (simp del: replicate_Suc add: digit_val_def)
  qed simp
next
  case (snoc c ds)
  then show ?case by (metis append_assoc digits_val_simps(2))
qed

section \<open>\<open>parseInt(s, 10)\<close>\<close>

definition is_space :: "char \<Rightarrow> bool" where
  "is_space c = (c \<in> set [CHR '' '', CHR 0x09, CHR 0x0A, CHR 0x0B, CHR 0x0C, CHR 0x0D])"

text \<open>
  Leading white space is skipped, one sign is read, then the longest run of digits; with no
  digit the result is \<open>NaN\<close>, here \<open>None\<close>.
\<close>

definition parse_digits :: "string \<Rightarrow> int option" where
  "parse_digits s = (let ds = takeWhile is_digit s
     in if ds = [] then None else Some (int (digits_val ds)))"

definition parseInt :: "string \<Rightarrow> int option" where
  "parseInt s = (case dropWhile is_space s of
       [] \<Rightarrow> None
     | c # cs \<Rightarrow> (if c = CHR ''-'' then map_option uminus (parse_digits cs)
                 else if c = CHR ''+'' then parse_digits cs
                 else parse_digits (c # cs)))"

lemma takeWhile_nat_string [simp]: "takeWhile is_digit (nat_string n) = nat_string n"
  by (auto simp: takeWhile_eq_all_conv dest: nat_string_digits)

lemma parse_digits_nat_string [simp]: "parse_digits (nat_string n) = Some (int n)"
  by (simp add: parse_digits_def)

lemma digit_not_special:
  "is_digit c \<Longrightarrow> \<not> is_space c" "is_digit c \<Longrightarrow> c \<noteq> CHR ''-''" "is_digit c \<Longrightarrow> c \<noteq> CHR ''+''"
  by (auto simp: is_digit_def is_space_def)

lemma parseInt_int_string [simp]: "parseInt (int_string i) = Some i"
proof (cases "i < 0")
  case True
  then show ?thesis by (simp add: parseInt_def int_string_def is_space_def)
next
  case False
  obtain c cs where cs: "nat_string (nat i) = c # cs"
    by (metis list.exhaust nat_string_nonempty)
  then have "is_digit c" using nat_string_digits by (metis list.set_intros(1))
  then show ?thesis
    using False cs digit_not_special parse_digits_nat_string [of "nat i"]
    by (auto simp: parseInt_def int_string_def)
qed

section \<open>\<open>BigInt(text).toString()\<close>\<close>

text \<open>
  The \<open>StringToBigInt\<close> conversion: surrounding white space is ignored, the empty text is zero,
  the prefixes \<open>0x\<close>, \<open>0o\<close> and \<open>0b\<close> select a radix, an optional plus sign may stand before decimal
  digits, and anything else is a \<open>SyntaxError\<close>. The text converted is the part of a Horizon
  effect id before its first dash, so a minus sign cannot occur in it.
\<close>

definition trim :: "string \<Rightarrow> string" where
  "trim s = rev (dropWhile is_space (rev (dropWhile is_space s)))"

lemma trim_ends:
  assumes "trim s \<noteq> []"
  shows "\<not> is_space (hd (trim s))" "\<not> is_space (last (trim s))"
proof -
  let ?t = "dropWhile is_space s"
  have "?t = trim s @ rev (takeWhile is_space (rev ?t))"
    by (metis trim_def rev_append rev_rev_ident takeWhile_dropWhile_id)
  then have "hd ?t = hd (trim s)" "?t \<noteq> []" using assms by (metis hd_append2, metis append_is_Nil_conv)
  then show "\<not> is_space (hd (trim s))" by (metis hd_dropWhile)
  show "\<not> is_space (last (trim s))"
    using assms hd_dropWhile [of is_space "rev ?t"] by (simp add: trim_def last_rev)
qed

lemma trim_trim [simp]: "trim (trim s) = trim s"
proof (cases "trim s = []")
  case False
  have "dropWhile is_space (trim s) = trim s" "dropWhile is_space (rev (trim s)) = rev (trim s)"
    using trim_ends [OF False] False by (simp_all add: dropWhile_eq_self_iff hd_rev)
  then show ?thesis by (simp add: trim_def [of "trim s"])
next
  case True
  then show ?thesis by (simp only:) (simp add: trim_def)
qed

definition radix_digit :: "char \<Rightarrow> nat option" where
  "radix_digit c =
     (let n = of_char c :: nat
      in if 48 \<le> n \<and> n \<le> 57 then Some (n - 48)
         else if 65 \<le> n \<and> n \<le> 70 then Some (n - 55)
         else if 97 \<le> n \<and> n \<le> 102 then Some (n - 87)
         else None)"

definition in_radix :: "nat \<Rightarrow> char \<Rightarrow> bool" where
  "in_radix r c = (case radix_digit c of None \<Rightarrow> False | Some d \<Rightarrow> d < r)"

definition radix_val :: "nat \<Rightarrow> string \<Rightarrow> nat" where
  "radix_val r ds = foldl (\<lambda>n c. r * n + (case radix_digit c of None \<Rightarrow> 0 | Some d \<Rightarrow> d)) 0 ds"

text \<open>The radix and the digits of a numeric text.\<close>

fun radix_split :: "string \<Rightarrow> nat \<times> string" where
  "radix_split (a # b # cs) =
     (if a = CHR ''0'' \<and> b \<in> set ''xX'' then (16, cs)
      else if a = CHR ''0'' \<and> b \<in> set ''oO'' then (8, cs)
      else if a = CHR ''0'' \<and> b \<in> set ''bB'' then (2, cs)
      else if a = CHR ''+'' then (10, b # cs)
      else (10, a # b # cs))"
| "radix_split s = (10, s)"

definition BigInt_of :: "string \<Rightarrow> nat result" where
  "BigInt_of s =
     (let t = trim s; (r, ds) = radix_split t
      in if t = [] then Inr 0
         else if ds \<noteq> [] \<and> list_all (in_radix r) ds then Inr (radix_val r ds)
         else Inl (SyntaxError (''Cannot convert '' @ s @ '' to a BigInt'')))"

definition BigInt_toString :: "string \<Rightarrow> string result" where
  "BigInt_toString s = (case BigInt_of s of Inl e \<Rightarrow> Inl e | Inr n \<Rightarrow> Inr (nat_string n))"

lemma radix_digit_decimal [simp]: "is_digit c \<Longrightarrow> radix_digit c = Some (digit_val c)"
  by (simp add: is_digit_def radix_digit_def digit_val_def Let_def)

lemma in_radix_decimal [simp]: "is_digit c \<Longrightarrow> in_radix 10 c"
  by (simp add: in_radix_def)

lemma radix_val_decimal: "list_all is_digit ds \<Longrightarrow> radix_val 10 ds = digits_val ds"
proof -
  have "list_all is_digit ds \<Longrightarrow>
    foldl (\<lambda>n c. 10 * n + (case radix_digit c of None \<Rightarrow> 0 | Some d \<Rightarrow> d)) k ds
      = foldl (\<lambda>n c. 10 * n + digit_val c) k ds" for k
    by (induction ds arbitrary: k) auto
  then show "list_all is_digit ds \<Longrightarrow> radix_val 10 ds = digits_val ds"
    by (simp add: radix_val_def digits_val_def)
qed

lemma digit_not_prefix: "is_digit c \<Longrightarrow> c \<notin> set ''xXoObB+''"
  by (auto simp: is_digit_def)

lemma radix_split_digits: "list_all is_digit s \<Longrightarrow> radix_split s = (10, s)"
proof (cases s rule: radix_split.cases)
  case (1 a b cs)
  assume "list_all is_digit s"
  with 1 have "a \<noteq> CHR ''+''" "b \<notin> set ''xXoObB''"
    using digit_not_prefix [of a] digit_not_prefix [of b] by auto
  with 1 show ?thesis by simp
qed simp_all

lemma dropWhile_no_space: "list_all is_digit s \<Longrightarrow> dropWhile is_space s = s"
  by (cases s) (auto simp: digit_not_special)

lemma trim_digits: "list_all is_digit s \<Longrightarrow> trim s = s"
  by (simp add: trim_def dropWhile_no_space list_all_rev)

lemma BigInt_toString_digits:
  assumes "s \<noteq> []" "list_all is_digit s"
  shows "BigInt_toString s = Inr (nat_string (digits_val s))"
  using assms
  by (auto simp: BigInt_toString_def BigInt_of_def trim_digits radix_split_digits
      radix_val_decimal list_all_iff)

text \<open>Zero padding does not change what \<open>BigInt(text).toString()\<close> prints.\<close>

lemma BigInt_toString_padded:
  "BigInt_toString (replicate k (CHR ''0'') @ nat_string n) = Inr (nat_string n)"
proof -
  have "list_all is_digit (replicate k (CHR ''0'') @ nat_string n)"
    by (auto simp: list_all_iff is_digit_def [of "CHR ''0''"] dest: nat_string_digits)
  then show ?thesis
    by (simp add: BigInt_toString_digits digits_val_replicate_zero)
qed

lemma split_dash_head_digits:
  "list_all is_digit ds \<Longrightarrow> split_dash_head (ds @ CHR ''-'' # rest) = ds"
  by (induction ds) (auto simp: split_dash_head_def digit_not_special)

end
