(* ===== verification/Js_Date.thy ===== *)
theory Js_Date
  imports Js_Text
begin

text \<open>
  \<open>new Date(text)\<close> for the date-time texts Horizon returns in \<open>closed_at\<close>
  (\<open>2024-05-05T04:17:35Z\<close>), as the time value of ECMAScript: milliseconds since
  1970-01-01T00:00:00Z, \<open>None\<close> for an invalid date. The day count follows the formulas of the
  language standard. A text of another shape is an invalid date here; the standard leaves it to
  the implementation.
\<close>

section \<open>Days\<close>

definition is_leap :: "int \<Rightarrow> bool" where
  "is_leap y = (4 dvd y \<and> (\<not> 100 dvd y \<or> 400 dvd y))"

definition day_from_year :: "int \<Rightarrow> int" where
  "day_from_year y = 365 * (y - 1970) + (y - 1969) div 4 - (y - 1901) div 100 + (y - 1601) div 400"

definition month_lengths :: "int \<Rightarrow> int list" where
  "month_lengths y = [31, if is_leap y then 29 else 28, 31, 30, 31, 30, 31, 31, 30, 31, 30, 31]"

definition day_number :: "int \<Rightarrow> nat \<Rightarrow> int \<Rightarrow> int" where
  "day_number y m d = day_from_year y + sum_list (take (m - 1) (month_lengths y)) + d - 1"

definition time_value :: "int \<Rightarrow> nat \<Rightarrow> int \<Rightarrow> int \<Rightarrow> int \<Rightarrow> int \<Rightarrow> int" where
  "time_value y m d hh mm ss = (((day_number y m d * 24 + hh) * 60 + mm) * 60 + ss) * 1000"

lemma div_step: "0 < (n::int) \<Longrightarrow> (x + 1) div n = x div n + (if n dvd x + 1 then 1 else 0)"
proof -
  assume n: "0 < n"
  show ?thesis
  proof (cases "n dvd x + 1")
    case True
    then obtain k where k: "x + 1 = n * k" by blast
    then have "x = n * (k - 1) + (n - 1)" by (simp add: algebra_simps)
    then have "x div n = k - 1" using n by (simp add: div_mult_self3)
    with k n True show ?thesis by simp
  next
    case False
    have x: "x = n * (x div n) + x mod n" by simp
    have "x mod n \<noteq> n - 1"
    proof
      assume "x mod n = n - 1"
      with x have "x + 1 = n * (x div n + 1)" by (simp add: algebra_simps)
      with False show False by (metis dvd_triv_left)
    qed
    moreover have "x mod n < n" using n by simp
    ultimately have "x mod n + 1 < n" by linarith
    moreover have "0 \<le> x mod n" using n by simp
    moreover have "(x + 1) div n = x div n + (x mod n + 1) div n"
      using n x div_mult_self4 [of n "x div n" "x mod n + 1"] by (simp add: algebra_simps)
    ultimately show ?thesis using False by simp
  qed
qed

lemma day_from_year_Suc: "day_from_year (y + 1) = day_from_year y + (if is_leap y then 366 else 365)"
proof -
  have step: "(y + 1 - c) div n = (y - c) div n + (if n dvd y then 1 else 0)"
    if "0 < n" "n dvd c - 1" for c n :: int
  proof -
    have "n dvd y - c + 1 \<longleftrightarrow> n dvd y"
      using that(2) dvd_diff_left_iff [of n "c - 1" y] by (simp add: algebra_simps)
    then show ?thesis using div_step [of n "y - c"] that(1) by (simp add: algebra_simps)
  qed
  have steps: "(y + 1 - 1969) div 4 = (y - 1969) div 4 + (if 4 dvd y then 1 else 0)"
      "(y + 1 - 1901) div 100 = (y - 1901) div 100 + (if 100 dvd y then 1 else 0)"
      "(y + 1 - 1601) div 400 = (y - 1601) div 400 + (if 400 dvd y then 1 else 0)"
    by (rule step; simp)+
  have dvds: "400 dvd y \<Longrightarrow> 100 dvd y" "100 dvd y \<Longrightarrow> 4 dvd y"
    by (erule dvd_trans [rotated], simp)+
  define a b c where "a = (y - 1969) div 4" and "b = (y - 1901) div 100" and "c = (y - 1601) div 400"
  define p q r where "p = (4 dvd y)" and "q = (100 dvd y)" and "r = (400 dvd y)"
  have "r \<Longrightarrow> q" "q \<Longrightarrow> p" "is_leap y = (p \<and> (\<not> q \<or> r))"
    using dvds by (simp_all add: p_def q_def r_def is_leap_def)
  then show ?thesis
    unfolding day_from_year_def steps a_def [symmetric] b_def [symmetric] c_def [symmetric]
      p_def [symmetric] q_def [symmetric] r_def [symmetric]
    by (cases p; cases q; cases r) simp_all
qed

section \<open>Texts\<close>

definition number_at :: "string \<Rightarrow> nat \<Rightarrow> nat \<Rightarrow> int option" where
  "number_at s i n =
     (let ds = take n (drop i s)
      in if length ds = n \<and> list_all is_digit ds then Some (int (digits_val ds)) else None)"

definition char_at :: "string \<Rightarrow> nat \<Rightarrow> char \<Rightarrow> bool" where
  "char_at s i c = (i < length s \<and> s ! i = c)"

definition date_shape :: "string \<Rightarrow> bool" where
  "date_shape s =
     (length s = 20 \<and> char_at s 4 (CHR ''-'') \<and> char_at s 7 (CHR ''-'') \<and> char_at s 10 (CHR ''T'') \<and>
      char_at s 13 (CHR '':'') \<and> char_at s 16 (CHR '':'') \<and> char_at s 19 (CHR ''Z''))"

definition Date_getTime :: "string \<Rightarrow> int option" where
  "Date_getTime s =
     (if \<not> date_shape s then None
      else case (number_at s 0 4, number_at s 5 2, number_at s 8 2,
                 number_at s 11 2, number_at s 14 2, number_at s 17 2) of
        (Some y, Some m, Some d, Some hh, Some mm, Some ss) \<Rightarrow>
          if 1 \<le> m \<and> m \<le> 12 \<and> 1 \<le> d \<and> d \<le> month_lengths y ! nat (m - 1) \<and>
             hh \<le> 23 \<and> mm \<le> 59 \<and> ss \<le> 59
          then Some (time_value y (nat m) d hh mm ss) else None
      | _ \<Rightarrow> None)"

lemma Date_getTime_epoch: "Date_getTime ''1970-01-01T00:00:00Z'' = Some 0"
  by code_simp

lemma Date_getTime_example: "Date_getTime ''2024-05-05T04:17:35Z'' = Some 1714882655000"
  by code_simp

end
