(* ===== verification/Stellar_Types.thy ===== *)
theory Stellar_Types
  imports Prelude
begin

text \<open>
  The data of the program.

  \<^item> Handler and datasource kinds, handlers, mappings and datasources
    (\<open>packages/types/src/project.ts\<close>) and the filters (\<open>packages/types/src/stellar/interfaces.ts\<close>).
  \<^item> The records Horizon and the Soroban RPC return, restricted to the fields the program reads.
    A contract value (\<open>xdr.ScVal\<close>) is opaque to the program, hence the type variable \<open>'v\<close>.
  \<^item> The wrapped block: ledger, transactions, operations, effects and events with their
    back references. The program breaks every reference cycle by storing a deep clone, so a
    wrapped block is a finite tree and the five types are mutually recursive datatypes.
\<close>

section \<open>Kinds\<close>

datatype StellarHandlerKind = Block | Transaction | SorobanTransaction | Operation | Effects | Event

text \<open>The string values of the TypeScript enums.\<close>

fun handler_kind_value :: "StellarHandlerKind \<Rightarrow> string" where
  "handler_kind_value Block = ''stellar/BlockHandler''"
| "handler_kind_value Transaction = ''stellar/TransactionHandler''"
| "handler_kind_value SorobanTransaction = ''soroban/TransactionHandler''"
| "handler_kind_value Operation = ''stellar/OperationHandler''"
| "handler_kind_value Effects = ''stellar/EffectHandler''"
| "handler_kind_value Event = ''soroban/EventHandler''"

definition StellarDatasourceKind_Runtime :: string where
  "StellarDatasourceKind_Runtime = ''stellar/Runtime''"

lemma handler_kind_value_inject [simp]:
  "handler_kind_value k = handler_kind_value l \<longleftrightarrow> k = l"
  by (cases k; cases l) simp_all

text \<open>\<open>Object.values(StellarHandlerKind)\<close> enumerates the kinds in declaration order.\<close>

instantiation StellarHandlerKind :: enum
begin

definition enum_StellarHandlerKind_def:
  "Enum.enum = [Block, Transaction, SorobanTransaction, Operation, Effects, Event]"

definition enum_all_StellarHandlerKind_def:
  "Enum.enum_all P = (P Block \<and> P Transaction \<and> P SorobanTransaction \<and> P Operation \<and> P Effects \<and> P Event)"

definition enum_ex_StellarHandlerKind_def:
  "Enum.enum_ex P = (P Block \<or> P Transaction \<or> P SorobanTransaction \<or> P Operation \<or> P Effects \<or> P Event)"

instance
proof
  show all: "UNIV = set (Enum.enum :: StellarHandlerKind list)"
  proof -
    have "k \<in> set (Enum.enum :: StellarHandlerKind list)" for k
      by (cases k) (simp_all add: enum_StellarHandlerKind_def)
    then show ?thesis by auto
  qed
  show "distinct (Enum.enum :: StellarHandlerKind list)"
    by (simp add: enum_StellarHandlerKind_def)
  show "Enum.enum_all P = Ball UNIV P" for P :: "StellarHandlerKind \<Rightarrow> bool"
    unfolding all by (simp add: enum_all_StellarHandlerKind_def enum_StellarHandlerKind_def)
  show "Enum.enum_ex P = Bex UNIV P" for P :: "StellarHandlerKind \<Rightarrow> bool"
    unfolding all by (simp add: enum_ex_StellarHandlerKind_def enum_StellarHandlerKind_def)
qed

end

definition handler_kind_values :: "string list" where
  "handler_kind_values = map handler_kind_value Enum.enum"

lemma handler_kind_values_eq:
  "handler_kind_values = [''stellar/BlockHandler'', ''stellar/TransactionHandler'',
     ''soroban/TransactionHandler'', ''stellar/OperationHandler'', ''stellar/EffectHandler'',
     ''soroban/EventHandler'']"
  by (simp add: handler_kind_values_def enum_StellarHandlerKind_def)

lemma handler_kind_values_range: "set handler_kind_values = range handler_kind_value"
  by (simp add: handler_kind_values_def UNIV_enum)

section \<open>Filters\<close>

record StellarBlockFilter =
  bf_modulo :: "int option"
  bf_timestamp :: "string option"

record StellarTransactionFilter =
  tf_account :: "string option"

record StellarOperationFilter =
  of_type :: "string option"
  of_sourceAccount :: "string option"

record StellarEffectFilter =
  ef_type :: "string option"
  ef_account :: "string option"

record SorobanEventFilter =
  evf_contractId :: "string option"
  evf_topics :: "string option list option"

text \<open>
  A handler carries one filter object whose type depends on the kind of the handler; the code
  reads it through a type assertion (\<open>handler.filter as StellarOperationFilter\<close>). The object has
  the fields of all filter interfaces, each possibly absent, and an assertion is a projection.
\<close>

record SubqlHandlerFilter =
  f_modulo :: "int option"
  f_timestamp :: "string option"
  f_account :: "string option"
  f_type :: "string option"
  f_sourceAccount :: "string option"
  f_contractId :: "string option"
  f_topics :: "string option list option"

definition empty_filter :: SubqlHandlerFilter where
  "empty_filter = \<lparr>f_modulo = None, f_timestamp = None, f_account = None, f_type = None,
     f_sourceAccount = None, f_contractId = None, f_topics = None\<rparr>"

definition as_block_filter :: "SubqlHandlerFilter \<Rightarrow> StellarBlockFilter" where
  "as_block_filter f = \<lparr>bf_modulo = f_modulo f, bf_timestamp = f_timestamp f\<rparr>"

definition as_transaction_filter :: "SubqlHandlerFilter \<Rightarrow> StellarTransactionFilter" where
  "as_transaction_filter f = \<lparr>tf_account = f_account f\<rparr>"

definition as_operation_filter :: "SubqlHandlerFilter \<Rightarrow> StellarOperationFilter" where
  "as_operation_filter f = \<lparr>of_type = f_type f, of_sourceAccount = f_sourceAccount f\<rparr>"

definition as_effect_filter :: "SubqlHandlerFilter \<Rightarrow> StellarEffectFilter" where
  "as_effect_filter f = \<lparr>ef_type = f_type f, ef_account = f_account f\<rparr>"

definition as_event_filter :: "SubqlHandlerFilter \<Rightarrow> SorobanEventFilter" where
  "as_event_filter f = \<lparr>evf_contractId = f_contractId f, evf_topics = f_topics f\<rparr>"

lemmas filter_cast_defs [js_simps] = as_block_filter_def as_transaction_filter_def
  as_operation_filter_def as_effect_filter_def as_event_filter_def

section \<open>Handlers and datasources\<close>

record SubqlHandler =
  h_handler :: string
  h_kind :: string
  h_filter :: "SubqlHandlerFilter option"

record SubqlMapping =
  m_file :: string
  m_handlers :: "SubqlHandler list"

text \<open>A free-form object: field names to values.\<close>

type_synonym js_object = "string \<Rightarrow> js_value option"

text \<open>\<open>options?.address\<close> of \<open>SubqlStellarProcessorOptions\<close>\<close>

definition option_address :: "js_object \<Rightarrow> string option" where
  "option_address opts = (case opts ''address'' of Some (JStr s) \<Rightarrow> Some s | _ \<Rightarrow> None)"

text \<open>
  Runtime and custom datasources in one record: \<open>ds_processor\<close> is the \<open>processor\<close> of a custom
  datasource, given by its file and its options.
\<close>

record Processor =
  p_file :: string
  p_options :: "js_object option"

record SubqlDatasource =
  ds_kind :: string
  ds_startBlock :: "int option"
  ds_mapping :: SubqlMapping
  ds_options :: "js_object option"
  ds_processor :: "Processor option"

text \<open>\<open>ds.options?.address\<close>\<close>

definition ds_address :: "SubqlDatasource \<Rightarrow> string option" where
  "ds_address ds = Option.bind (ds_options ds) option_address"

section \<open>Records of the chain\<close>

record LedgerRecord =
  sequence :: int
  ledger_hash :: string
  closed_at :: string
  successful_transaction_count :: int
  failed_transaction_count :: int
  operation_count :: int
  tx_set_operation_count :: "int option"

record TransactionRecord =
  tx_hash :: string
  tx_source_account :: string

record OperationRecord =
  op_id :: string
  op_type :: string
  op_source_account :: string
  op_transaction_hash :: string

record EffectRecord =
  eff_id :: string
  eff_type :: string
  eff_account :: string

text \<open>\<open>contractId?.toString()\<close> is the only use of the contract of an event.\<close>

record 'v EventResponse =
  ev_id :: string
  ev_ledger :: int
  ev_txHash :: string
  ev_operationIndex :: nat
  ev_contractId :: "string option"
  ev_topic :: "'v list"

section \<open>The wrapped block\<close>

text \<open>
  A wrapped object spreads the fetched record and sets its back references. In an event the
  reference \<open>ledger\<close> replaces the number of the same name, which nothing reads afterwards;
  \<open>event_record\<close> keeps the record as it was fetched.
\<close>

datatype 'v StellarBlock =
  StellarBlock (block_record: LedgerRecord)
    (block_transactions: "'v StellarTransaction list")
    (block_operations: "'v StellarOperation list")
    (block_effects: "'v StellarEffect list")
    (block_events: "'v SorobanEvent list")
and 'v StellarTransaction =
  StellarTransaction (transaction_record: TransactionRecord)
    (transaction_ledger: "'v StellarBlock option")
    (transaction_operations: "'v StellarOperation list")
    (transaction_effects: "'v StellarEffect list")
    (transaction_events: "'v SorobanEvent list")
and 'v StellarOperation =
  StellarOperation (operation_record: OperationRecord)
    (operation_ledger: "'v StellarBlock option")
    (operation_transaction: "'v StellarTransaction option")
    (operation_effects: "'v StellarEffect list")
    (operation_events: "'v SorobanEvent list")
and 'v StellarEffect =
  StellarEffect (effect_record: EffectRecord)
    (effect_ledger: "'v StellarBlock option")
    (effect_transaction: "'v StellarTransaction option")
    (effect_operation: "'v StellarOperation option")
and 'v SorobanEvent =
  SorobanEvent (event_record: "'v EventResponse")
    (event_ledger: "'v StellarBlock option")
    (event_transaction: "'v StellarTransaction option")
    (event_operation: "'v StellarOperation option")

text \<open>\<open>BlockWrapper\<close> (\<open>packages/types/src/interfaces.ts\<close>): the block with its flattened contents.\<close>

record 'v StellarBlockWrapper =
  block :: "'v StellarBlock"
  transactions :: "'v StellarTransaction list"
  operations :: "'v StellarOperation list"
  effects :: "'v StellarEffect list"
  wrapper_events :: "'v SorobanEvent list"

end
