(* ===== verification/Utils_Stellar.thy ===== *)
theory Utils_Stellar
  imports Js_Date Stellar_Types
begin

text \<open>
  \<open>packages/node/src/stellar/utils.stellar.ts\<close> (block headers, the block format handed to the
  indexer, the constants) and \<open>getBlockSize\<close> of \<open>packages/node/src/indexer/types.ts\<close>.

  A timestamp is the time value of the \<open>Date\<close>, \<open>None\<close> for an invalid date.
\<close>

record Header =
  blockHeight :: int
  blockHash :: string
  parentHash :: string
  timestamp :: "int option"

definition stellarBlockToHeader :: "LedgerRecord \<Rightarrow> Header" where
  "stellarBlockToHeader blk =
     \<lparr>blockHeight = sequence blk,
      blockHash = int_string (sequence blk),
      parentHash = int_string (sequence blk - 1),
      timestamp = Date_getTime (closed_at blk)\<rparr>"

text \<open>\<open>IBlock\<close>: a block and the thunk that computes its header.\<close>

record 'v IBlock =
  iblock :: "'v StellarBlockWrapper"
  getHeader :: "unit \<Rightarrow> Header"

definition formatBlockUtil :: "'v StellarBlockWrapper \<Rightarrow> 'v IBlock" where
  "formatBlockUtil b =
     \<lparr>iblock = b, getHeader = (\<lambda>_. stellarBlockToHeader (block_record (block b)))\<rparr>"

definition calcInterval :: int where
  "calcInterval = 6000"

definition DEFAULT_PAGE_SIZE :: nat where
  "DEFAULT_PAGE_SIZE = 150"

definition getBlockSize :: "'v StellarBlockWrapper \<Rightarrow> int" where
  "getBlockSize b =
     (let l = block_record (block b)
      in (case tx_set_operation_count l of
            Some n \<Rightarrow> n
          | None \<Rightarrow> successful_transaction_count l + failed_transaction_count l) + operation_count l)"

lemma header_hash_height: "parseInt (blockHash (stellarBlockToHeader b)) = Some (sequence b)"
  by (simp add: stellarBlockToHeader_def)

lemma header_parent_height: "parseInt (parentHash (stellarBlockToHeader b)) = Some (sequence b - 1)"
  by (simp add: stellarBlockToHeader_def)

end
