(* ===== verification/Soroban_Server.thy ===== *)
theory Soroban_Server
  imports Lodash Utils_Stellar
begin

text \<open>
  \<open>packages/node/src/stellar/soroban.server.ts\<close>: the event cache of \<open>SorobanServer\<close> and its
  paged fetching of the events of one ledger.

  The state is the cache, a map from ledger numbers to cached responses. The RPC server behind
  \<open>super.getEvents\<close> is a parameter that reads and changes a world \<open>'w\<close>; the recursion of
  \<open>fetchEventsForSequence\<close> ends only if the server lets it, so the function is partial and
  \<open>None\<close> stands for a call that never returns.
\<close>

section \<open>Requests, responses and the cache\<close>

record GetEventsRequest =
  startLedger :: "int option"
  endLedger :: "int option"
  cursor :: "string option"
  filters :: "string list"
  limit :: "nat option"

record 'v GetEventsResponse =
  response_events :: "'v EventResponse list"
  response_latestLedger :: int
  response_cursor :: string

record 'v CachedEventsResponse =
  cached_events :: "'v EventResponse list"
  cached_latestLedger :: int

type_synonym 'v eventsCache = "int \<Rightarrow> 'v CachedEventsResponse option"

type_synonym ('w, 'v) rpc_server = "GetEventsRequest \<Rightarrow> 'w \<Rightarrow> 'v GetEventsResponse result \<times> 'w"

section \<open>Fetching\<close>

text \<open>
  What \<open>fetchEventsForSequence\<close> does with a response, from the end of the \<open>await\<close> to its return
  or to its recursive call: it returns the events and the events to cache, throws, or goes on with
  a request and an accumulator.
\<close>

datatype 'v page_outcome =
    Return "'v CachedEventsResponse" "'v CachedEventsResponse"
  | Throw js_error
  | Continue GetEventsRequest "'v EventResponse list"

definition handle_response ::
  "'v EventResponse lodash \<Rightarrow> int \<Rightarrow> GetEventsRequest \<Rightarrow> 'v EventResponse list \<Rightarrow> 'v GetEventsResponse \<Rightarrow>
   'v page_outcome" where
  "handle_response lo seq request accEvents response =
     (let pageLimit = (case limit request of None \<Rightarrow> DEFAULT_PAGE_SIZE | Some n \<Rightarrow> n);
          groupedEvents = groupBy lo (response_events response)
            (\<lambda>event. if ev_ledger event = seq then ''events'' else ''eventsToCache'');
          events = compact lo (groupedEvents ''events'');
          eventsToCache = compact lo (groupedEvents ''eventsToCache'');
          newEvents = accEvents @ events;
          result = (\<lambda>rest. Return
            \<lparr>cached_events = newEvents, cached_latestLedger = response_latestLedger response\<rparr>
            \<lparr>cached_events = rest, cached_latestLedger = response_latestLedger response\<rparr>)
      in if eventsToCache \<noteq> [] then
           (if length (response_events response) = pageLimit then
              (case last_of lo (response_events response) of
                 None \<Rightarrow> Throw (TypeError ''Cannot read properties of undefined (reading 'ledger')'')
               | Some lastEvent \<Rightarrow>
                   result (filter (\<lambda>event. ev_ledger event \<noteq> ev_ledger lastEvent) eventsToCache))
            else result eventsToCache)
         else if response_events response = [] then result []
         else Continue (request\<lparr>cursor := Some (response_cursor response), startLedger := None, endLedger := None\<rparr>)
                newEvents)"

partial_function (option) fetchEventsForSequence ::
  "'v EventResponse lodash \<Rightarrow> ('w, 'v) rpc_server \<Rightarrow> int \<Rightarrow> GetEventsRequest \<Rightarrow> 'v EventResponse list \<Rightarrow> 'w \<Rightarrow>
   (('v CachedEventsResponse \<times> 'v CachedEventsResponse) result \<times> 'w) option" where
  "fetchEventsForSequence lo rpc seq request accEvents w =
     (case rpc request w of
        (Inl e, w') \<Rightarrow> Some (Inl e, w')
      | (Inr response, w') \<Rightarrow>
          (case handle_response lo seq request accEvents response of
             Throw e \<Rightarrow> Some (Inl e, w')
           | Return events eventsToCache \<Rightarrow> Some (Inr (events, eventsToCache), w')
           | Continue request' newEvents \<Rightarrow> fetchEventsForSequence lo rpc seq request' newEvents w'))"

declare fetchEventsForSequence.simps [code]

section \<open>The cache\<close>

definition cache_event :: "int \<Rightarrow> int option \<Rightarrow> 'v eventsCache \<Rightarrow> 'v EventResponse \<Rightarrow> 'v eventsCache" where
  "cache_event latest ignoreHeight cache event =
     (if truthy_num ignoreHeight \<and> ignoreHeight = Some (ev_ledger event) then cache
      else
        (let ledger = ev_ledger event;
             entry = (case cache ledger of
                        None \<Rightarrow> \<lparr>cached_events = [], cached_latestLedger = latest\<rparr>
                      | Some c \<Rightarrow> c);
             eventExists = (\<exists>existingEvent \<in> set (cached_events entry). ev_id existingEvent = ev_id event)
         in cache(ledger := Some
              (if eventExists then entry
               else entry\<lparr>cached_events := cached_events entry @ [event]\<rparr>))))"

definition updateEventCache ::
  "'v CachedEventsResponse \<Rightarrow> int option \<Rightarrow> 'v eventsCache \<Rightarrow> 'v eventsCache" where
  "updateEventCache response ignoreHeight cache =
     foldl (cache_event (cached_latestLedger response) ignoreHeight) cache (cached_events response)"

section \<open>\<open>getEvents\<close>\<close>

definition getEvents ::
  "'v EventResponse lodash \<Rightarrow> ('w, 'v) rpc_server \<Rightarrow> GetEventsRequest \<Rightarrow> 'v eventsCache \<Rightarrow> 'w \<Rightarrow>
   ('v CachedEventsResponse result \<times> 'v eventsCache \<times> 'w) option" where
  "getEvents lo rpc request cache w =
     (case startLedger request of
        None \<Rightarrow> Some (Inl (Error ''Get soraban event failed, block sequence is missing''), cache, w)
      | Some seq \<Rightarrow>
          (let request = request\<lparr>endLedger := Some (case endLedger request of None \<Rightarrow> seq + 1 | Some e \<Rightarrow> e)\<rparr>
           in case cache seq of
                Some cachedEvents \<Rightarrow> Some (Inr cachedEvents, cache(seq := None), w)
              | None \<Rightarrow>
                  (case fetchEventsForSequence lo rpc seq request [] w of
                     None \<Rightarrow> None
                   | Some (Inl e, w') \<Rightarrow> Some (Inl e, cache, w')
                   | Some (Inr (evts, eventsToCache), w') \<Rightarrow>
                       Some (Inr evts, updateEventCache eventsToCache (Some seq) cache, w'))))"

end
