(* ===== verification/Soroban_Contract.thy ===== *)
theory Soroban_Contract
  imports Soroban_Server
begin

text \<open>
  What \<open>SorobanServer\<close> promises, given what it relies on.

  \<^item> \<open>honest_rpc\<close>: the interface of the RPC server. The server holds a log of events ordered by
    ledger; a request denotes a window of positions of the log, and a response is a prefix of that
    window, empty only when the window is, with a cursor for the position after it. The size of a
    page is the server's choice. It is the contract of a server that still has the ledgers asked for
    and does not fail; what the errors of a server that has dropped them become is
    \<open>event_errors_translated\<close> in \<open>Api_Properties\<close>.
  \<^item> \<open>full_page_rpc\<close> extends it: up to a maximal limit, the server fills a page to the limit asked
    for unless the window ends first.
  \<^item> The abstract specification of \<open>getEvents\<close> is \<open>events_of log s\<close>, the events of ledger \<open>s\<close> in
    log order. With an honest server a miss returns exactly these; with full pages every entry of
    the cache is complete as well, so every call returns them.
  \<^item> The locales are interpreted on \<open>log_rpc\<close>, a server over any log with any page size.
\<close>

section \<open>Logs\<close>

definition events_of :: "'v EventResponse list \<Rightarrow> int \<Rightarrow> 'v EventResponse list" where
  "events_of log s = filter (\<lambda>e. ev_ledger e = s) log"

text \<open>The position of the first event of a ledger not below \<open>s\<close>.\<close>

definition first_at :: "'v EventResponse list \<Rightarrow> int \<Rightarrow> nat" where
  "first_at log s = length (takeWhile (\<lambda>e. ev_ledger e < s) log)"

text \<open>The positions a request asks for, when \<open>pos\<close> reads the position off a cursor.\<close>

fun window_of :: "'v EventResponse list \<Rightarrow> (string \<Rightarrow> nat) \<Rightarrow> GetEventsRequest \<Rightarrow> nat \<times> nat" where
  "window_of log pos req =
     (case cursor req of
        Some c \<Rightarrow> (pos c, length log)
      | None \<Rightarrow> (case (startLedger req, endLedger req) of
          (Some s, Some e) \<Rightarrow> (first_at log s, first_at log e)
        | _ \<Rightarrow> (length log, length log)))"

text \<open>The requests the RPC documentation allows: a ledger range, or a cursor without a range.\<close>

definition valid_request :: "GetEventsRequest \<Rightarrow> bool" where
  "valid_request req =
     (filters req = [] \<and> limit req \<noteq> Some 0 \<and>
      (if cursor req = None then startLedger req \<noteq> None \<and> endLedger req \<noteq> None
       else startLedger req = None \<and> endLedger req = None))"

lemma take_first_at: "x \<in> set (take (first_at log s) log) \<Longrightarrow> ev_ledger x < s"
  by (metis first_at_def set_takeWhileD takeWhile_eq_take)

lemma drop_first_at:
  assumes "sorted (map ev_ledger log)" "x \<in> set (drop (first_at log s) log)"
  shows "s \<le> ev_ledger x"
proof -
  have drop: "drop (first_at log s) log = dropWhile (\<lambda>e. ev_ledger e < s) log"
    by (simp add: first_at_def dropWhile_eq_drop)
  with assms(2) obtain y ys where ys: "dropWhile (\<lambda>e. ev_ledger e < s) log = y # ys"
    by (cases "dropWhile (\<lambda>e. ev_ledger e < s) log") auto
  then have "s \<le> ev_ledger y" by (metis hd_dropWhile linorder_not_less list.distinct(1) list.sel(1))
  moreover have "sorted (map ev_ledger (y # ys))"
    using assms(1) ys by (metis drop drop_map sorted_wrt_drop)
  ultimately show ?thesis using assms(2) drop ys by auto
qed

lemma first_at_le: "first_at log s \<le> length log"
  by (simp add: first_at_def length_takeWhile_le)

lemma first_at_mono: "s \<le> e \<Longrightarrow> first_at log s \<le> first_at log e"
  unfolding first_at_def by (induction log) auto

lemma sorted_log_split:
  assumes "sorted (map ev_ledger log)" "x \<in> set (take n log)" "y \<in> set (drop n log)"
  shows "ev_ledger x \<le> ev_ledger y"
proof -
  have "sorted (map ev_ledger (take n log) @ map ev_ledger (drop n log))"
    using assms(1) by (metis append_take_drop_id map_append)
  with assms(2,3) show ?thesis by (auto simp: sorted_append)
qed

section \<open>One step of the fetch loop\<close>

text \<open>The requests of the loop after the first page.\<close>

definition next_request :: "GetEventsRequest \<Rightarrow> string \<Rightarrow> GetEventsRequest" where
  "next_request req c = req\<lparr>cursor := Some c, startLedger := None, endLedger := None\<rparr>"

lemma next_request_simps [simp]:
  "limit (next_request req c) = limit req" "filters (next_request req c) = filters req"
  "cursor (next_request req c) = Some c" "startLedger (next_request req c) = None"
  "endLedger (next_request req c) = None"
  by (simp_all add: next_request_def)

definition page_limit :: "GetEventsRequest \<Rightarrow> nat" where
  "page_limit req = (case limit req of None \<Rightarrow> DEFAULT_PAGE_SIZE | Some n \<Rightarrow> n)"

text \<open>The events a page of later ledgers leaves for the cache.\<close>

definition to_cache :: "nat \<Rightarrow> int \<Rightarrow> 'v EventResponse list \<Rightarrow> 'v EventResponse list" where
  "to_cache n s page =
     (let later = filter (\<lambda>e. ev_ledger e \<noteq> s) page
      in if length page = n then filter (\<lambda>e. ev_ledger e \<noteq> ev_ledger (last page)) later else later)"

lemma handle_response_eq:
  assumes lo: "lodash_events lo"
  shows "handle_response lo s req acc r =
    (let page = response_events r; new = acc @ events_of page s;
         result = (\<lambda>rest. Return \<lparr>cached_events = new, cached_latestLedger = response_latestLedger r\<rparr>
                    \<lparr>cached_events = rest, cached_latestLedger = response_latestLedger r\<rparr>)
     in if filter (\<lambda>e. ev_ledger e \<noteq> s) page \<noteq> [] then result (to_cache (page_limit req) s page)
        else if page = [] then result []
        else Continue (next_request req (response_cursor r)) new)"
  by (auto simp: handle_response_def Let_def lodash_events.compact_groupBy [OF lo] lodash_events.last_of_spec [OF lo]
      next_request_def page_limit_def to_cache_def events_of_def if_distrib [of "\<lambda>k. k = _"] cong: if_cong
      intro!: filter_cong split: option.splits)

lemma fetch_step:
  assumes lo: "lodash_events lo" and r: "rpc req w = (Inr r, w')"
  shows "fetchEventsForSequence lo rpc s req acc w =
    (let page = response_events r; new = acc @ events_of page s;
         result = (\<lambda>rest. Some (Inr (\<lparr>cached_events = new, cached_latestLedger = response_latestLedger r\<rparr>,
                    \<lparr>cached_events = rest, cached_latestLedger = response_latestLedger r\<rparr>), w'))
     in if filter (\<lambda>e. ev_ledger e \<noteq> s) page \<noteq> [] then result (to_cache (page_limit req) s page)
        else if page = [] then result []
        else fetchEventsForSequence lo rpc s (next_request req (response_cursor r)) new w')"
  by (subst fetchEventsForSequence.simps) (simp add: r handle_response_eq [OF lo] Let_def)

section \<open>The invariant of the fetch loop\<close>

text \<open>
  At position \<open>p\<close> of the log with window end \<open>q\<close>: the accumulator holds the events of ledger \<open>s\<close>
  before \<open>p\<close>, no event before \<open>p\<close> is above \<open>s\<close>, none after it is below, all events of \<open>s\<close> lie
  before \<open>q\<close>, and \<open>q\<close> does not split a ledger.
\<close>

definition fetch_inv ::
  "'v EventResponse list \<Rightarrow> int \<Rightarrow> nat \<Rightarrow> nat \<Rightarrow> 'v EventResponse list \<Rightarrow> bool" where
  "fetch_inv log s p q acc =
     (p \<le> q \<and> q \<le> length log \<and> acc = events_of (take p log) s \<and>
      (\<forall>x\<in>set (take p log). ev_ledger x \<le> s) \<and>
      (\<forall>x\<in>set (drop p log). s \<le> ev_ledger x) \<and>
      (\<forall>x\<in>set (drop q log). s < ev_ledger x) \<and>
      (\<forall>x\<in>set (take q log). \<forall>y\<in>set (drop q log). ev_ledger x < ev_ledger y))"

lemma events_of_append [simp]: "events_of (xs @ ys) s = events_of xs s @ events_of ys s"
  by (simp add: events_of_def)

lemma events_of_empty_iff: "events_of xs s = [] \<longleftrightarrow> (\<forall>x\<in>set xs. ev_ledger x \<noteq> s)"
  by (simp add: events_of_def filter_empty_conv)

lemma events_of_split: "events_of log s = events_of (take n log) s @ events_of (drop n log) s"
  by (metis append_take_drop_id events_of_append)

lemma fetch_inv_init:
  assumes "sorted (map ev_ledger log)" "s < e"
  shows "fetch_inv log s (first_at log s) (first_at log e) []"
proof -
  have "ev_ledger x < ev_ledger y"
    if "x \<in> set (take (first_at log e) log)" "y \<in> set (drop (first_at log e) log)" for x y
    using take_first_at [OF that(1)] drop_first_at [OF assms(1) that(2)] by simp
  moreover have "s < ev_ledger y" if "y \<in> set (drop (first_at log e) log)" for y
    using drop_first_at [OF assms(1) that] assms(2) by simp
  ultimately show ?thesis
    using first_at_mono [of s e log] first_at_le [of log e] assms(2)
      drop_first_at [OF assms(1), of _ s] take_first_at [of _ log s]
    by (auto simp: fetch_inv_def events_of_empty_iff less_imp_le dest: take_first_at intro!: sym [of _ "[]"])
qed

lemma fetch_inv_exhausted: "fetch_inv log s p p acc \<Longrightarrow> events_of log s = acc"
  using events_of_split [of log s p] by (force simp: fetch_inv_def events_of_empty_iff)

lemma take_page: "take (p + k) log = take p log @ take k (drop p log)"
  by (simp add: take_add)

lemma page_from_drop: "x \<in> set (take k (drop p log)) \<Longrightarrow> x \<in> set (drop p log)"
  by (rule in_set_takeD)

lemma fetch_inv_step:
  assumes inv: "fetch_inv log s p q acc" and k: "p + k \<le> q"
    and page: "\<forall>x\<in>set (take k (drop p log)). ev_ledger x = s"
  shows "fetch_inv log s (p + k) (length log) (acc @ events_of (take k (drop p log)) s)"
proof -
  have "set (drop (p + k) log) \<subseteq> set (drop p log)"
    by (rule set_drop_subset_set_drop) simp
  then show ?thesis
    using inv k page by (auto simp: fetch_inv_def take_page)
qed

lemma fetch_inv_complete:
  assumes sorted: "sorted (map ev_ledger log)" and inv: "fetch_inv log s p q acc"
    and later: "x \<in> set (take k (drop p log))" "ev_ledger x \<noteq> s"
  shows "events_of log s = acc @ events_of (take k (drop p log)) s"
proof -
  have "s < ev_ledger x"
    using inv later page_from_drop [OF later(1)] by (force simp: fetch_inv_def)
  moreover have "x \<in> set (take (p + k) log)" using later(1) by (simp add: take_page)
  ultimately have "s < ev_ledger y" if "y \<in> set (drop (p + k) log)" for y
    using sorted_log_split [OF sorted _ that] by fastforce
  then have "events_of (drop (p + k) log) s = []" by (force simp: events_of_empty_iff)
  then show ?thesis
    using inv events_of_split [of log s "p + k"] by (simp add: fetch_inv_def take_page)
qed

text \<open>
  What a page leaves for the cache are complete ledgers, provided the page ends at the window's
  end or is full, in which case its last ledger is dropped.
\<close>

lemma to_cache_complete:
  assumes sorted: "sorted (map ev_ledger log)" and inv: "fetch_inv log s p q acc" and k: "p + k \<le> q"
    and page: "page = take k (drop p log)" and full: "length page = n \<or> p + k = q"
  shows "events_of (to_cache n s page) L = [] \<or>
         events_of (to_cache n s page) L = events_of log L"
proof (cases "events_of (to_cache n s page) L = []")
  case False
  then obtain x where x: "x \<in> set page" "ev_ledger x = L" "L \<noteq> s"
      "length page = n \<Longrightarrow> L \<noteq> ev_ledger (last page)"
    by (auto simp: events_of_empty_iff to_cache_def Let_def split: if_splits)
  have all: "events_of (to_cache n s page) L = events_of page L"
    using x(3,4) by (auto simp: to_cache_def Let_def events_of_def intro!: filter_cong)
  have above: "s < L"
    using inv x page page_from_drop [of x k p log] by (force simp: fetch_inv_def)
  have before: "events_of (take p log) L = []"
    using inv above by (force simp: fetch_inv_def events_of_empty_iff)
  have x_in: "x \<in> set (take (p + k) log)" using x(1) page by (simp add: take_page)
  have "L < ev_ledger y" if y: "y \<in> set (drop (p + k) log)" for y
  proof (cases "length page = n")
    case True
    have "page \<noteq> []" using x(1) by auto
    then have "last page \<in> set (take (p + k) log)" using page by (simp add: take_page)
    then have "ev_ledger (last page) \<le> ev_ledger y" using sorted y by (intro sorted_log_split)
    moreover have "sorted (map ev_ledger page)"
      unfolding page by (metis sorted drop_map sorted_wrt_drop sorted_wrt_take take_map)
    then have "L \<le> ev_ledger (last page)"
      using x(1,2) by (metis sorted_map_le_last)
    ultimately show ?thesis using x(4) True by simp
  next
    case False
    then have "p + k = q" using full by simp
    then show ?thesis using inv x_in y x(2) by (auto simp: fetch_inv_def)
  qed
  then have "events_of (drop (p + k) log) L = []" by (force simp: events_of_empty_iff)
  then show ?thesis
    using all before page events_of_split [of log L "p + k"] by (simp add: take_page)
qed simp

section \<open>The interface of the RPC server\<close>

locale honest_rpc =
  fixes rpc :: "('w, 'v) rpc_server"
    and log :: "'v EventResponse list"
    and pos :: "string \<Rightarrow> nat"
  assumes log_sorted: "sorted (map ev_ledger log)"
    and serves:
      "valid_request req \<Longrightarrow> window_of log pos req = (p, q) \<Longrightarrow> p \<le> q \<Longrightarrow> q \<le> length log \<Longrightarrow>
       \<exists>r w' k. rpc req w = (Inr r, w') \<and> response_events r = take k (drop p log) \<and>
         p + k \<le> q \<and> (k = 0 \<longrightarrow> p = q) \<and> pos (response_cursor r) = p + k"

text \<open>
  The cached part \<open>tc\<close> of a fetch is empty or stems from a page of later ledgers that some
  request of the loop obtained.
\<close>

definition cached_from ::
  "('w, 'v) rpc_server \<Rightarrow> 'v EventResponse list \<Rightarrow> (string \<Rightarrow> nat) \<Rightarrow> int \<Rightarrow> GetEventsRequest \<Rightarrow>
   'v EventResponse list \<Rightarrow> bool" where
  "cached_from rpc log pos s req tc \<longleftrightarrow>
     tc = [] \<or>
     (\<exists>req' p q acc w w' r k.
        valid_request req' \<and> limit req' = limit req \<and> window_of log pos req' = (p, q) \<and>
        fetch_inv log s p q acc \<and> rpc req' w = (Inr r, w') \<and> response_events r = take k (drop p log) \<and>
        p + k \<le> q \<and> tc = to_cache (page_limit req) s (response_events r))"

context honest_rpc
begin

lemma fetch_result:
  assumes lo: "lodash_events lo"
  shows "valid_request req \<Longrightarrow> window_of log pos req = (p, q) \<Longrightarrow> fetch_inv log s p q acc \<Longrightarrow>
    \<exists>evs tc w'. fetchEventsForSequence lo rpc s req acc w = Some (Inr (evs, tc), w') \<and>
      cached_events evs = events_of log s \<and> cached_from rpc log pos s req (cached_events tc)"
proof (induction "length log - p" arbitrary: req acc w p q rule: less_induct)
  case less
  have pq: "p \<le> q" "q \<le> length log" using less.prems(3) by (simp_all add: fetch_inv_def)
  obtain r w1 k where r: "rpc req w = (Inr r, w1)" and page: "response_events r = take k (drop p log)"
      and k: "p + k \<le> q" "k = 0 \<longrightarrow> p = q" and cur: "pos (response_cursor r) = p + k"
    using serves [OF less.prems(1,2) pq] by blast
  let ?page = "response_events r"
  note step = fetch_step [where rpc = rpc and req = req and w = w and r = r and w' = w1 and s = s and acc = acc,
      OF lo r, unfolded Let_def]
  show ?case
  proof (cases "filter (\<lambda>e. ev_ledger e \<noteq> s) ?page = []")
    case False
    then obtain x where x: "x \<in> set (take k (drop p log))" "ev_ledger x \<noteq> s"
      unfolding page by (auto simp: filter_empty_conv)
    have "acc @ events_of ?page s = events_of log s"
      unfolding page using fetch_inv_complete [OF log_sorted less.prems(3) x] by simp
    moreover have "cached_from rpc log pos s req (to_cache (page_limit req) s ?page)"
      unfolding cached_from_def using less.prems r page k(1) by blast
    ultimately show ?thesis using False by (simp add: step)
  next
    case True
    then have same: "\<forall>x\<in>set (take k (drop p log)). ev_ledger x = s"
      by (simp add: filter_empty_conv page)
    show ?thesis
    proof (cases "?page = []")
      case empty: True
      then have "p = q" using page k pq by auto
      then have "acc = events_of log s"
        using fetch_inv_exhausted less.prems(3) by blast
      moreover have "cached_from rpc log pos s req []" by (simp add: cached_from_def)
      moreover have "fetchEventsForSequence lo rpc s req acc w =
          Some (Inr (\<lparr>cached_events = acc, cached_latestLedger = response_latestLedger r\<rparr>,
            \<lparr>cached_events = [], cached_latestLedger = response_latestLedger r\<rparr>), w1)"
        using empty by (simp add: step events_of_def)
      ultimately show ?thesis by simp
    next
      case nonempty: False
      then have "0 < k" "p < length log" unfolding page by simp_all
      moreover have "fetch_inv log s (p + k) (length log) (acc @ events_of ?page s)"
        unfolding page by (rule fetch_inv_step [OF less.prems(3) k(1) same])
      moreover have "valid_request (next_request req (response_cursor r))"
        using less.prems(1) by (simp add: valid_request_def)
      moreover have "window_of log pos (next_request req (response_cursor r)) = (p + k, length log)"
        by (simp add: cur)
      ultimately have "\<exists>evs tc w'.
          fetchEventsForSequence lo rpc s (next_request req (response_cursor r)) (acc @ events_of ?page s) w1
            = Some (Inr (evs, tc), w') \<and> cached_events evs = events_of log s \<and>
          cached_from rpc log pos s (next_request req (response_cursor r)) (cached_events tc)"
        by (intro less.hyps) simp_all
      moreover have "cached_from rpc log pos s (next_request req c) tc \<longleftrightarrow> cached_from rpc log pos s req tc"
        for c tc by (simp add: cached_from_def page_limit_def)
      ultimately show ?thesis using True nonempty by (simp add: step)
    qed
  qed
qed

text \<open>The request \<open>getEvents\<close> sends for a ledger, with its exclusive end filled in.\<close>

lemma fetch_ledger:
  assumes lo: "lodash_events lo" and "valid_request req" "startLedger req = Some s" "endLedger req = Some e" "s < e"
  shows "\<exists>evs tc w'. fetchEventsForSequence lo rpc s req [] w = Some (Inr (evs, tc), w') \<and>
    cached_events evs = events_of log s \<and> cached_from rpc log pos s req (cached_events tc)"
proof (rule fetch_result [OF lo assms(2)])
  have "cursor req = None" using assms(2,3) by (auto simp: valid_request_def split: if_splits)
  then show "window_of log pos req = (first_at log s, first_at log e)" using assms by simp
  show "fetch_inv log s (first_at log s) (first_at log e) []"
    by (rule fetch_inv_init [OF log_sorted assms(5)])
qed

end

locale full_page_rpc = honest_rpc rpc log pos
  for rpc :: "('w, 'v) rpc_server" and log :: "'v EventResponse list" and pos :: "string \<Rightarrow> nat" +
  fixes maxLimit :: nat
  assumes ids_distinct: "distinct (map ev_id log)"
    and full_page:
      "valid_request req \<Longrightarrow> window_of log pos req = (p, q) \<Longrightarrow> p \<le> q \<Longrightarrow> q \<le> length log \<Longrightarrow>
       limit req = Some n \<Longrightarrow> n \<le> maxLimit \<Longrightarrow> rpc req w = (Inr r, w') \<Longrightarrow>
       length (response_events r) = n \<or> response_events r = take (q - p) (drop p log)"
begin

lemma cached_from_complete:
  assumes "cached_from rpc log pos s req tc" "limit req = Some n" "n \<le> maxLimit"
  shows "(events_of tc L = [] \<or> events_of tc L = events_of log L) \<and>
    set tc \<subseteq> set log \<and> distinct (map ev_id tc)"
proof (cases "tc = []")
  case False
  then obtain req' p q acc w w' r k where *: "valid_request req'" "limit req' = Some n"
      "window_of log pos req' = (p, q)" "fetch_inv log s p q acc" "rpc req' w = (Inr r, w')"
      "response_events r = take k (drop p log)" "p + k \<le> q"
      "tc = to_cache n s (response_events r)"
    using assms(1,2) by (auto simp: cached_from_def page_limit_def)
  have pq: "p \<le> q" "q \<le> length log" using *(4) by (simp_all add: fetch_inv_def)
  have "length (response_events r) = k" using *(6,7) pq by simp
  then have "length (response_events r) = n \<or> p + k = q"
    using full_page [OF *(1,3) pq *(2) assms(3) *(5)] pq by auto
  then have "events_of tc L = [] \<or> events_of tc L = events_of log L"
    unfolding *(8) by (rule to_cache_complete [OF log_sorted *(4,7,6)])
  moreover have "set tc \<subseteq> set log" "distinct (map ev_id tc)"
    using ids_distinct unfolding *(6,8)
    by (auto simp: to_cache_def Let_def distinct_map_filter distinct_take distinct_drop
        simp flip: take_map drop_map dest: in_set_takeD in_set_dropD)
  ultimately show ?thesis by blast
qed (simp add: events_of_def)

end

end
