(* ===== verification/Soroban_Cache.thy ===== *)
theory Soroban_Cache
  imports Soroban_Contract
begin

text \<open>
  The event cache of \<open>SorobanServer\<close>: its invariants and the behaviour of \<open>getEvents\<close> on top of
  the contract of \<open>Soroban_Contract\<close>.

  \<^item> \<open>cache_wf\<close> holds whatever the RPC server answers: an entry is non-empty, holds events of its own
    ledger only, and no id twice.
  \<^item> \<open>cache_sound\<close> holds for a server with full pages: an entry holds all events of its ledger (what
    happens otherwise is shown in \<open>Cache_Retention\<close>).
  \<^item> \<open>log_rpc\<close> is a computable RPC server over any log, with any page size; the interface locales
    are interpreted on it.
\<close>

section \<open>What an update does to the cache\<close>

lemma cache_event_other: "ev_ledger e \<noteq> L \<Longrightarrow> cache_event lat ign cache e L = cache L"
  by (simp add: cache_event_def Let_def)

lemma cache_event_present:
  "cache (ev_ledger e) = Some c \<Longrightarrow> ev_id e \<in> ev_id ` set (cached_events c) \<Longrightarrow>
   cache_event lat ign cache e (ev_ledger e) = Some c"
  by (auto simp: cache_event_def Let_def image_iff)

lemma cache_event_absent:
  "ev_id e \<notin> ev_id ` set (cached_events c) \<Longrightarrow> cache (ev_ledger e) = Some c \<Longrightarrow>
   \<not> (truthy_num ign \<and> ign = Some (ev_ledger e)) \<Longrightarrow>
   cache_event lat ign cache e (ev_ledger e) = Some (c\<lparr>cached_events := cached_events c @ [e]\<rparr>)"
  by (auto simp: cache_event_def Let_def image_iff)

lemma cache_event_first:
  "cache (ev_ledger e) = None \<Longrightarrow> \<not> (truthy_num ign \<and> ign = Some (ev_ledger e)) \<Longrightarrow>
   cache_event lat ign cache e (ev_ledger e) = Some \<lparr>cached_events = [e], cached_latestLedger = lat\<rparr>"
  by (auto simp: cache_event_def Let_def)

lemma cache_event_ignored:
  "truthy_num ign \<and> ign = Some (ev_ledger e) \<Longrightarrow> cache_event lat ign cache e = cache"
  by (auto simp: cache_event_def)

lemma foldl_cache_event:
  assumes "distinct (map ev_id es)"
    and "\<And>x c. x \<in> set es \<Longrightarrow> cache (ev_ledger x) = Some c \<Longrightarrow> ev_id x \<in> ev_id ` set (cached_events c)"
  shows "foldl (cache_event lat ign) cache es L =
    (case cache L of
       Some c \<Rightarrow> Some c
     | None \<Rightarrow> if (truthy_num ign \<and> ign = Some L) \<or> events_of es L = [] then None
               else Some \<lparr>cached_events = events_of es L, cached_latestLedger = lat\<rparr>)"
  using assms
proof (induction es rule: rev_induct)
  case Nil
  then show ?case by (simp add: events_of_def split: option.splits)
next
  case (snoc x es)
  have IH: "foldl (cache_event lat ign) cache es L =
    (case cache L of
       Some c \<Rightarrow> Some c
     | None \<Rightarrow> if (truthy_num ign \<and> ign = Some L) \<or> events_of es L = [] then None
               else Some \<lparr>cached_events = events_of es L, cached_latestLedger = lat\<rparr>)"
    using snoc by auto
  show ?case
  proof (cases "ev_ledger x = L")
    case False
    then have "events_of [x] L = []" by (simp add: events_of_def)
    then have "events_of (es @ [x]) L = events_of es L" by simp
    then show ?thesis
      unfolding foldl_append foldl.simps cache_event_other [OF False] by (simp only: IH)
  next
    case True
    have fresh: "ev_id x \<notin> ev_id ` set (events_of es L)"
      using snoc.prems(1) by (auto simp: events_of_def)
    have new: "events_of (es @ [x]) L = events_of es L @ [x]"
      using True by (simp add: events_of_def)
    let ?cache = "foldl (cache_event lat ign) cache es"
    show ?thesis
    proof (cases "cache L")
      case (Some c)
      then have "ev_id x \<in> ev_id ` set (cached_events c)"
        using snoc.prems(2) [of x c] True by simp
      moreover have "?cache L = Some c" using IH Some by simp
      ultimately show ?thesis using Some True cache_event_present [of ?cache x c lat ign] by simp
    next
      case None
      then show ?thesis
        using IH True fresh new cache_event_ignored [of ign x lat ?cache]
          cache_event_first [of ?cache x ign lat] 
          cache_event_absent [of x "\<lparr>cached_events = events_of es L, cached_latestLedger = lat\<rparr>" ?cache ign lat]
        by (cases "events_of es L = []"; cases "truthy_num ign \<and> ign = Some L") auto
    qed
  qed
qed

section \<open>The invariant of the cache under any server\<close>

definition cache_wf :: "'v eventsCache \<Rightarrow> bool" where
  "cache_wf cache =
     (\<forall>L c. cache L = Some c \<longrightarrow>
        cached_events c \<noteq> [] \<and> (\<forall>e\<in>set (cached_events c). ev_ledger e = L) \<and>
        distinct (map ev_id (cached_events c)))"

lemma cache_wf_empty [simp]: "cache_wf (\<lambda>_. None)"
  by (simp add: cache_wf_def)

lemma cache_wf_remove: "cache_wf cache \<Longrightarrow> cache_wf (cache(L := None))"
  by (simp add: cache_wf_def)

lemma cache_event_wf: "cache_wf cache \<Longrightarrow> cache_wf (cache_event lat ign cache e)"
  by (auto simp: cache_wf_def cache_event_def Let_def image_iff split: option.splits if_splits)

lemma updateEventCache_wf: "cache_wf cache \<Longrightarrow> cache_wf (updateEventCache response ign cache)"
proof -
  have "cache_wf cache \<Longrightarrow> cache_wf (foldl (cache_event lat ign) cache es)" for lat es
    by (induction es arbitrary: cache) (simp_all add: cache_event_wf)
  then show "cache_wf cache \<Longrightarrow> ?thesis" by (simp add: updateEventCache_def)
qed

text \<open>The events a fetch adds to its accumulator belong to the ledger asked for.\<close>

lemma handle_response_own:
  assumes lo: "lodash_events lo"
  shows "handle_response lo s req acc r = Return evs tc \<Longrightarrow>
      cached_events evs = acc @ events_of (response_events r) s"
    and "handle_response lo s req acc r = Continue req' acc' \<Longrightarrow>
      acc' = acc @ events_of (response_events r) s"
  by (auto simp: handle_response_eq [OF lo] Let_def split: if_splits)

lemma fetch_only_own_ledger:
  fixes rpc :: "('w, 'v) rpc_server"
  assumes lo: "lodash_events lo"
    and ret: "fetchEventsForSequence lo rpc s req acc w = Some (Inr (evs, tc), w')"
  shows "\<exists>here. cached_events evs = acc @ here \<and> (\<forall>e\<in>set here. ev_ledger e = s)"
proof -
  define P where "P = (\<lambda>l (r :: ('w, 'v) rpc_server) s (q :: GetEventsRequest) acc (w :: 'w)
      (res :: ('v CachedEventsResponse \<times> 'v CachedEventsResponse) result \<times> 'w). l = lo \<longrightarrow> (\<forall>evs tc w'. res = (Inr (evs, tc), w') \<longrightarrow>
      (\<exists>here. cached_events evs = acc @ here \<and> (\<forall>e\<in>set here. ev_ledger e = s))))"
  have own: "\<forall>e\<in>set (events_of page s). ev_ledger e = s" for page :: "'v EventResponse list" and s
    by (simp add: events_of_def)
  have "P lo rpc s req acc w (Inr (evs, tc), w')"
  proof (rule fetchEventsForSequence.raw_induct [where P = P, OF _ ret])
    fix fetch l r s q acc w res
    assume IH: "\<And>l r s q acc w res. fetch l r s q acc w = Some res \<Longrightarrow> P l r s q acc w res"
      and eq: "(case r q w of (Inl e, w') \<Rightarrow> Some (Inl e, w')
      | (Inr response, w') \<Rightarrow>
          (case handle_response l s q acc response of
             Return events eventsToCache \<Rightarrow> Some (Inr (events, eventsToCache), w')
           | Throw e \<Rightarrow> Some (Inl e, w')
           | Continue request' newEvents \<Rightarrow> fetch l r s request' newEvents w')) = Some res"
    show "P l r s q acc w res"
      unfolding P_def
    proof (intro allI impI)
      fix evs tc w'
      assume [simp]: "l = lo" and res: "res = (Inr (evs, tc), w')"
      obtain response w1 where r: "r q w = (Inr response, w1)"
        using eq res by (auto split: prod.splits sum.splits)
      show "\<exists>here. cached_events evs = acc @ here \<and> (\<forall>e\<in>set here. ev_ledger e = s)"
      proof (cases "handle_response lo s q acc response")
        case (Return evs' tc')
        with handle_response_own(1) [OF lo Return] own show ?thesis using eq res r by auto
      next
        case (Continue q' acc')
        then have "P lo r s q' acc' w1 res" using eq r by (intro IH) simp
        then obtain here where "cached_events evs = acc' @ here" "\<forall>e\<in>set here. ev_ledger e = s"
          using res by (auto simp: P_def)
        with handle_response_own(2) [OF lo Continue] own [of "response_events response" s] show ?thesis
          by (intro exI [of _ "events_of (response_events response) s @ here"]) auto
      qed (use eq res r in simp)
    qed
  qed
  then show ?thesis by (simp add: P_def)
qed

lemma fetch_result_cases:
  assumes "fetchEventsForSequence lo rpc s req acc w = Some res"
  obtains (error) e w' where "res = (Inl e, w')"
    | (events) evs tc w' where "res = (Inr (evs, tc), w')"
  by (metis old.prod.exhaust sum.exhaust_sel)

section \<open>\<open>getEvents\<close> over any server\<close>

definition ledger_request :: "int \<Rightarrow> nat \<Rightarrow> GetEventsRequest" where
  "ledger_request s n =
     \<lparr>startLedger = Some s, endLedger = None, cursor = None, filters = [], limit = Some n\<rparr>"

lemma getEvents_hit:
  "startLedger req = Some s \<Longrightarrow> cache s = Some c \<Longrightarrow>
   getEvents lo rpc req cache w = Some (Inr c, cache(s := None), w)"
  by (simp add: getEvents_def Let_def)

lemma getEvents_miss:
  assumes "startLedger req = Some s" "cache s = None"
  shows "getEvents lo rpc req cache w =
    (case fetchEventsForSequence lo rpc s
        (req\<lparr>endLedger := Some (case endLedger req of None \<Rightarrow> s + 1 | Some e \<Rightarrow> e)\<rparr>) [] w of
       None \<Rightarrow> None
     | Some (Inl e, w') \<Rightarrow> Some (Inl e, cache, w')
     | Some (Inr (evs, tc), w') \<Rightarrow> Some (Inr evs, updateEventCache tc (Some s) cache, w'))"
  using assms by (simp add: getEvents_def Let_def)

lemma getEvents_cases:
  assumes "getEvents lo rpc req cache w = Some (res, cache', w')"
  obtains (missing) "startLedger req = None" "cache' = cache" "w' = w"
      "res = Inl (Error ''Get soraban event failed, block sequence is missing'')"
    | (hit) s c where "startLedger req = Some s" "cache s = Some c" "res = Inr c"
        "cache' = cache(s := None)" "w' = w"
    | (failed) s e where "startLedger req = Some s" "cache s = None" "res = Inl e" "cache' = cache"
    | (fetched) s req' evs tc where "startLedger req = Some s" "cache s = None" "res = Inr evs"
        "cache' = updateEventCache tc (Some s) cache"
        "fetchEventsForSequence lo rpc s req' [] w = Some (Inr (evs, tc), w')"
proof (cases "startLedger req")
  case None
  then show ?thesis using assms missing by (simp add: getEvents_def)
next
  case (Some s)
  show ?thesis
  proof (cases "cache s")
    case (Some c)
    then show ?thesis using assms \<open>startLedger req = Some s\<close> hit by (simp add: getEvents_hit)
  next
    case None
    note miss = getEvents_miss [where lo = lo and rpc = rpc and w = w and req = req and cache = cache and s = s,
        OF \<open>startLedger req = Some s\<close> None]
    show ?thesis
      using assms unfolding miss
      by (auto split: option.splits prod.splits sum.splits
          intro: failed [OF \<open>startLedger req = Some s\<close> None] fetched [OF \<open>startLedger req = Some s\<close> None])
  qed
qed

lemma getEvents_wf:
  assumes "cache_wf cache" "getEvents lo rpc req cache w = Some (res, cache', w')"
  shows "cache_wf cache'"
  using assms(2)
  by (cases rule: getEvents_cases) (use assms(1) in \<open>simp_all add: cache_wf_remove updateEventCache_wf\<close>)

section \<open>Complete entries under a server with full pages\<close>

definition cache_sound :: "'v EventResponse list \<Rightarrow> 'v eventsCache \<Rightarrow> bool" where
  "cache_sound log cache = (\<forall>L c. cache L = Some c \<longrightarrow> cached_events c = events_of log L)"

lemma cache_sound_empty [simp]: "cache_sound log (\<lambda>_. None)"
  by (simp add: cache_sound_def)

lemma cache_sound_remove: "cache_sound log cache \<Longrightarrow> cache_sound log (cache(L := None))"
  by (simp add: cache_sound_def)

lemma updateEventCache_sound:
  assumes "cache_sound log cache" "distinct (map ev_id es)" "set es \<subseteq> set log"
    and complete: "\<And>L. events_of es L = [] \<or> events_of es L = events_of log L"
  shows "cache_sound log (updateEventCache \<lparr>cached_events = es, cached_latestLedger = lat\<rparr> ign cache)"
  unfolding cache_sound_def
proof (intro allI impI)
  fix L c
  assume "updateEventCache \<lparr>cached_events = es, cached_latestLedger = lat\<rparr> ign cache L = Some c"
  moreover have "ev_id x \<in> ev_id ` set (cached_events c)"
    if "x \<in> set es" "cache (ev_ledger x) = Some c" for x c
    using that assms(1,3) by (auto simp: cache_sound_def events_of_def)
  ultimately show "cached_events c = events_of log L"
    using assms(1) complete [of L] foldl_cache_event [OF assms(2), of cache lat ign L]
    by (auto simp: updateEventCache_def cache_sound_def split: option.splits if_splits)
qed

context honest_rpc
begin

lemma getEvents_complete_on_miss:
  assumes lo: "lodash_events lo" and s: "cache s = None" "0 < n"
  shows "\<exists>c cache' w'. getEvents lo rpc (ledger_request s n) cache w = Some (Inr c, cache', w') \<and>
    cached_events c = events_of log s"
proof -
  let ?req = "(ledger_request s n)\<lparr>endLedger := Some (s + 1)\<rparr>"
  have "\<exists>evs tc w'. fetchEventsForSequence lo rpc s ?req [] w = Some (Inr (evs, tc), w') \<and>
      cached_events evs = events_of log s \<and> cached_from rpc log pos s ?req (cached_events tc)"
    by (rule fetch_ledger [OF lo, of _ _ "s + 1"]) (use s in \<open>simp_all add: valid_request_def ledger_request_def\<close>)
  then show ?thesis
    using getEvents_miss [of "ledger_request s n" s cache lo rpc w] s
    by (auto simp: ledger_request_def)
qed

end

context full_page_rpc
begin

lemma getEvents_refines:
  assumes lo: "lodash_events lo" and sound: "cache_sound log cache" and n: "0 < n" "n \<le> maxLimit"
  shows "\<exists>c cache' w'. getEvents lo rpc (ledger_request s n) cache w = Some (Inr c, cache', w') \<and>
    cached_events c = events_of log s \<and> cache_sound log cache'"
proof (cases "cache s")
  case (Some c)
  then have "getEvents lo rpc (ledger_request s n) cache w = Some (Inr c, cache(s := None), w)"
    by (intro getEvents_hit) (simp_all add: ledger_request_def)
  moreover have "cached_events c = events_of log s" using sound Some by (simp add: cache_sound_def)
  ultimately show ?thesis using cache_sound_remove [OF sound] by blast
next
  case None
  let ?req = "(ledger_request s n)\<lparr>endLedger := Some (s + 1)\<rparr>"
  have "\<exists>evs tc w'. fetchEventsForSequence lo rpc s ?req [] w = Some (Inr (evs, tc), w') \<and>
      cached_events evs = events_of log s \<and> cached_from rpc log pos s ?req (cached_events tc)"
    by (rule fetch_ledger [OF lo, of _ _ "s + 1"]) (use n in \<open>simp_all add: valid_request_def ledger_request_def\<close>)
  then obtain evs tc w' where f: "fetchEventsForSequence lo rpc s ?req [] w = Some (Inr (evs, tc), w')"
      and evs: "cached_events evs = events_of log s"
      and tc: "cached_from rpc log pos s ?req (cached_events tc)" by blast
  have lim: "limit ?req = Some n" by (simp add: ledger_request_def)
  have "tc = \<lparr>cached_events = cached_events tc, cached_latestLedger = cached_latestLedger tc\<rparr>" by simp
  then have "cache_sound log (updateEventCache tc (Some s) cache)"
    using updateEventCache_sound [OF sound, of "cached_events tc" "cached_latestLedger tc" "Some s"]
      cached_from_complete [OF tc lim n(2)] by metis
  moreover have "getEvents lo rpc (ledger_request s n) cache w
      = Some (Inr evs, updateEventCache tc (Some s) cache, w')"
    using getEvents_miss [of "ledger_request s n" s cache lo rpc w] None f
    by (simp add: ledger_request_def)
  ultimately show ?thesis using evs by blast
qed

end

section \<open>A reference RPC server\<close>

text \<open>
  A server over a fixed log whose pages hold at most \<open>cap\<close> events. A cursor is the position after
  the page in unary; the world counts the calls.
\<close>

definition log_rpc :: "nat \<Rightarrow> 'v EventResponse list \<Rightarrow> (nat, 'v) rpc_server" where
  "log_rpc cap log req calls =
     (let (p, q) = window_of log length req;
          n = min (case limit req of None \<Rightarrow> cap | Some m \<Rightarrow> min cap m) (q - p)
      in (Inr \<lparr>response_events = take n (drop p log),
               response_latestLedger = (if log = [] then 0 else ev_ledger (last log)),
               response_cursor = replicate (p + n) (CHR ''x'')\<rparr>, Suc calls))"

lemma log_rpc_honest:
  assumes "sorted (map ev_ledger log)" "0 < cap"
  shows "honest_rpc (log_rpc cap log) log length"
proof
  show "sorted (map ev_ledger log)" by (rule assms)
next
  fix req p q and w :: nat
  assume v: "valid_request req" and win: "window_of log length req = (p, q)" and pq: "p \<le> q" "q \<le> length log"
  define n where "n = min (case limit req of None \<Rightarrow> cap | Some m \<Rightarrow> min cap m) (q - p)"
  have "0 < (case limit req of None \<Rightarrow> cap | Some m \<Rightarrow> min cap m)"
    using v assms(2) by (auto simp: valid_request_def split: option.splits)
  then have "n = 0 \<longrightarrow> p = q" using pq by (auto simp: n_def)
  moreover have "p + n \<le> q" using pq by (simp add: n_def)
  moreover obtain r where "log_rpc cap log req w = (Inr r, Suc w)"
      "response_events r = take n (drop p log)" "length (response_cursor r) = p + n"
    by (simp add: log_rpc_def win Let_def flip: n_def del: window_of.simps)
  ultimately show "\<exists>r w' k. log_rpc cap log req w = (Inr r, w') \<and>
      response_events r = take k (drop p log) \<and> p + k \<le> q \<and> (k = 0 \<longrightarrow> p = q) \<and>
      length (response_cursor r) = p + k"
    by blast
qed

lemma log_rpc_full_pages:
  assumes "sorted (map ev_ledger log)" "0 < cap" "distinct (map ev_id log)"
  shows "full_page_rpc (log_rpc cap log) log length cap"
proof (intro full_page_rpc.intro full_page_rpc_axioms.intro log_rpc_honest assms)
  fix req p q n r w and w' :: nat
  assume "window_of log length req = (p, q)" "p \<le> q" "q \<le> length log"
    "limit req = Some n" "n \<le> cap" "log_rpc cap log req w = (Inr r, w')"
  then show "length (response_events r) = n \<or> response_events r = take (q - p) (drop p log)"
    by (cases "n \<le> q - p")
       (auto simp: log_rpc_def Let_def min.absorb1 min.absorb2 simp del: window_of.simps)
qed

interpretation reference_rpc:
  honest_rpc "log_rpc (Suc cap) (sort_key ev_ledger log)" "sort_key ev_ledger log" length
  for cap and log :: "'v EventResponse list"
  by (rule log_rpc_honest) simp_all

definition sample_event :: "string \<Rightarrow> int \<Rightarrow> nat \<Rightarrow> js_value EventResponse" where
  "sample_event i l k = \<lparr>ev_id = i, ev_ledger = l, ev_txHash = ''tx'', ev_operationIndex = k,
     ev_contractId = None, ev_topic = []\<rparr>"

definition sample_log :: "js_value EventResponse list" where
  "sample_log = [sample_event ''a'' 1 0, sample_event ''b'' 1 1, sample_event ''c'' 2 0,
     sample_event ''d'' 2 0, sample_event ''e'' 3 0]"

lemma sample_log_ok: "sorted (map ev_ledger sample_log)" "distinct (map ev_id sample_log)"
  by (simp_all add: sample_log_def sample_event_def)

interpretation sample_rpc: full_page_rpc "log_rpc 200 sample_log" sample_log length 200
  by (rule log_rpc_full_pages) (simp_all add: sample_log_ok)

section \<open>Properties\<close>

text \<open>
  Several calls in a row, threading the cache and the world; the results in order.
\<close>

fun run_getEvents ::
  "'v EventResponse lodash \<Rightarrow> ('w, 'v) rpc_server \<Rightarrow> GetEventsRequest list \<Rightarrow> 'v eventsCache \<Rightarrow> 'w \<Rightarrow>
   ('v CachedEventsResponse result list \<times> 'v eventsCache \<times> 'w) option" where
  "run_getEvents lo rpc [] cache w = Some ([], cache, w)"
| "run_getEvents lo rpc (req # reqs) cache w =
     (case getEvents lo rpc req cache w of
        None \<Rightarrow> None
      | Some (res, cache', w') \<Rightarrow>
          (case run_getEvents lo rpc reqs cache' w' of
             None \<Rightarrow> None
           | Some (ress, cache'', w'') \<Rightarrow> Some (res # ress, cache'', w'')))"

definition returned_events :: "'v CachedEventsResponse result \<Rightarrow> 'v EventResponse list option" where
  "returned_events res = (case res of Inl _ \<Rightarrow> None | Inr c \<Rightarrow> Some (cached_events c))"

lemma returned_events_simps [simp]:
  "returned_events (Inl e) = None" "returned_events (Inr c) = Some (cached_events c)"
  by (simp_all add: returned_events_def)

text \<open>
  C10: For an RPC server with full pages, \<open>getEvents\<close> refines its abstract specification: from a
  cache whose entries are complete ledgers, a request for ledger \<open>s\<close> returns, hit or miss, exactly the
  events of \<open>s\<close> in log order, and leaves a cache whose entries are again complete ledgers.
\<close>

theorem getEvents_refines_log:
  assumes "lodash_events lo" "full_page_rpc rpc log pos maxLimit" "cache_sound log cache"
    and "0 < n" "n \<le> maxLimit"
  shows "\<exists>c cache' w'. getEvents lo rpc (ledger_request s n) cache w = Some (Inr c, cache', w') \<and>
    cached_events c = events_of log s \<and> cache_sound log cache'"
  by (rule full_page_rpc.getEvents_refines [OF assms(2,1,3,4,5)])

theorem getEvents_refines_log_witness:
  "\<exists>c cache' w'. getEvents reference_lodash (log_rpc 200 sample_log) (ledger_request 2 150) (\<lambda>_. None) 0
      = Some (Inr c, cache', w') \<and>
    cached_events c = events_of sample_log 2 \<and> cache_sound sample_log cache'"
  by (rule getEvents_refines_log [OF reference_lodash.lodash_events_axioms sample_rpc.full_page_rpc_axioms])
     simp_all

text \<open>
  C17: \<open>getEvents\<close> terminates and is complete on a cache miss for any honest RPC server, also one
  whose pages are shorter than the limit asked for: the loop asks for page after page until it has
  every event of the ledger.
\<close>

theorem getEvents_terminates_complete:
  assumes "lodash_events lo" "honest_rpc rpc log pos" "cache s = None" "0 < n"
  shows "\<exists>c cache' w'. getEvents lo rpc (ledger_request s n) cache w = Some (Inr c, cache', w') \<and>
    cached_events c = events_of log s"
  using honest_rpc.getEvents_complete_on_miss [OF assms(2,1), of cache s n] assms(3,4) by blast

theorem getEvents_terminates_complete_witness:
  "\<exists>c cache' w'. getEvents reference_lodash (log_rpc 1 sample_log) (ledger_request 1 150) (\<lambda>_. None) 0
      = Some (Inr c, cache', w') \<and> cached_events c = events_of sample_log 1"
  by (rule getEvents_terminates_complete
      [OF reference_lodash.lodash_events_axioms log_rpc_honest [OF sample_log_ok(1)]]) simp_all

text \<open>
  Whatever the RPC server answers, the cache stays well formed (non-empty entries, each with
  events of its own ledger only and no id twice), and a successful call returns events of the
  requested ledger only.
\<close>

lemma getEvents_only_own_ledger:
  assumes "lodash_events lo" "cache_wf cache"
    and "getEvents lo rpc req cache w = Some (res, cache', w')"
  shows "cache_wf cache' \<and>
    (\<forall>c. res = Inr c \<longrightarrow> (\<forall>e\<in>set (cached_events c). startLedger req = Some (ev_ledger e)))"
proof
  show "cache_wf cache'" by (rule getEvents_wf [OF assms(2,3)])
  show "\<forall>c. res = Inr c \<longrightarrow> (\<forall>e\<in>set (cached_events c). startLedger req = Some (ev_ledger e))"
    using assms(3)
  proof (cases rule: getEvents_cases)
    case (hit s c)
    then show ?thesis using assms(2) by (auto simp: cache_wf_def)
  next
    case (fetched s req' evs tc)
    then show ?thesis using fetch_only_own_ledger [OF assms(1)] by fastforce
  qed simp_all
qed

text \<open>
  A hit returns the cached response, removes exactly its entry, and does not call the server; a
  failing server call passes its error on and leaves the cache as it was; a request without a
  start ledger is refused.
\<close>

lemma getEvents_branches:
  "(startLedger req = None \<longrightarrow>
     getEvents lo rpc req cache w =
       Some (Inl (Error ''Get soraban event failed, block sequence is missing''), cache, w)) \<and>
   (startLedger req = Some s \<and> cache s = Some c \<longrightarrow>
     getEvents lo rpc req cache w = Some (Inr c, cache(s := None), w)) \<and>
   (startLedger req = Some s \<and> cache s = None \<and>
     rpc (req\<lparr>endLedger := Some (case endLedger req of None \<Rightarrow> s + 1 | Some e \<Rightarrow> e)\<rparr>) w = (Inl err, w') \<longrightarrow>
     getEvents lo rpc req cache w = Some (Inl err, cache, w'))"
  by (simp add: getEvents_def Let_def fetchEventsForSequence.simps [of lo rpc s])

end
