(* ===== verification/Cache_Retention.thy ===== *)
theory Cache_Retention
  imports Soroban_Cache "HOL-Library.Sublist"
begin

text \<open>
  What the event cache of \<open>SorobanServer\<close> keeps and how fast it grows, over any RPC server.

  An entry leaves the cache only when its own ledger is asked for. \<open>keeps_entries\<close> relates a cache to a
  later one that still has its entries, possibly extended, for all ledgers but those of a set; every
  operation keeps them, and a call adds at most one entry for each event of one page. The second
  part is what pages shorter than the assumed limit do to the entries.
\<close>

section \<open>Keeping entries\<close>

definition keeps_entries :: "int set \<Rightarrow> 'v eventsCache \<Rightarrow> 'v eventsCache \<Rightarrow> bool" where
  "keeps_entries asked cache cache' \<longleftrightarrow>
     (\<forall>l c. l \<notin> asked \<longrightarrow> cache l = Some c \<longrightarrow>
       (\<exists>c'. cache' l = Some c' \<and> prefix (cached_events c) (cached_events c')))"

lemma keeps_entries_refl [simp]: "keeps_entries asked cache cache"
  by (simp add: keeps_entries_def)

lemma keeps_entries_trans:
  assumes "keeps_entries A cache cache'" "keeps_entries B cache' cache''"
  shows "keeps_entries (A \<union> B) cache cache''"
  unfolding keeps_entries_def
proof (intro allI impI)
  fix l c
  assume "l \<notin> A \<union> B" "cache l = Some c"
  with assms(1) obtain c' where "cache' l = Some c'" "prefix (cached_events c) (cached_events c')"
    by (auto simp: keeps_entries_def)
  with assms(2) \<open>l \<notin> A \<union> B\<close> show "\<exists>c''. cache'' l = Some c'' \<and> prefix (cached_events c) (cached_events c'')"
    by (meson UnCI keeps_entries_def prefix_order.trans)
qed

lemma keeps_entries_remove: "keeps_entries {l} cache (cache(l := None))"
  by (simp add: keeps_entries_def)

lemma keeps_entries_mono: "keeps_entries A cache cache' \<Longrightarrow> A \<subseteq> B \<Longrightarrow> keeps_entries B cache cache'"
  by (auto simp: keeps_entries_def)

lemma cache_event_keeps: "keeps_entries {} cache (cache_event lat ign cache e)"
  by (auto simp: keeps_entries_def cache_event_def Let_def)

lemma cache_event_dom: "dom (cache_event lat ign cache e) \<subseteq> insert (ev_ledger e) (dom cache)"
  by (auto simp: cache_event_def Let_def split: if_splits)

lemma foldl_cache_event_keeps: "keeps_entries {} cache (foldl (cache_event lat ign) cache es)"
proof (induction es arbitrary: cache)
  case (Cons e es)
  show ?case
    using keeps_entries_trans [OF cache_event_keeps Cons.IH, of cache lat ign e] by simp
qed simp

lemma foldl_cache_event_dom:
  "dom (foldl (cache_event lat ign) cache es) \<subseteq> dom cache \<union> ev_ledger ` set es"
proof (induction es arbitrary: cache)
  case (Cons e es)
  have "dom (foldl (cache_event lat ign) (cache_event lat ign cache e) es)
      \<subseteq> insert (ev_ledger e) (dom cache) \<union> ev_ledger ` set es"
    using Cons.IH [of "cache_event lat ign cache e"] cache_event_dom [of lat ign cache e] by (rule order_trans [OF _ Un_mono]) simp
  then show ?case by simp
qed simp

section \<open>Pages of bounded length\<close>

text \<open>No page of the server has more than \<open>n\<close> events.\<close>

definition bounded_pages :: "('w, 'v) rpc_server \<Rightarrow> nat \<Rightarrow> bool" where
  "bounded_pages rpc n \<longleftrightarrow> (\<forall>req w r w'. rpc req w = (Inr r, w') \<longrightarrow> length (response_events r) \<le> n)"

lemma log_rpc_bounded: "bounded_pages (log_rpc cap log) cap"
  unfolding bounded_pages_def
proof (intro allI impI)
  fix req w r w'
  assume run: "log_rpc cap log req w = (Inr r, w')"
  obtain p q where win: "window_of log length req = (p, q)" by fastforce
  define n where "n = min (case limit req of None \<Rightarrow> cap | Some m \<Rightarrow> min cap m) (q - p)"
  have "response_events r = take n (drop p log)"
    using run by (auto simp: log_rpc_def win Let_def n_def simp del: window_of.simps)
  moreover have "n \<le> cap" by (auto simp: n_def split: option.split)
  ultimately show "length (response_events r) \<le> cap" by simp
qed

lemma handle_response_to_cache:
  assumes "lodash_events lo" "handle_response lo s req acc r = Return evs tc"
  shows "length (cached_events tc) \<le> length (response_events r)"
proof -
  have "length (to_cache m s page) \<le> length page" for m and page :: "'a EventResponse list"
    unfolding to_cache_def Let_def by (simp del: filter_filter) (meson length_filter_le order_trans)
  then show ?thesis
    using assms(2) by (auto simp: handle_response_eq [OF assms(1)] Let_def split: if_splits)
qed

text \<open>What a fetch leaves for the cache comes from one page.\<close>

lemma fetch_to_cache_bounded:
  fixes rpc :: "('w, 'v) rpc_server"
  assumes lo: "lodash_events lo" and pages: "bounded_pages rpc n"
    and ret: "fetchEventsForSequence lo rpc s req acc w = Some (Inr (evs, tc), w')"
  shows "length (cached_events tc) \<le> n"
proof -
  define P where "P = (\<lambda>l (r :: ('w, 'v) rpc_server) (s :: int) (q :: GetEventsRequest) (acc :: 'v EventResponse list) (w :: 'w)
      (res :: ('v CachedEventsResponse \<times> 'v CachedEventsResponse) result \<times> 'w).
    l = lo \<longrightarrow> r = rpc \<longrightarrow> (\<forall>evs tc w'. res = (Inr (evs, tc), w') \<longrightarrow> length (cached_events tc) \<le> n))"
  have "P lo rpc s req acc w (Inr (evs, tc), w')"
  proof (rule fetchEventsForSequence.raw_induct [where P = P, OF _ ret])
    fix fetch l r s q acc w res
    assume IH: "\<And>l r s q acc w res. fetch l r s q acc w = Some res \<Longrightarrow> P l r s q acc w res"
      and eq: "(case r q w of (Inl e, w') \<Rightarrow> Some (Inl e, w')
      | (Inr response, w') \<Rightarrow>
          (case handle_response l s q acc response of
             Return events eventsToCache \<Rightarrow> Some (Inr (events, eventsToCache), w')
           | Throw e \<Rightarrow> Some (Inl e, w')
           | Continue request' newEvents \<Rightarrow> fetch l r s request' newEvents w')) = Some res"
    show "P l r s q acc w res"
      unfolding P_def
    proof (intro allI impI)
      fix evs tc w'
      assume [simp]: "l = lo" "r = rpc" and res: "res = (Inr (evs, tc), w')"
      obtain response w1 where r: "rpc q w = (Inr response, w1)"
        using eq res by (auto split: prod.splits sum.splits)
      then have page: "length (response_events response) \<le> n"
        using pages by (auto simp: bounded_pages_def)
      show "length (cached_events tc) \<le> n"
      proof (cases "handle_response lo s q acc response")
        case (Return evs' tc')
        with handle_response_to_cache [OF lo Return] page show ?thesis using eq res r by auto
      next
        case (Continue q' acc')
        then have "P lo rpc s q' acc' w1 res" using eq r by (intro IH) simp
        then show ?thesis using res by (auto simp: P_def)
      qed (use eq res r in simp)
    qed
  qed
  then show ?thesis by (simp add: P_def)
qed

section \<open>One call\<close>

text \<open>The ledger a request asks for.\<close>

definition asked :: "GetEventsRequest \<Rightarrow> int set" where
  "asked req = set_option (startLedger req)"

lemma getEvents_keeps:
  assumes "getEvents lo rpc req cache w = Some (res, cache', w')"
  shows "keeps_entries (asked req) cache cache'"
  using assms
proof (cases rule: getEvents_cases)
  case (fetched s req' evs tc)
  then show ?thesis
    using keeps_entries_mono [OF foldl_cache_event_keeps] by (simp add: updateEventCache_def)
qed (simp_all add: asked_def keeps_entries_remove)

lemma card_grows:
  assumes "finite D" "D' \<subseteq> D \<union> f ` set es"
  shows "finite D'" "card D' \<le> card D + length es"
proof -
  show "finite D'" using assms by (meson finite_UnI finite_imageI finite_set finite_subset)
  have "card D' \<le> card (D \<union> f ` set es)" using assms by (intro card_mono) auto
  also have "\<dots> \<le> card D + card (f ` set es)" by (rule card_Un_le)
  also have "card (f ` set es) \<le> length es" by (meson card_image_le card_length finite_set order_trans)
  finally show "card D' \<le> card D + length es" by simp
qed

lemma getEvents_growth:
  assumes "lodash_events lo" "bounded_pages rpc n" "finite (dom cache)"
    and "getEvents lo rpc req cache w = Some (res, cache', w')"
  shows "finite (dom cache') \<and> card (dom cache') \<le> card (dom cache) + n"
  using assms(4)
proof (cases rule: getEvents_cases)
  case (fetched s req' evs tc)
  have "length (cached_events tc) \<le> n"
    by (rule fetch_to_cache_bounded [OF assms(1,2) fetched(5)])
  then show ?thesis
    using card_grows [OF assms(3) foldl_cache_event_dom, of "cached_latestLedger tc" "Some s" "cached_events tc"]
      fetched(4) by (auto simp: updateEventCache_def)
next
  case (hit s c)
  then show ?thesis using assms(3) by (auto simp: trans_le_add1 card_Diff1_le)
qed (use assms(3) in auto)

section \<open>Pages shorter than the assumed limit\<close>

context honest_rpc
begin

text \<open>A fetch that finds events of its own ledger, where the log goes on after that ledger, ends at the
  first page with later events, and leaves what \<open>to_cache\<close> takes from this page.\<close>

lemma fetch_ends_at_later_page:
  assumes lo: "lodash_events lo" and pages: "bounded_pages rpc cap" and later: "x \<in> set log" "s < ev_ledger x"
  shows "valid_request req \<Longrightarrow> window_of log pos req = (p, q) \<Longrightarrow> fetch_inv log s p q acc \<Longrightarrow> p < q \<Longrightarrow>
    \<exists>evs tc w' p' q' acc' k. fetchEventsForSequence lo rpc s req acc w = Some (Inr (evs, tc), w') \<and>
      fetch_inv log s p' q' acc' \<and> k \<le> cap \<and> filter (\<lambda>e. ev_ledger e \<noteq> s) (take k (drop p' log)) \<noteq> [] \<and>
      cached_events tc = to_cache (page_limit req) s (take k (drop p' log))"
proof (induction "length log - p" arbitrary: req acc w p q rule: less_induct)
  case less
  have pq: "p \<le> q" "q \<le> length log" using less.prems(3) by (simp_all add: fetch_inv_def)
  obtain r w1 k where r: "rpc req w = (Inr r, w1)" and page: "response_events r = take k (drop p log)"
      and k: "p + k \<le> q" "k = 0 \<longrightarrow> p = q" and cur: "pos (response_cursor r) = p + k"
    using serves [OF less.prems(1,2) pq] by blast
  have "length (response_events r) \<le> cap" using pages r by (auto simp: bounded_pages_def)
  then have cap: "k \<le> cap" using page k(1) pq by simp
  note step = fetch_step [where rpc = rpc and req = req and w = w and r = r and w' = w1 and s = s and acc = acc,
      OF lo r, unfolded Let_def]
  show ?case
  proof (cases "filter (\<lambda>e. ev_ledger e \<noteq> s) (response_events r) = []")
    case False
    with less.prems(3) cap page show ?thesis by (simp add: step) blast
  next
    case True
    then have same: "\<forall>x\<in>set (take k (drop p log)). ev_ledger x = s"
      by (simp add: filter_empty_conv page)
    have k0: "0 < k" using k less.prems(4) by auto
    then have nonempty: "response_events r \<noteq> []" using page less.prems(4) pq by simp
    have inv: "fetch_inv log s (p + k) (length log) (acc @ events_of (response_events r) s)"
      unfolding page by (rule fetch_inv_step [OF less.prems(3) k(1) same])
    then have pk: "p + k < length log"
      using later by (cases "p + k < length log") (auto simp: fetch_inv_def)
    have "valid_request (next_request req (response_cursor r))"
      using less.prems(1) by (simp add: valid_request_def)
    moreover have "window_of log pos (next_request req (response_cursor r)) = (p + k, length log)"
      by (simp add: cur)
    moreover have "length log - (p + k) < length log - p" using k0 pk by simp
    moreover have "page_limit (next_request req c) = page_limit req" for c by (simp add: page_limit_def)
    ultimately show ?thesis
      using True nonempty less.hyps [OF _ _ _ inv pk, of "next_request req (response_cursor r)" w1]
      by (simp add: step del: window_of.simps)
  qed
qed

text \<open>A page shorter than the limit leaves a part of the next ledger when that ledger does not fit it.\<close>

lemma to_cache_partial:
  assumes inv: "fetch_inv log s p q acc" and page: "page = take k (drop p log)" "k \<le> cap" "cap < n"
    and found: "filter (\<lambda>e. ev_ledger e \<noteq> s) page \<noteq> []"
    and nxt: "s < L" "\<forall>e\<in>set log. \<not> (s < ev_ledger e \<and> ev_ledger e < L)" "cap < length (events_of log L)"
  shows "to_cache n s page = events_of page L \<and> events_of page L \<noteq> [] \<and>
    strict_prefix (events_of page L) (events_of log L)"
proof -
  have "events_of (take p log) L = []" using inv nxt(1) by (force simp: fetch_inv_def events_of_empty_iff)
  then have split: "events_of log L = events_of page L @ events_of (drop (p + k) log) L"
    using events_of_split [of log L "p + k"] by (simp add: take_page page)
  have len: "length page \<le> cap" using page by simp
  then have short: "length (events_of page L) \<le> cap"
    unfolding events_of_def by (rule order_trans [OF length_filter_le])
  then have rest: "events_of (drop (p + k) log) L \<noteq> []" using split nxt(3) by force
  have only: "ev_ledger x = L" if x: "x \<in> set page" "ev_ledger x \<noteq> s" for x
  proof (rule ccontr)
    assume "ev_ledger x \<noteq> L"
    moreover have "x \<in> set log" "s \<le> ev_ledger x"
      using x(1) page(1) inv by (auto simp: fetch_inv_def dest: in_set_takeD in_set_dropD)
    ultimately have above: "L < ev_ledger x" using x(2) nxt(2) by force
    have "x \<in> set (take (p + k) log)" using x(1) by (simp add: take_page page(1))
    then have "L < ev_ledger y" if "y \<in> set (drop (p + k) log)" for y
      using sorted_log_split [OF log_sorted _ that] above by fastforce
    then show False using rest by (force simp: events_of_empty_iff)
  qed
  have "length page \<noteq> n" using len page(3) by simp
  moreover have "filter (\<lambda>e. ev_ledger e \<noteq> s) page = events_of page L"
    unfolding events_of_def using only nxt(1) by (intro filter_cong) auto
  ultimately show ?thesis
    using found split rest by (auto simp: to_cache_def Let_def strict_prefix_def)
qed

end

section \<open>Properties\<close>

text \<open>
  C16: The cache forgets a ledger only when its events are asked for. Over any RPC server, after any
  sequence of calls every entry for a ledger that no call asked for is still there with all its
  events, and only their number bounds the growth: a call adds at most one entry per event of a
  page. Ledgers that are cached but never fetched, because a dictionary skips them or another worker
  fetches them, therefore stay cached for good.
\<close>

theorem unfetched_ledgers_stay_cached:
  assumes "lodash_events lo" "bounded_pages rpc n" "finite (dom cache)"
    and "run_getEvents lo rpc reqs cache w = Some (ress, cache', w')"
  shows "keeps_entries (\<Union>req\<in>set reqs. asked req) cache cache' \<and>
    finite (dom cache') \<and> card (dom cache') \<le> card (dom cache) + n * length reqs"
  using assms(3,4)
proof (induction reqs arbitrary: cache w ress)
  case (Cons req reqs)
  then obtain res cache1 w1 ress1 where one: "getEvents lo rpc req cache w = Some (res, cache1, w1)"
    and rest: "run_getEvents lo rpc reqs cache1 w1 = Some (ress1, cache', w')"
    by (auto split: option.splits prod.splits)
  note growth = getEvents_growth [OF assms(1,2) Cons.prems(1) one]
  note IH = Cons.IH [OF conjunct1 [OF growth] rest]
  have "keeps_entries (asked req \<union> (\<Union>req\<in>set reqs. asked req)) cache cache'"
    by (rule keeps_entries_trans [OF getEvents_keeps [OF one] conjunct1 [OF IH]])
  with growth IH show ?case by simp
qed simp

definition one_cached :: "js_value eventsCache" where
  "one_cached = [2 \<mapsto> \<lparr>cached_events = events_of sample_log 2, cached_latestLedger = 3\<rparr>]"

theorem unfetched_ledgers_stay_cached_witness:
  "\<exists>ress cache' w' c'.
     run_getEvents reference_lodash (log_rpc 200 sample_log) (map (\<lambda>s. ledger_request s 150) [1, 3]) one_cached 0
       = Some (ress, cache', w') \<and>
     cache' 2 = Some c' \<and> prefix (events_of sample_log 2) (cached_events c') \<and> card (dom cache') \<le> 401"
proof -
  let ?reqs = "map (\<lambda>s. ledger_request s 150) [1, 3]"
  let ?run = "run_getEvents reference_lodash (log_rpc 200 sample_log) ?reqs one_cached 0"
  have "?run \<noteq> None" by code_simp
  then obtain ress cache' w' where run: "?run = Some (ress, cache', w')" by auto
  have dom: "dom one_cached = {2}" and entry: "2 \<notin> (\<Union>req\<in>set ?reqs. asked req)"
    by (simp_all add: one_cached_def asked_def ledger_request_def)
  from unfetched_ledgers_stay_cached [OF reference_lodash.lodash_events_axioms log_rpc_bounded _ run]
  have "keeps_entries (\<Union>req\<in>set ?reqs. asked req) one_cached cache'" "card (dom cache') \<le> 401"
    by (simp_all add: dom)
  then show ?thesis
    using run entry by (auto simp: keeps_entries_def one_cached_def)
qed

text \<open>
  C18: Pages shorter than the limit the loop assumes poison the cache. Take any RPC server that pages a
  log honestly, and whose pages never have more than \<open>cap\<close> events, fewer than the limit of the request
  (150 when it names none); a ledger \<open>s\<close> with events; and the next ledger \<open>L\<close> with events, of which
  there are more than \<open>cap\<close>. When neither is cached, a request for \<open>s\<close> returns the events of \<open>s\<close>, but
  leaves only a part of the events of \<open>L\<close> in the cache, some and never all of them; and the next request
  for \<open>L\<close>, whatever else it asks, returns that part as the events of the ledger.
\<close>

theorem short_pages_poison_cache:
  assumes "lodash_events lo" "honest_rpc rpc log pos" "distinct (map ev_id log)"
    and "bounded_pages rpc cap" "cap < page_limit req"
    and "startLedger req = Some s" "endLedger req = None" "cursor req = None" "filters req = []"
    and "events_of log s \<noteq> []" "s < L" "\<forall>e\<in>set log. \<not> (s < ev_ledger e \<and> ev_ledger e < L)"
    and "cap < length (events_of log L)"
    and "cache s = None" "cache L = None" "startLedger req' = Some L"
  shows "\<exists>c cL cache' w'. getEvents lo rpc req cache w = Some (Inr c, cache', w') \<and>
    cached_events c = events_of log s \<and>
    cached_events cL \<noteq> [] \<and> strict_prefix (cached_events cL) (events_of log L) \<and>
    getEvents lo rpc req' cache' w' = Some (Inr cL, cache'(L := None), w')"
proof -
  let ?req = "req\<lparr>endLedger := Some (s + 1)\<rparr>"
  note sorted = honest_rpc.log_sorted [OF assms(2)]
  have valid: "valid_request ?req" using assms(5-9) by (auto simp: valid_request_def page_limit_def)
  have win: "window_of log pos ?req = (first_at log s, first_at log (s + 1))" using assms(6,8) by simp
  have inv: "fetch_inv log s (first_at log s) (first_at log (s + 1)) []" by (rule fetch_inv_init [OF sorted]) simp
  have own: "first_at log s < first_at log (s + 1)"
  proof (rule ccontr)
    assume "\<not> first_at log s < first_at log (s + 1)"
    then have "first_at log (s + 1) = first_at log s" using first_at_mono [of s "s + 1" log] by simp
    with inv assms(10) fetch_inv_exhausted show False by force
  qed
  have "events_of log L \<noteq> []" using assms(13) by auto
  then obtain x where x: "x \<in> set log" "s < ev_ledger x"
    using assms(11) by (auto simp: events_of_empty_iff)
  obtain evs tc w' where f: "fetchEventsForSequence lo rpc s ?req [] w = Some (Inr (evs, tc), w')"
      and evs: "cached_events evs = events_of log s"
    using honest_rpc.fetch_ledger [OF assms(2,1) valid] assms(6) by fastforce
  obtain p q acc k where page: "fetch_inv log s p q acc" "k \<le> cap"
      "filter (\<lambda>e. ev_ledger e \<noteq> s) (take k (drop p log)) \<noteq> []"
      "cached_events tc = to_cache (page_limit ?req) s (take k (drop p log))"
    using honest_rpc.fetch_ends_at_later_page [OF assms(2,1,4) x valid win inv own, of w] f by auto
  let ?part = "events_of (take k (drop p log)) L"
  have tc: "cached_events tc = ?part" "?part \<noteq> []" "strict_prefix ?part (events_of log L)"
    using honest_rpc.to_cache_partial [OF assms(2) page(1) refl page(2) _ page(3) assms(11-13)] assms(5) page(4)
    by (simp_all add: page_limit_def)
  have distinct: "distinct (map ev_id ?part)"
    using assms(3) by (simp add: events_of_def distinct_map_filter distinct_take distinct_drop flip: take_map drop_map)
  have ledger: "x \<in> set ?part \<Longrightarrow> ev_ledger x = L" for x by (simp add: events_of_def)
  then have "events_of ?part L = ?part" by (simp add: events_of_def)
  then have L: "updateEventCache tc (Some s) cache L = Some \<lparr>cached_events = ?part, cached_latestLedger = cached_latestLedger tc\<rparr>"
    using foldl_cache_event [OF distinct, of cache "cached_latestLedger tc" "Some s" L] ledger assms(11,15) tc(2)
    by (simp add: updateEventCache_def tc(1))
  have "getEvents lo rpc req cache w = Some (Inr evs, updateEventCache tc (Some s) cache, w')"
    using getEvents_miss [of req s cache lo rpc w] assms(6,7,14) f by simp
  moreover have "getEvents lo rpc req' (updateEventCache tc (Some s) cache) w' =
      Some (Inr \<lparr>cached_events = ?part, cached_latestLedger = cached_latestLedger tc\<rparr>,
        (updateEventCache tc (Some s) cache)(L := None), w')"
    by (rule getEvents_hit) (rule assms(16), rule L)
  ultimately show ?thesis using evs tc(2,3) by fastforce
qed

text \<open>A server with pages of one event, and requests without a limit.\<close>

theorem short_pages_poison_cache_witness:
  "\<exists>c cL cache' w'. getEvents reference_lodash (log_rpc 1 sample_log) ((ledger_request 1 150)\<lparr>limit := None\<rparr>) (\<lambda>_. None) 0
      = Some (Inr c, cache', w') \<and> cached_events c = events_of sample_log 1 \<and>
    cached_events cL \<noteq> [] \<and> strict_prefix (cached_events cL) (events_of sample_log 2) \<and>
    getEvents reference_lodash (log_rpc 1 sample_log) ((ledger_request 2 150)\<lparr>limit := None\<rparr>) cache' w'
      = Some (Inr cL, cache'(2 := None), w')"
  by (rule short_pages_poison_cache [OF reference_lodash.lodash_events_axioms log_rpc_honest [OF sample_log_ok(1)]
        sample_log_ok(2) log_rpc_bounded])
    (simp_all add: page_limit_def DEFAULT_PAGE_SIZE_def ledger_request_def events_of_def sample_log_def sample_event_def)

end
