(* ===== verification/Horizon_Paging.thy ===== *)
theory Horizon_Paging
  imports Stellar_Types
begin

text \<open>
  The Horizon client as the program uses it, and the three paged fetches of
  \<open>packages/node/src/stellar/api.stellar.ts\<close> (\<open>fetchTransactionsForLedger\<close>,
  \<open>fetchOperationsForLedger\<close>, \<open>fetchEffectsForLedger\<close>).

  The history of a closed ledger does not change, so the Horizon server is a record of functions
  of the request. A page holds records and the link of the next page. The loop of the program
  goes on until a page is empty and so ends only if the server ends it: \<open>collect_pages\<close> is
  partial, \<open>None\<close> being a call that does not return.

  The locale \<open>paged_collection\<close> is the interface of a Horizon collection; under it the loop
  returns all items, in order, whatever the page size.
\<close>

section \<open>The client\<close>

record 'r page =
  page_records :: "'r list"
  page_next :: string

record horizon =
  h_root :: "string result"
  h_latest_ledgers :: "LedgerRecord page result"
  h_ledger :: "int \<Rightarrow> LedgerRecord result"
  h_transactions :: "int \<Rightarrow> nat \<Rightarrow> TransactionRecord page result"
  h_transactions_next :: "string \<Rightarrow> TransactionRecord page result"
  h_operations :: "int \<Rightarrow> nat \<Rightarrow> OperationRecord page result"
  h_operations_next :: "string \<Rightarrow> OperationRecord page result"
  h_effects :: "int \<Rightarrow> nat \<Rightarrow> EffectRecord page result"
  h_effects_next :: "string \<Rightarrow> EffectRecord page result"

section \<open>The loops\<close>

text \<open>\<open>while (page.records.length !== 0) { xs.push(...page.records); page = await page.next(); }\<close>\<close>

partial_function (option) collect_pages ::
  "(string \<Rightarrow> 'r page result) \<Rightarrow> 'r page \<Rightarrow> 'r list \<Rightarrow> 'r list result option" where
  "collect_pages next_page page xs =
     (if page_records page = [] then Some (Inr xs)
      else (case next_page (page_next page) of
              Inl e \<Rightarrow> Some (Inl e)
            | Inr page' \<Rightarrow> collect_pages next_page page' (xs @ page_records page)))"

declare collect_pages.simps [code]

definition fetchTransactionsForLedger ::
  "horizon \<Rightarrow> nat \<Rightarrow> int \<Rightarrow> TransactionRecord list result option" where
  "fetchTransactionsForLedger h pageLimit seq =
     (case h_transactions h seq pageLimit of
        Inl e \<Rightarrow> Some (Inl e)
      | Inr txsPage \<Rightarrow> collect_pages (h_transactions_next h) txsPage [])"

definition fetchOperationsForLedger ::
  "horizon \<Rightarrow> nat \<Rightarrow> int \<Rightarrow> OperationRecord list result option" where
  "fetchOperationsForLedger h pageLimit seq =
     (case h_operations h seq pageLimit of
        Inl e \<Rightarrow> Some (Inl e)
      | Inr operationsPage \<Rightarrow> collect_pages (h_operations_next h) operationsPage [])"

definition fetchEffectsForLedger ::
  "horizon \<Rightarrow> nat \<Rightarrow> int \<Rightarrow> EffectRecord list result option" where
  "fetchEffectsForLedger h pageLimit seq =
     (case h_effects h seq pageLimit of
        Inl e \<Rightarrow> Some (Inl e)
      | Inr effectsPage \<Rightarrow> collect_pages (h_effects_next h) effectsPage [])"

section \<open>The interface of a collection\<close>

text \<open>\<open>at\<close> reads off a link how many items precede the page it leads to.\<close>

locale paged_collection =
  fixes first_page :: "'r page result"
    and next_page :: "string \<Rightarrow> 'r page result"
    and items :: "'r list"
    and at :: "string \<Rightarrow> nat"
  assumes first_page_spec:
      "\<exists>p k. first_page = Inr p \<and> page_records p = take k items \<and> at (page_next p) = k \<and>
         k \<le> length items \<and> (k = 0 \<longrightarrow> items = [])"
    and next_page_spec:
      "at link \<le> length items \<Longrightarrow>
       \<exists>p k. next_page link = Inr p \<and> page_records p = take k (drop (at link) items) \<and>
         at (page_next p) = at link + k \<and> at link + k \<le> length items \<and>
         (k = 0 \<longrightarrow> at link = length items)"
begin

lemma collect_from:
  "page_records p = take k (drop n items) \<Longrightarrow> at (page_next p) = n + k \<Longrightarrow> n + k \<le> length items \<Longrightarrow>
   (k = 0 \<longrightarrow> n = length items) \<Longrightarrow>
   collect_pages next_page p (take n items) = Some (Inr items)"
proof (induction "length items - n" arbitrary: n k p rule: less_induct)
  case less
  show ?case
  proof (cases "page_records p = []")
    case True
    then have "n = length items" using less.prems by auto
    then show ?thesis using True by (subst collect_pages.simps) simp
  next
    case False
    then have n: "n < n + k" "n < length items" using less.prems(1) by simp_all
    obtain p' k' where p': "next_page (page_next p) = Inr p'"
        "page_records p' = take k' (drop (n + k) items)" "at (page_next p') = n + k + k'"
        "n + k + k' \<le> length items" "k' = 0 \<longrightarrow> n + k = length items"
      using next_page_spec [of "page_next p"] less.prems(2,3) by auto
    have "collect_pages next_page p' (take (n + k) items) = Some (Inr items)"
      by (rule less.hyps [OF _ p'(2-5)]) (use n in auto)
    then show ?thesis
      using False p'(1) less.prems(1) by (subst collect_pages.simps) (simp add: take_add)
  qed
qed

lemma collect_all:
  "\<exists>p. first_page = Inr p \<and> collect_pages next_page p [] = Some (Inr items)"
proof -
  obtain p k where p: "first_page = Inr p" "page_records p = take k items" "at (page_next p) = k"
      "k \<le> length items" "k = 0 \<longrightarrow> items = []"
    using first_page_spec by (elim exE conjE) (rule that)
  have "page_records p = take k (drop 0 items)" "at (page_next p) = 0 + k" "0 + k \<le> length items"
      "k = 0 \<longrightarrow> 0 = length items"
    using p(2-5) by auto
  then have "collect_pages next_page p (take 0 items) = Some (Inr items)"
    by (rule collect_from)
  with p(1) show ?thesis by simp
qed

end

section \<open>A reference collection\<close>

text \<open>The pages of a list, at most \<open>n\<close> items each; a link is a position in unary.\<close>

definition list_page :: "nat \<Rightarrow> 'r list \<Rightarrow> string \<Rightarrow> 'r page result" where
  "list_page n xs link =
     Inr \<lparr>page_records = take n (drop (length link) xs),
          page_next = link @ replicate (min n (length xs - length link)) (CHR ''x'')\<rparr>"

interpretation list_pages:
  paged_collection "list_page (Suc n) items []" "list_page (Suc n) items" items length
  for n and items :: "'r list"
proof
  have page: "\<exists>p k. list_page (Suc n) items link = Inr p \<and>
      page_records p = take k (drop (length link) items) \<and> length (page_next p) = length link + k \<and>
      length link + k \<le> length items \<and> (k = 0 \<longrightarrow> length link = length items)"
    if "length link \<le> length items" for link
  proof -
    define k where "k = min (Suc n) (length items - length link)"
    have "take (Suc n) (drop (length link) items) = take k (drop (length link) items)"
      by (simp add: k_def min_def)
    moreover have "length link + k \<le> length items" "k = 0 \<longrightarrow> length link = length items"
      using that by (auto simp: k_def)
    ultimately show ?thesis by (simp add: list_page_def flip: k_def)
  qed
  then show "length link \<le> length items \<Longrightarrow> \<exists>p k. list_page (Suc n) items link = Inr p \<and>
      page_records p = take k (drop (length link) items) \<and> length (page_next p) = length link + k \<and>
      length link + k \<le> length items \<and> (k = 0 \<longrightarrow> length link = length items)" for link
    by blast
  show "\<exists>p k. list_page (Suc n) items [] = Inr p \<and> page_records p = take k items \<and>
      length (page_next p) = k \<and> k \<le> length items \<and> (k = 0 \<longrightarrow> items = [])"
    using page [of "[]"] by simp
qed

section \<open>The collections of a ledger\<close>

text \<open>
  Horizon serves the transactions, operations and effects of ledger \<open>seq\<close> as paged collections for
  every page limit asked for.
\<close>

definition serves_ledger ::
  "horizon \<Rightarrow> nat \<Rightarrow> int \<Rightarrow> TransactionRecord list \<Rightarrow> OperationRecord list \<Rightarrow> EffectRecord list \<Rightarrow> bool" where
  "serves_ledger h pageLimit seq txs ops effs \<longleftrightarrow>
     (\<exists>at. paged_collection (h_transactions h seq pageLimit) (h_transactions_next h) txs at) \<and>
     (\<exists>at. paged_collection (h_operations h seq pageLimit) (h_operations_next h) ops at) \<and>
     (\<exists>at. paged_collection (h_effects h seq pageLimit) (h_effects_next h) effs at)"

lemma fetch_collections:
  assumes "serves_ledger h pageLimit seq txs ops effs"
  shows "fetchTransactionsForLedger h pageLimit seq = Some (Inr txs)"
    and "fetchOperationsForLedger h pageLimit seq = Some (Inr ops)"
    and "fetchEffectsForLedger h pageLimit seq = Some (Inr effs)"
  using assms
  by (auto simp: serves_ledger_def fetchTransactionsForLedger_def fetchOperationsForLedger_def
      fetchEffectsForLedger_def dest!: paged_collection.collect_all)

end
