(* ===== verification/Ledger_Wrapping.thy ===== *)
theory Ledger_Wrapping
  imports Js_Text Stellar_Types
begin

text \<open>
  The wrapping functions of \<open>packages/node/src/stellar/api.stellar.ts\<close>: \<open>wrapEffect\<close>,
  \<open>wrapOperationsForTx\<close>, \<open>wrapTransactionsForLedger\<close> and the assembly of the wrapped ledger at
  the end of \<open>fetchAndWrapLedger\<close>.

  The code builds a graph of objects and fills in back references by mutation. Two kinds of
  objects are mutated while several arrays hold them: effects (held by their operation, their
  transaction and the ledger) and events (also held by the list of all events of the ledger).
  They live in a store and are referred to by their address. Operation and transaction objects are
  held by one array while they are mutated and are records that contain addresses.
  A \<open>cloneDeep\<close> copies the object graph: it is the value read out of the store at that moment, which
  later mutations do not change.
\<close>

section \<open>Objects and the store\<close>

record 'v store =
  effect_objs :: "'v StellarEffect list"
  event_objs :: "'v SorobanEvent list"

record 'v operation_obj =
  oo_record :: OperationRecord
  oo_ledger :: "'v StellarBlock option"
  oo_transaction :: "'v StellarTransaction option"
  oo_effects :: "nat list"
  oo_events :: "nat list"

record 'v transaction_obj =
  to_record :: TransactionRecord
  to_ledger :: "'v StellarBlock option"
  to_operations :: "'v operation_obj list"
  to_effects :: "nat list"
  to_events :: "nat list"

record 'v ledger_obj =
  lo_record :: LedgerRecord
  lo_transactions :: "'v transaction_obj list"
  lo_operations :: "'v operation_obj list"
  lo_effects :: "nat list"
  lo_events :: "nat list"

text \<open>Reading an object graph out of the store: what \<open>cloneDeep\<close> copies and what a reader sees.\<close>

definition read_effects :: "'v store \<Rightarrow> nat list \<Rightarrow> 'v StellarEffect list" where
  "read_effects st rs = map (\<lambda>r. effect_objs st ! r) rs"

definition read_events :: "'v store \<Rightarrow> nat list \<Rightarrow> 'v SorobanEvent list" where
  "read_events st rs = map (\<lambda>r. event_objs st ! r) rs"

definition read_operation :: "'v store \<Rightarrow> 'v operation_obj \<Rightarrow> 'v StellarOperation" where
  "read_operation st o' =
     StellarOperation (oo_record o') (oo_ledger o') (oo_transaction o')
       (read_effects st (oo_effects o')) (read_events st (oo_events o'))"

definition read_transaction :: "'v store \<Rightarrow> 'v transaction_obj \<Rightarrow> 'v StellarTransaction" where
  "read_transaction st t =
     StellarTransaction (to_record t) (to_ledger t) (map (read_operation st) (to_operations t))
       (read_effects st (to_effects t)) (read_events st (to_events t))"

definition read_ledger :: "'v store \<Rightarrow> 'v ledger_obj \<Rightarrow> 'v StellarBlock" where
  "read_ledger st l =
     StellarBlock (lo_record l) (map (read_transaction st) (lo_transactions l))
       (map (read_operation st) (lo_operations l)) (read_effects st (lo_effects l))
       (read_events st (lo_events l))"

text \<open>Assignments to the objects at some addresses, one after the other.\<close>

definition modify_effects ::
  "('v StellarEffect \<Rightarrow> 'v StellarEffect) \<Rightarrow> nat list \<Rightarrow> 'v store \<Rightarrow> 'v store" where
  "modify_effects f rs st =
     st\<lparr>effect_objs := foldl (\<lambda>objs r. objs[r := f (objs ! r)]) (effect_objs st) rs\<rparr>"

definition modify_events ::
  "('v SorobanEvent \<Rightarrow> 'v SorobanEvent) \<Rightarrow> nat list \<Rightarrow> 'v store \<Rightarrow> 'v store" where
  "modify_events f rs st =
     st\<lparr>event_objs := foldl (\<lambda>objs r. objs[r := f (objs ! r)]) (event_objs st) rs\<rparr>"

fun set_effect_ledger :: "'v StellarBlock \<Rightarrow> 'v StellarEffect \<Rightarrow> 'v StellarEffect" where
  "set_effect_ledger l (StellarEffect r _ t p) = StellarEffect r (Some l) t p"

fun set_effect_transaction :: "'v StellarTransaction \<Rightarrow> 'v StellarEffect \<Rightarrow> 'v StellarEffect" where
  "set_effect_transaction t (StellarEffect r l _ p) = StellarEffect r l (Some t) p"

fun set_effect_operation :: "'v StellarOperation \<Rightarrow> 'v StellarEffect \<Rightarrow> 'v StellarEffect" where
  "set_effect_operation p (StellarEffect r l t _) = StellarEffect r l t (Some p)"

fun set_event_ledger :: "'v StellarBlock \<Rightarrow> 'v SorobanEvent \<Rightarrow> 'v SorobanEvent" where
  "set_event_ledger l (SorobanEvent r _ t p) = SorobanEvent r (Some l) t p"

fun set_event_transaction :: "'v StellarTransaction \<Rightarrow> 'v SorobanEvent \<Rightarrow> 'v SorobanEvent" where
  "set_event_transaction t (SorobanEvent r l _ p) = SorobanEvent r l (Some t) p"

section \<open>Effects and events without back references\<close>

definition wrapEffect :: "EffectRecord \<Rightarrow> 'v StellarEffect" where
  "wrapEffect e = StellarEffect e None None None"

definition wrapEvent :: "'v EventResponse \<Rightarrow> 'v SorobanEvent" where
  "wrapEvent e = SorobanEvent e None None None"

section \<open>Operations of a transaction\<close>

text \<open>The callback of \<open>operations.map((op, index) => ...)\<close>.\<close>

definition wrap_operation ::
  "(string \<Rightarrow> EffectRecord list option) \<Rightarrow> (nat \<Rightarrow> nat list option) \<Rightarrow> nat \<Rightarrow> OperationRecord \<Rightarrow>
   'v store \<Rightarrow> 'v operation_obj \<times> 'v store" where
  "wrap_operation effectsForSequence groupedEvts index op st =
     (let newEffects = map wrapEffect (or_empty (effectsForSequence (op_id op)));
          wrappedOp = \<lparr>oo_record = op, oo_ledger = None, oo_transaction = None,
                       oo_effects = [], oo_events = or_empty (groupedEvts index)\<rparr>;
          clonedOp = read_operation st wrappedOp;
          base = length (effect_objs st)
      in (wrappedOp\<lparr>oo_effects := [base..<base + length newEffects]\<rparr>,
          st\<lparr>effect_objs := effect_objs st @ map (set_effect_operation clonedOp) newEffects\<rparr>))"

fun wrap_operations_from ::
  "(string \<Rightarrow> EffectRecord list option) \<Rightarrow> (nat \<Rightarrow> nat list option) \<Rightarrow> nat \<Rightarrow> OperationRecord list \<Rightarrow>
   'v store \<Rightarrow> 'v operation_obj list \<times> 'v store" where
  "wrap_operations_from effectsForSequence groupedEvts index [] st = ([], st)"
| "wrap_operations_from effectsForSequence groupedEvts index (op # ops) st =
     (let (wrappedOp, st1) = wrap_operation effectsForSequence groupedEvts index op st;
          (wrappedOps, st2) = wrap_operations_from effectsForSequence groupedEvts (Suc index) ops st1
      in (wrappedOp # wrappedOps, st2))"

definition wrapOperationsForTx ::
  "OperationRecord list \<Rightarrow> (string \<Rightarrow> EffectRecord list option) \<Rightarrow> nat list \<Rightarrow>
   'v store \<Rightarrow> 'v operation_obj list \<times> 'v store" where
  "wrapOperationsForTx ops effectsForSequence evts st =
     (let groupedEvts = group_on (\<lambda>r. ev_operationIndex (event_record (event_objs st ! r))) evts
      in wrap_operations_from effectsForSequence groupedEvts 0 ops st)"

section \<open>Transactions of a ledger\<close>

text \<open>\<open>BigInt(item.id.split('-')[0]).toString()\<close>\<close>

definition effect_key :: "EffectRecord \<Rightarrow> string result" where
  "effect_key e = BigInt_toString (split_dash_head (eff_id e))"

text \<open>Effects grouped by operation id; the conversion of an id may throw.\<close>

fun group_effects ::
  "(string \<Rightarrow> EffectRecord list option) \<Rightarrow> EffectRecord list \<Rightarrow>
   (string \<Rightarrow> EffectRecord list option) result" where
  "group_effects acc [] = Inr acc"
| "group_effects acc (e # es) =
     (case effect_key e of
        Inl err \<Rightarrow> Inl err
      | Inr key \<Rightarrow> group_effects (group_push acc key e) es)"

text \<open>The callback of \<open>.map((op) => { op.transaction = clonedTx; ... })\<close>, over all operations.\<close>

fun attach_transaction ::
  "'v StellarTransaction \<Rightarrow> 'v operation_obj list \<Rightarrow> 'v store \<Rightarrow> 'v operation_obj list \<times> 'v store" where
  "attach_transaction clonedTx [] st = ([], st)"
| "attach_transaction clonedTx (op # ops) st =
     (let op' = op\<lparr>oo_transaction := Some clonedTx\<rparr>;
          st1 = modify_effects (set_effect_transaction clonedTx) (oo_effects op') st;
          st2 = modify_events (set_event_transaction clonedTx) (oo_events op') st1;
          (ops', st3) = attach_transaction clonedTx ops st2
      in (op' # ops', st3))"

text \<open>The callback of \<open>transactions.map((tx) => ...)\<close>.\<close>

definition wrap_transaction ::
  "OperationRecord list \<Rightarrow> EffectRecord list \<Rightarrow> nat list \<Rightarrow> TransactionRecord \<Rightarrow>
   'v store \<Rightarrow> ('v transaction_obj \<times> 'v store) result" where
  "wrap_transaction operationsForSequence effectsForSequence eventsForSequence tx st =
     (let wrappedTx = \<lparr>to_record = tx, to_ledger = None, to_operations = [], to_effects = [], to_events = []\<rparr>
      in case group_effects (\<lambda>_. None) effectsForSequence of
           Inl err \<Rightarrow> Inl err
         | Inr groupedEffects \<Rightarrow>
             (let groupedOperations = group_on op_transaction_hash operationsForSequence;
                  groupedEvents = group_on (\<lambda>r. ev_txHash (event_record (event_objs st ! r))) eventsForSequence;
                  clonedTx = read_transaction st wrappedTx;
                  (wrappedOps, st1) = wrapOperationsForTx (or_empty (groupedOperations (tx_hash tx)))
                    groupedEffects (or_empty (groupedEvents (tx_hash tx))) st;
                  (attachedOps, st2) = attach_transaction clonedTx wrappedOps st1
              in Inr (wrappedTx\<lparr>to_operations := attachedOps,
                                to_effects := concat (map oo_effects attachedOps),
                                to_events := concat (map oo_events attachedOps)\<rparr>, st2)))"

fun wrapTransactionsForLedger ::
  "TransactionRecord list \<Rightarrow> OperationRecord list \<Rightarrow> EffectRecord list \<Rightarrow> nat list \<Rightarrow>
   'v store \<Rightarrow> ('v transaction_obj list \<times> 'v store) result" where
  "wrapTransactionsForLedger [] ops effs evts st = Inr ([], st)"
| "wrapTransactionsForLedger (tx # txs) ops effs evts st =
     (case wrap_transaction ops effs evts tx st of
        Inl err \<Rightarrow> Inl err
      | Inr (t, st1) \<Rightarrow>
          (case wrapTransactionsForLedger txs ops effs evts st1 of
             Inl err \<Rightarrow> Inl err
           | Inr (ts, st2) \<Rightarrow> Inr (t # ts, st2)))"

section \<open>The wrapped ledger\<close>

text \<open>The body of \<open>wrapperTxs.forEach((tx) => ...)\<close>: the ledger of the transaction, of its operations,
  of their effects and events; then everything is pushed onto the ledger.\<close>

fun attach_ledger ::
  "'v StellarBlock \<Rightarrow> 'v operation_obj list \<Rightarrow> 'v store \<Rightarrow> 'v operation_obj list \<times> 'v store" where
  "attach_ledger clonedLedger [] st = ([], st)"
| "attach_ledger clonedLedger (op # ops) st =
     (let op' = op\<lparr>oo_ledger := Some clonedLedger\<rparr>;
          st1 = modify_effects (set_effect_ledger clonedLedger) (oo_effects op') st;
          st2 = modify_events (set_event_ledger clonedLedger) (oo_events op') st1;
          (ops', st3) = attach_ledger clonedLedger ops st2
      in (op' # ops', st3))"

definition push_transaction ::
  "'v StellarBlock \<Rightarrow> 'v ledger_obj \<times> 'v store \<Rightarrow> 'v transaction_obj \<Rightarrow> 'v ledger_obj \<times> 'v store" where
  "push_transaction clonedLedger = (\<lambda>(l, st) tx.
     (let (ops', st') = attach_ledger clonedLedger (to_operations tx) st;
          tx' = tx\<lparr>to_ledger := Some clonedLedger, to_operations := ops'\<rparr>
      in (l\<lparr>lo_transactions := lo_transactions l @ [tx'],
            lo_operations := lo_operations l @ ops',
            lo_effects := lo_effects l @ concat (map oo_effects ops')\<rparr>, st')))"

text \<open>From the fetched records to the wrapped ledger as its readers see it.\<close>

definition wrapLedger ::
  "LedgerRecord \<Rightarrow> TransactionRecord list \<Rightarrow> OperationRecord list \<Rightarrow> EffectRecord list \<Rightarrow>
   'v SorobanEvent list \<Rightarrow> 'v StellarBlock result" where
  "wrapLedger ledger txs ops effs eventsForSequence =
     (let evts = [0..<length eventsForSequence];
          st0 = \<lparr>effect_objs = [], event_objs = eventsForSequence\<rparr>;
          wrappedLedger = \<lparr>lo_record = ledger, lo_transactions = [], lo_operations = [],
                           lo_effects = [], lo_events = evts\<rparr>
      in case wrapTransactionsForLedger txs ops effs evts st0 of
           Inl err \<Rightarrow> Inl err
         | Inr (wrapperTxs, st1) \<Rightarrow>
             (let clonedLedger = read_ledger st1 wrappedLedger;
                  (l, st2) = foldl (push_transaction clonedLedger) (wrappedLedger, st1) wrapperTxs
              in Inr (read_ledger st2 l)))"

end
