(* ===== verification/Stellar_Api.thy ===== *)
theory Stellar_Api
  imports Soroban_Server Horizon_Paging Ledger_Wrapping
begin

text \<open>
  The class \<open>StellarApi\<close> of \<open>packages/node/src/stellar/api.stellar.ts\<close>: construction,
  initialisation, the chain accessors, the fetching and wrapping of ledgers and the error texts.

  \<open>StellarApi\<close> is the state of an instance. The \<open>SorobanServer\<close> it may share with other instances
  is referred to by its URL; the event cache of that server is threaded explicitly, together
  with the world \<open>'w\<close> of the RPC server. \<open>services\<close> collects what lies outside the repository:
  the Horizon servers by their endpoint and options, the RPC server, lodash, the URL parser of the platform and the order in which
  concurrently awaited promises settle.
\<close>

section \<open>Services outside the repository\<close>

record ('w, 'v) services =
  horizon_server :: "string \<Rightarrow> bool \<Rightarrow> (string \<times> string) list \<Rightarrow> horizon"
  rpc_getEvents :: "('w, 'v) rpc_server"
  rpc_latestLedger :: "'w \<Rightarrow> int result \<times> 'w"
  env_lodash :: "'v EventResponse lodash"
  url_protocol :: "string \<Rightarrow> string result"
  settle_time :: "nat \<Rightarrow> nat"

text \<open>
  \<open>Promise.all\<close> rejects with the rejection that happens first. \<open>settle_time\<close> gives the time at which
  the promise at a position settles; \<open>first_rejection\<close> is the earliest of the errors.
\<close>

definition first_rejection :: "(nat \<Rightarrow> nat) \<Rightarrow> js_error option list \<Rightarrow> js_error option" where
  "first_rejection time errs =
     (case sort_key time (filter (\<lambda>i. errs ! i \<noteq> None) [0..<length errs]) of
        [] \<Rightarrow> None
      | i # _ \<Rightarrow> errs ! i)"

definition error_of :: "'a result \<Rightarrow> js_error option" where
  "error_of r = (case r of Inl e \<Rightarrow> Some e | Inr _ \<Rightarrow> None)"

definition promise_all :: "(nat \<Rightarrow> nat) \<Rightarrow> 'a result list \<Rightarrow> 'a list result" where
  "promise_all time rs =
     (case first_rejection time (map error_of rs) of
        Some e \<Rightarrow> Inl e
      | None \<Rightarrow> Inr (map projr rs))"

section \<open>The instance\<close>

record IStellarEndpointConfig =
  config_pageLimit :: "nat option"
  config_headers :: "(string \<times> string) list"

record StellarApi =
  api_endpoint :: string
  api_sorobanClient :: "string option"
  api_chainId :: "string option"
  api_pageLimit :: nat
  api_allowHttp :: bool
  api_headers :: "(string \<times> string) list"

text \<open>\<open>protocol.replace(':', '')\<close> removes the first colon.\<close>

fun remove_first_colon :: "string \<Rightarrow> string" where
  "remove_first_colon [] = []"
| "remove_first_colon (c # cs) = (if c = CHR '':'' then cs else c # remove_first_colon cs)"

definition new_StellarApi ::
  "('w, 'v) services \<Rightarrow> string \<Rightarrow> string option \<Rightarrow> IStellarEndpointConfig option \<Rightarrow> StellarApi result" where
  "new_StellarApi env endpoint sorobanClient config =
     (case url_protocol env endpoint of
        Inl e \<Rightarrow> Inl e
      | Inr protocol \<Rightarrow>
          (let pageLimit = (case Option.bind config config_pageLimit of
                 None \<Rightarrow> DEFAULT_PAGE_SIZE
               | Some n \<Rightarrow> if n \<noteq> 0 then n else DEFAULT_PAGE_SIZE);
               protocolStr = remove_first_colon protocol
           in if protocolStr = ''https'' \<or> protocolStr = ''http''
              then Inr \<lparr>api_endpoint = endpoint, api_sorobanClient = sorobanClient, api_chainId = None,
                        api_pageLimit = pageLimit, api_allowHttp = (protocolStr = ''http''),
                        api_headers = (case config of None \<Rightarrow> [] | Some c \<Rightarrow> config_headers c)\<rparr>
              else Inl (Error (''Unsupported protocol: '' @ protocol))))"

text \<open>
  \<open>get api()\<close>: the client \<open>new StellarServer(endpoint, options)\<close>, so each endpoint has a server of its own.
\<close>

definition stellarClient :: "('w, 'v) services \<Rightarrow> StellarApi \<Rightarrow> horizon" where
  "stellarClient env api = horizon_server env (api_endpoint api) (api_allowHttp api) (api_headers api)"

lemma stellarClient_updates [simp]:
  "stellarClient env (api\<lparr>api_chainId := x\<rparr>) = stellarClient env api"
  "stellarClient env (api\<lparr>api_sorobanClient := y\<rparr>) = stellarClient env api"
  by (simp_all add: stellarClient_def)

definition api_init :: "('w, 'v) services \<Rightarrow> StellarApi \<Rightarrow> StellarApi result" where
  "api_init env api =
     (case h_root (stellarClient env api) of
        Inl e \<Rightarrow> Inl e
      | Inr network_passphrase \<Rightarrow> Inr (api\<lparr>api_chainId := Some network_passphrase\<rparr>))"

definition sorobanClient :: "StellarApi \<Rightarrow> string result" where
  "sorobanClient api =
     (case api_sorobanClient api of
        None \<Rightarrow> Inl (AssertionError ''Soraban client is not initialized'')
      | Some client \<Rightarrow> Inr client)"

definition getFinalizedBlock :: "('w, 'v) services \<Rightarrow> StellarApi \<Rightarrow> LedgerRecord option result" where
  "getFinalizedBlock env api =
     (case h_latest_ledgers (stellarClient env api) of
        Inl e \<Rightarrow> Inl e
      | Inr p \<Rightarrow> Inr (case page_records p of [] \<Rightarrow> None | r # _ \<Rightarrow> Some r))"

definition getFinalizedBlockHeight :: "('w, 'v) services \<Rightarrow> StellarApi \<Rightarrow> int result" where
  "getFinalizedBlockHeight env api =
     (case getFinalizedBlock env api of
        Inl e \<Rightarrow> Inl e
      | Inr None \<Rightarrow> Inl (TypeError ''Cannot read properties of undefined (reading 'sequence')'')
      | Inr (Some r) \<Rightarrow> Inr (sequence r))"

definition getBestBlockHeight :: "('w, 'v) services \<Rightarrow> StellarApi \<Rightarrow> int result" where
  "getBestBlockHeight env api =
     (case getFinalizedBlockHeight env api of Inl e \<Rightarrow> Inl e | Inr n \<Rightarrow> Inr (n + 1))"

definition getRuntimeChain :: "StellarApi \<Rightarrow> string result" where
  "getRuntimeChain api =
     (if truthy_str (api_chainId api) then Inr (the (api_chainId api))
      else Inl (AssertionError ''Api has not been initialised''))"

definition getChainId :: "StellarApi \<Rightarrow> string result" where
  "getChainId api =
     (if truthy_str (api_chainId api) then Inr (the (api_chainId api))
      else Inl (AssertionError ''Api has not been initialised''))"

definition getGenesisHash :: "StellarApi \<Rightarrow> string result" where
  "getGenesisHash api =
     (if truthy_str (api_chainId api) then Inr (the (api_chainId api))
      else Inl (AssertionError ''Api has not been initialised''))"

definition getSpecName :: string where
  "getSpecName = ''Stellar''"

section \<open>Fetching one ledger\<close>

definition getAndWrapEvents ::
  "('w, 'v) services \<Rightarrow> StellarApi \<Rightarrow> int \<Rightarrow> 'v eventsCache \<Rightarrow> 'w \<Rightarrow>
   ('v SorobanEvent list result \<times> 'v eventsCache \<times> 'w) option" where
  "getAndWrapEvents env api height cache w =
     (case sorobanClient api of
        Inl e \<Rightarrow> Some (Inl e, cache, w)
      | Inr _ \<Rightarrow>
          (case getEvents (env_lodash env) (rpc_getEvents env)
                  \<lparr>startLedger = Some height, endLedger = None, cursor = None, filters = [],
                   limit = Some (api_pageLimit api)\<rparr> cache w of
             None \<Rightarrow> None
           | Some (Inl e, cache', w') \<Rightarrow> Some (Inl e, cache', w')
           | Some (Inr response, cache', w') \<Rightarrow>
               Some (Inr (map wrapEvent (cached_events response)), cache', w')))"

text \<open>The four concurrent requests of a ledger: the collections may not end, and a rejection of one
  request rejects them all even when another does not end.\<close>

definition fetch_records ::
  "('w, 'v) services \<Rightarrow> StellarApi \<Rightarrow> int \<Rightarrow>
   (LedgerRecord \<times> TransactionRecord list \<times> OperationRecord list \<times> EffectRecord list) result option" where
  "fetch_records env api seq =
     (let h = stellarClient env api;
          ledger = h_ledger h seq;
          txs = fetchTransactionsForLedger h (api_pageLimit api) seq;
          ops = fetchOperationsForLedger h (api_pageLimit api) seq;
          effs = fetchEffectsForLedger h (api_pageLimit api) seq
      in case first_rejection (settle_time env)
                [error_of ledger, Option.bind txs error_of, Option.bind ops error_of, Option.bind effs error_of] of
           Some e \<Rightarrow> Some (Inl e)
         | None \<Rightarrow>
             (case (ledger, txs, ops, effs) of
                (Inr l, Some (Inr ts), Some (Inr os), Some (Inr es)) \<Rightarrow> Some (Inr (l, ts, os, es))
              | _ \<Rightarrow> None))"

definition hasInvokeHostFunctionOp :: "OperationRecord list \<Rightarrow> bool" where
  "hasInvokeHostFunctionOp ops = (\<exists>op \<in> set ops. op_type op = ''invoke_host_function'')"

definition newline :: string where
  "newline = [CHR 0x0A]"

text \<open>The message for a ledger the Soroban node does not have yet.\<close>

definition after_newest_message :: "int \<Rightarrow> int \<Rightarrow> string" where
  "after_newest_message seq latestLedger =
     ''The requested events for ledger number '' @ int_string seq @
     '' is not available on the current soroban node.'' @ newline @
     ''                This is because you're trying to access a ledger that is after the latest ledger number '' @
     int_string latestLedger @ '' stored in this node.'' @ newline @
     ''                To resolve this issue, please check you endpoint node start height''"

text \<open>The message for a ledger the Soroban node does not have any more.\<close>

definition before_oldest_message :: "int \<Rightarrow> string" where
  "before_oldest_message seq =
     ''The requested events for ledger number '' @ int_string seq @
     '' is not available on the current soroban node.'' @ newline @
     ''                This is because you're trying to access a ledger that is older than the oldest ledger stored in this node.'' @ newline @
     ''                To resolve this issue, you can either:'' @ newline @
     ''                1. Increase the start ledger to a more recent one, or'' @ newline @
     ''                2. Connect to a different node that might have a longer history of ledgers.''"

text \<open>The \<open>catch\<close> block around \<open>getAndWrapEvents\<close>; asking for the latest ledger may itself throw.\<close>

definition events_error ::
  "('w, 'v) services \<Rightarrow> StellarApi \<Rightarrow> int \<Rightarrow> js_error \<Rightarrow> 'w \<Rightarrow> js_error \<times> 'w" where
  "events_error env api seq e w =
     (if message e = ''start is after newest ledger'' then
        (case sorobanClient api of
           Inl e' \<Rightarrow> (e', w)
         | Inr _ \<Rightarrow>
             (case rpc_latestLedger env w of
                (Inl e', w') \<Rightarrow> (e', w')
              | (Inr latestLedger, w') \<Rightarrow> (Error (after_newest_message seq latestLedger), w')))
      else if message e = ''start is before oldest ledger'' then (Error (before_oldest_message seq), w)
      else (e, w))"

text \<open>\<open>new StellarBlockWrapped(...)\<close>\<close>

definition new_StellarBlockWrapped ::
  "'v StellarBlock \<Rightarrow> 'v StellarTransaction list \<Rightarrow> 'v StellarOperation list \<Rightarrow> 'v StellarEffect list \<Rightarrow>
   'v SorobanEvent list \<Rightarrow> 'v StellarBlockWrapper" where
  "new_StellarBlockWrapped b txs ops effs evs =
     \<lparr>block = b, transactions = txs, operations = ops, effects = effs, wrapper_events = evs\<rparr>"

definition wrap_block :: "'v StellarBlock \<Rightarrow> 'v StellarBlockWrapper" where
  "wrap_block b =
     new_StellarBlockWrapped b (block_transactions b) (block_operations b) (block_effects b) (block_events b)"

text \<open>The end of \<open>fetchAndWrapLedger\<close>, after its last \<open>await\<close>.\<close>

definition assembleBlock ::
  "LedgerRecord \<times> TransactionRecord list \<times> OperationRecord list \<times> EffectRecord list \<Rightarrow>
   'v SorobanEvent list \<Rightarrow> 'v IBlock result" where
  "assembleBlock = (\<lambda>(ledger, txs, ops, effs) eventsForSequence.
     (case wrapLedger ledger txs ops effs eventsForSequence of
        Inl e \<Rightarrow> Inl e
      | Inr b \<Rightarrow> Inr (formatBlockUtil (wrap_block b))))"

definition fetchAndWrapLedger ::
  "('w, 'v) services \<Rightarrow> StellarApi \<Rightarrow> int \<Rightarrow> 'v eventsCache \<Rightarrow> 'w \<Rightarrow>
   ('v IBlock result \<times> 'v eventsCache \<times> 'w) option" where
  "fetchAndWrapLedger env api seq cache w =
     (case fetch_records env api seq of
        None \<Rightarrow> None
      | Some (Inl e) \<Rightarrow> Some (Inl e, cache, w)
      | Some (Inr (ledger, txs, ops, effs)) \<Rightarrow>
          (case sorobanClient api of
             Inl e \<Rightarrow> Some (Inl e, cache, w)
           | Inr _ \<Rightarrow>
               if hasInvokeHostFunctionOp ops then
                 (case getAndWrapEvents env api seq cache w of
                    None \<Rightarrow> None
                  | Some (Inl e, cache', w') \<Rightarrow>
                      (case events_error env api seq e w' of (e', w'') \<Rightarrow> Some (Inl e', cache', w''))
                  | Some (Inr evs, cache', w') \<Rightarrow>
                      Some (assembleBlock (ledger, txs, ops, effs) evs, cache', w'))
               else Some (assembleBlock (ledger, txs, ops, effs) [], cache, w)))"

section \<open>Fetching blocks\<close>

text \<open>
  The fetches of \<open>fetchBlocks\<close> share the event cache. Here they run one after the other, in the
  order of the heights; \<open>Fetch_Concurrency\<close> lets them interleave and shows that this order is one of
  the possible schedules. All of them run, also when one is rejected. \<open>None\<close> stands for a fetch that
  never returns when they run in this order; nothing is claimed of such a batch, which the program
  may already have seen rejected.
\<close>

fun fetch_all ::
  "('w, 'v) services \<Rightarrow> StellarApi \<Rightarrow> int list \<Rightarrow> 'v eventsCache \<Rightarrow> 'w \<Rightarrow>
   ('v IBlock result list \<times> 'v eventsCache \<times> 'w) option" where
  "fetch_all env api [] cache w = Some ([], cache, w)"
| "fetch_all env api (seq # seqs) cache w =
     (case fetchAndWrapLedger env api seq cache w of
        None \<Rightarrow> None
      | Some (r, cache', w') \<Rightarrow>
          (case fetch_all env api seqs cache' w' of
             None \<Rightarrow> None
           | Some (rs, cache'', w'') \<Rightarrow> Some (r # rs, cache'', w'')))"

definition fetchBlocks ::
  "('w, 'v) services \<Rightarrow> StellarApi \<Rightarrow> int list \<Rightarrow> 'v eventsCache \<Rightarrow> 'w \<Rightarrow>
   ('v IBlock list result \<times> 'v eventsCache \<times> 'w) option" where
  "fetchBlocks env api bufferBlocks cache w =
     (case fetch_all env api bufferBlocks cache w of
        None \<Rightarrow> None
      | Some (rs, cache', w') \<Rightarrow> Some (promise_all (settle_time env) rs, cache', w'))"

section \<open>The remaining methods\<close>

definition api_connect :: "unit result" where
  "api_connect = Inl (Error ''Not implemented'')"

definition api_disconnect :: "unit result" where
  "api_disconnect = Inl (Error ''Not implemented'')"

definition api_handleError :: "js_error \<Rightarrow> int \<Rightarrow> js_error" where
  "api_handleError e height =
     (if message e = ''start is before oldest ledger'' then
        Error (''The requested ledger number '' @ int_string height @
          '' is not available on the current blockchain node.'' @ newline @
          ''      This is because you're trying to access a ledger that is older than the oldest ledger stored in this node.'' @ newline @
          ''      To resolve this issue, you can either:'' @ newline @
          ''      1. Increase the start ledger to a more recent one, or'' @ newline @
          ''      2. Connect to a different node that might have a longer history of ledgers.'')
      else e)"

end
