(* ===== verification/Ledger_Wrapping_Spec.thy ===== *)
theory Ledger_Wrapping_Spec
  imports Ledger_Wrapping "HOL-Library.Multiset"
begin

text \<open>
  What the mutating code of \<open>Ledger_Wrapping\<close> computes. \<open>wrapped_ledger\<close> is the wrapped block
  written down without a store: which operations a transaction has, which effects and events an
  operation has, and what every back reference is. The main theorem shows that \<open>wrapLedger\<close>
  returns it; order, completeness and the error branch follow from it.

  The first part is a small theory of the store: appending objects, and assigning to the objects
  at a list of addresses.
\<close>

section \<open>Assigning to the objects at a list of addresses\<close>

abbreviation assign_all :: "('a \<Rightarrow> 'a) \<Rightarrow> nat list \<Rightarrow> 'a list \<Rightarrow> 'a list" where
  "assign_all f rs objs \<equiv> foldl (\<lambda>objs r. objs[r := f (objs ! r)]) objs rs"

lemma length_assign_all [simp]: "length (assign_all f rs objs) = length objs"
  by (induction rs arbitrary: objs) simp_all

lemma nth_assign_all:
  "(\<And>x. f (f x) = f x) \<Longrightarrow> i < length objs \<Longrightarrow>
   assign_all f rs objs ! i = (if i \<in> set rs then f (objs ! i) else objs ! i)"
proof (induction rs arbitrary: objs)
  case (Cons r rs)
  then show ?case by (cases "r = i") auto
qed simp

lemma assign_all_fresh:
  "assign_all f [length xs..<length xs + length ys] (xs @ ys) = xs @ map f ys"
proof (induction ys arbitrary: xs)
  case (Cons y ys)
  have "[length xs..<length xs + length (y # ys)]
      = length xs # [length (xs @ [f y])..<length (xs @ [f y]) + length ys]"
    by (simp add: upt_conv_Cons del: upt_Suc)
  then show ?case using Cons [of "xs @ [f y]"] by simp
qed simp

lemma assign_all_everything: "assign_all f [0..<length ys] ys = map f ys"
  using assign_all_fresh [of f "[]" ys] by simp

lemma setters_idem [simp]:
  "set_effect_ledger l (set_effect_ledger l e) = set_effect_ledger l e"
  "set_effect_transaction t (set_effect_transaction t e) = set_effect_transaction t e"
  "set_event_ledger l (set_event_ledger l v) = set_event_ledger l v"
  "set_event_transaction t (set_event_transaction t v) = set_event_transaction t v"
  by (cases e; simp; fail)+ (cases v; simp; fail)+

lemma event_record_setters [simp]:
  "event_record (set_event_ledger l v) = event_record v"
  "event_record (set_event_transaction t v) = event_record v"
  by (cases v; simp)+

lemma modify_append:
  "modify_effects f (rs @ rs') st = modify_effects f rs' (modify_effects f rs st)"
  "modify_events g (rs @ rs') st = modify_events g rs' (modify_events g rs st)"
  by (simp_all add: modify_effects_def modify_events_def)

lemma modify_Nil [simp]: "modify_effects f [] st = st" "modify_events g [] st = st"
  by (simp_all add: modify_effects_def modify_events_def)

lemma modify_commute:
  "modify_effects f rs (modify_events g rs' st) = modify_events g rs' (modify_effects f rs st)"
  by (simp add: modify_effects_def modify_events_def)

lemma modify_objs [simp]:
  "effect_objs (modify_effects f rs st) = assign_all f rs (effect_objs st)"
  "event_objs (modify_effects f rs st) = event_objs st"
  "effect_objs (modify_events g rs st) = effect_objs st"
  "event_objs (modify_events g rs st) = assign_all g rs (event_objs st)"
  by (simp_all add: modify_effects_def modify_events_def)

text \<open>The loops that attach a transaction or a ledger, as single assignments.\<close>

lemma attach_transaction_eq:
  "attach_transaction t ops st =
     (map (oo_transaction_update (\<lambda>_. Some t)) ops,
      modify_events (set_event_transaction t) (concat (map oo_events ops))
        (modify_effects (set_effect_transaction t) (concat (map oo_effects ops)) st))"
  by (induction ops arbitrary: st) (simp_all add: modify_append modify_commute Let_def)

lemma attach_ledger_eq:
  "attach_ledger l ops st =
     (map (oo_ledger_update (\<lambda>_. Some l)) ops,
      modify_events (set_event_ledger l) (concat (map oo_events ops))
        (modify_effects (set_effect_ledger l) (concat (map oo_effects ops)) st))"
  by (induction ops arbitrary: st) (simp_all add: modify_append modify_commute Let_def)

definition with_ledger :: "'v StellarBlock \<Rightarrow> 'v transaction_obj \<Rightarrow> 'v transaction_obj" where
  "with_ledger l t = t\<lparr>to_ledger := Some l,
     to_operations := map (oo_ledger_update (\<lambda>_. Some l)) (to_operations t)\<rparr>"

definition all_effects :: "'v transaction_obj list \<Rightarrow> nat list" where
  "all_effects ts = concat (map oo_effects (concat (map to_operations ts)))"

definition all_events :: "'v transaction_obj list \<Rightarrow> nat list" where
  "all_events ts = concat (map oo_events (concat (map to_operations ts)))"

lemma all_effects_simps [simp]:
  "all_effects [] = []" "all_events [] = []"
  "all_effects (t # ts) = concat (map oo_effects (to_operations t)) @ all_effects ts"
  "all_events (t # ts) = concat (map oo_events (to_operations t)) @ all_events ts"
  by (simp_all add: all_effects_def all_events_def)

lemma push_transactions_eq:
  "foldl (push_transaction cl) (l, st) ts =
     (l\<lparr>lo_transactions := lo_transactions l @ map (with_ledger cl) ts,
        lo_operations := lo_operations l @ concat (map (to_operations \<circ> with_ledger cl) ts),
        lo_effects := lo_effects l @ all_effects ts\<rparr>,
      modify_events (set_event_ledger cl) (all_events ts)
        (modify_effects (set_effect_ledger cl) (all_effects ts) st))"
  by (induction ts arbitrary: l st)
    (simp_all add: push_transaction_def attach_ledger_eq with_ledger_def Let_def modify_append
      modify_commute comp_def)

section \<open>Effects and their operations\<close>

text \<open>The ids of all effects are well formed: the part before the first dash is an integer.\<close>

definition well_formed_ids :: "EffectRecord list \<Rightarrow> bool" where
  "well_formed_ids es \<longleftrightarrow> list_all (\<lambda>e. \<not> isl (effect_key e)) es"

lemma group_effects_lookup:
  "group_effects acc es = Inr g \<Longrightarrow>
   or_empty (g k) = or_empty (acc k) @ filter (\<lambda>e. effect_key e = Inr k) es"
  by (induction es arbitrary: acc) (auto simp: group_push_def split: sum.splits if_splits)

lemma group_effects_total: "well_formed_ids es \<Longrightarrow> \<exists>g. group_effects acc es = Inr g"
  by (induction es arbitrary: acc) (auto simp: well_formed_ids_def split: sum.splits)

lemma group_effects_error:
  "well_formed_ids pre \<Longrightarrow> effect_key e = Inl err \<Longrightarrow> group_effects acc (pre @ e # post) = Inl err"
  by (induction pre arbitrary: acc) (auto simp: well_formed_ids_def split: sum.splits)

section \<open>The wrapped block, without a store\<close>

definition ops_of :: "OperationRecord list \<Rightarrow> TransactionRecord \<Rightarrow> OperationRecord list" where
  "ops_of ops tx = filter (\<lambda>o'. op_transaction_hash o' = tx_hash tx) ops"

definition effects_of :: "EffectRecord list \<Rightarrow> OperationRecord \<Rightarrow> EffectRecord list" where
  "effects_of effs o' = filter (\<lambda>e. effect_key e = Inr (op_id o')) effs"

definition events_of_op ::
  "'v EventResponse list \<Rightarrow> TransactionRecord \<Rightarrow> nat \<Rightarrow> 'v EventResponse list" where
  "events_of_op evs tx i = filter (\<lambda>e. ev_txHash e = tx_hash tx \<and> ev_operationIndex e = i) evs"

text \<open>The clones that back references point to: a transaction before its contents are attached,
  an operation with its events only.\<close>

definition tx_ref :: "TransactionRecord \<Rightarrow> 'v StellarTransaction" where
  "tx_ref tx = StellarTransaction tx None [] [] []"

definition op_ref :: "'v EventResponse list \<Rightarrow> TransactionRecord \<Rightarrow> nat \<Rightarrow> OperationRecord \<Rightarrow> 'v StellarOperation" where
  "op_ref evs tx i o' = StellarOperation o' None None [] (map wrapEvent (events_of_op evs tx i))"

text \<open>The transaction that owns an event: it has the hash of the event and an operation with its index.\<close>

definition owns :: "OperationRecord list \<Rightarrow> 'v EventResponse \<Rightarrow> TransactionRecord \<Rightarrow> bool" where
  "owns ops e tx \<longleftrightarrow> ev_txHash e = tx_hash tx \<and> ev_operationIndex e < length (ops_of ops tx)"

definition owner ::
  "TransactionRecord list \<Rightarrow> OperationRecord list \<Rightarrow> 'v EventResponse \<Rightarrow> TransactionRecord option" where
  "owner txs ops e = List.find (owns ops e) txs"

definition event_before ::
  "TransactionRecord list \<Rightarrow> OperationRecord list \<Rightarrow> 'v EventResponse \<Rightarrow> 'v SorobanEvent" where
  "event_before txs ops e = SorobanEvent e None (map_option tx_ref (owner txs ops e)) None"

text \<open>The clone of the ledger has no transactions, operations or effects, but it has the events.\<close>

definition ledger_ref ::
  "LedgerRecord \<Rightarrow> TransactionRecord list \<Rightarrow> OperationRecord list \<Rightarrow> 'v EventResponse list \<Rightarrow> 'v StellarBlock" where
  "ledger_ref lg txs ops evs = StellarBlock lg [] [] [] (map (event_before txs ops) evs)"

definition wrapped_event ::
  "'v StellarBlock \<Rightarrow> TransactionRecord list \<Rightarrow> OperationRecord list \<Rightarrow> 'v EventResponse \<Rightarrow> 'v SorobanEvent" where
  "wrapped_event lref txs ops e =
     (case owner txs ops e of
        None \<Rightarrow> SorobanEvent e None None None
      | Some tx \<Rightarrow> SorobanEvent e (Some lref) (Some (tx_ref tx)) None)"

definition wrapped_effect ::
  "'v StellarBlock \<Rightarrow> 'v EventResponse list \<Rightarrow> TransactionRecord \<Rightarrow> nat \<times> OperationRecord \<Rightarrow>
   EffectRecord \<Rightarrow> 'v StellarEffect" where
  "wrapped_effect lref evs tx = (\<lambda>(i, o') e.
     StellarEffect e (Some lref) (Some (tx_ref tx)) (Some (op_ref evs tx i o')))"

definition wrapped_operation ::
  "'v StellarBlock \<Rightarrow> TransactionRecord list \<Rightarrow> OperationRecord list \<Rightarrow> EffectRecord list \<Rightarrow>
   'v EventResponse list \<Rightarrow> TransactionRecord \<Rightarrow> nat \<times> OperationRecord \<Rightarrow> 'v StellarOperation" where
  "wrapped_operation lref txs ops effs evs tx io =
     StellarOperation (snd io) (Some lref) (Some (tx_ref tx))
       (map (wrapped_effect lref evs tx io) (effects_of effs (snd io)))
       (map (wrapped_event lref txs ops) (events_of_op evs tx (fst io)))"

definition wrapped_operations ::
  "'v StellarBlock \<Rightarrow> TransactionRecord list \<Rightarrow> OperationRecord list \<Rightarrow> EffectRecord list \<Rightarrow>
   'v EventResponse list \<Rightarrow> TransactionRecord \<Rightarrow> 'v StellarOperation list" where
  "wrapped_operations lref txs ops effs evs tx =
     map (wrapped_operation lref txs ops effs evs tx) (enumerate 0 (ops_of ops tx))"

definition wrapped_transaction ::
  "'v StellarBlock \<Rightarrow> TransactionRecord list \<Rightarrow> OperationRecord list \<Rightarrow> EffectRecord list \<Rightarrow>
   'v EventResponse list \<Rightarrow> TransactionRecord \<Rightarrow> 'v StellarTransaction" where
  "wrapped_transaction lref txs ops effs evs tx =
     (let wops = wrapped_operations lref txs ops effs evs tx
      in StellarTransaction tx (Some lref) wops (concat (map operation_effects wops))
           (concat (map operation_events wops)))"

definition wrapped_ledger ::
  "LedgerRecord \<Rightarrow> TransactionRecord list \<Rightarrow> OperationRecord list \<Rightarrow> EffectRecord list \<Rightarrow>
   'v EventResponse list \<Rightarrow> 'v StellarBlock" where
  "wrapped_ledger lg txs ops effs evs =
     (let lref = ledger_ref lg txs ops evs;
          wops = concat (map (wrapped_operations lref txs ops effs evs) txs)
      in StellarBlock lg (map (wrapped_transaction lref txs ops effs evs) txs) wops
           (concat (map operation_effects wops)) (map (wrapped_event lref txs ops) evs))"

section \<open>Addresses that hold given values\<close>

definition reads :: "'a list \<Rightarrow> nat list \<Rightarrow> 'a list \<Rightarrow> bool" where
  "reads E refs xs \<longleftrightarrow> list_all (\<lambda>r. r < length E) refs \<and> map (\<lambda>r. E ! r) refs = xs"

lemma reads_append: "reads E refs xs \<Longrightarrow> reads (E @ F) refs xs"
  by (auto simp: reads_def list_all_iff nth_append)

lemma reads_fresh: "reads (E @ F) [length E..<length E + length F] F"
  by (auto simp: reads_def list_all_iff intro: nth_equalityI)

lemma reads_assign_all:
  "(\<And>x. f (f x) = f x) \<Longrightarrow> set refs \<subseteq> set rs \<Longrightarrow> reads E refs xs \<Longrightarrow>
   reads (assign_all f rs E) refs (map f xs)"
  by (auto simp: reads_def list_all_iff nth_assign_all)

definition event_refs :: "'v EventResponse list \<Rightarrow> TransactionRecord \<Rightarrow> nat \<Rightarrow> nat list" where
  "event_refs evs tx i =
     filter (\<lambda>r. ev_txHash (evs ! r) = tx_hash tx \<and> ev_operationIndex (evs ! r) = i) [0..<length evs]"

lemma map_filter_upt:
  "map (\<lambda>r. g (xs ! r)) (filter (\<lambda>r. P (xs ! r)) [0..<length xs]) = map g (filter P xs)"
proof -
  have "map g (filter P xs) = map g (filter P (map ((!) xs) [0..<length xs]))"
    by (simp only: map_nth)
  then show ?thesis by (simp only: filter_map map_map comp_def)
qed

lemma read_event_refs:
  "(\<And>r. r < length evs \<Longrightarrow> E ! r = g (evs ! r)) \<Longrightarrow>
   map (\<lambda>r. E ! r) (event_refs evs tx i) = map g (events_of_op evs tx i)"
proof -
  assume E: "\<And>r. r < length evs \<Longrightarrow> E ! r = g (evs ! r)"
  have "map (\<lambda>r. E ! r) (event_refs evs tx i) = map (\<lambda>r. g (evs ! r)) (event_refs evs tx i)"
    by (auto simp: event_refs_def E)
  also have "\<dots> = map g (events_of_op evs tx i)"
    unfolding event_refs_def events_of_op_def by (rule map_filter_upt)
  finally show ?thesis .
qed

section \<open>Operations of a transaction\<close>

definition op_rel ::
  "EffectRecord list \<Rightarrow> 'v EventResponse list \<Rightarrow> TransactionRecord \<Rightarrow> 'v StellarTransaction option \<Rightarrow>
   'v StellarEffect list \<Rightarrow> nat \<times> OperationRecord \<Rightarrow> 'v operation_obj \<Rightarrow> bool" where
  "op_rel effs evs tx tref E io p \<longleftrightarrow>
     oo_record p = snd io \<and> oo_ledger p = None \<and> oo_transaction p = tref \<and>
     oo_events p = event_refs evs tx (fst io) \<and>
     reads E (oo_effects p)
       (map (\<lambda>e. StellarEffect e None tref (Some (op_ref evs tx (fst io) (snd io)))) (effects_of effs (snd io)))"

lemma op_rel_append: "op_rel effs evs tx tref E io p \<Longrightarrow> op_rel effs evs tx tref (E @ F) io p"
  by (auto simp: op_rel_def reads_append)

definition groups_effects :: "(string \<Rightarrow> EffectRecord list option) \<Rightarrow> EffectRecord list \<Rightarrow> bool" where
  "groups_effects g effs \<longleftrightarrow> (\<forall>k. or_empty (g k) = filter (\<lambda>e. effect_key e = Inr k) effs)"

lemma wrap_operation_rel:
  assumes g: "groups_effects g effs"
    and ge: "or_empty (ge i) = event_refs evs tx i"
    and ev: "read_events st (event_refs evs tx i) = map wrapEvent (events_of_op evs tx i)"
    and w: "wrap_operation g ge i o' st = (p, st')"
  shows "\<exists>F. st' = st\<lparr>effect_objs := effect_objs st @ F\<rparr> \<and>
     op_rel effs evs tx None (effect_objs st @ F) (i, o') p \<and>
     oo_effects p = [length (effect_objs st)..<length (effect_objs st) + length F]"
proof -
  define F :: "'a StellarEffect list" where "F = map (\<lambda>e. StellarEffect e None None (Some (op_ref evs tx i o'))) (effects_of effs o')"
  have new: "map (set_effect_operation (op_ref evs tx i o')) (map wrapEffect (or_empty (g (op_id o')))) = F"
    using g by (simp add: groups_effects_def effects_of_def F_def wrapEffect_def comp_def)
  have clone: "read_operation st \<lparr>oo_record = o', oo_ledger = None, oo_transaction = None,
                       oo_effects = [], oo_events = or_empty (ge i)\<rparr> = op_ref evs tx i o'"
    using ev by (simp add: read_operation_def op_ref_def ge read_effects_def)
  have len: "length (or_empty (g (op_id o'))) = length F" using arg_cong [OF new, of length] by simp
  have p: "p = \<lparr>oo_record = o', oo_ledger = None, oo_transaction = None,
      oo_effects = [length (effect_objs st)..<length (effect_objs st) + length F],
      oo_events = event_refs evs tx i\<rparr>"
    and st': "st' = st\<lparr>effect_objs := effect_objs st @ F\<rparr>"
    using w unfolding wrap_operation_def Let_def clone new by (auto simp: ge len)
  have "op_rel effs evs tx None (effect_objs st @ F) (i, o') p"
    using reads_fresh [of "effect_objs st" F] by (simp add: op_rel_def p F_def)
  with p st' show ?thesis by auto
qed

lemma wrap_operations_from_rel:
  assumes g: "groups_effects g effs"
    and ge: "\<And>i. or_empty (ge i) = event_refs evs tx i"
  shows "(\<And>i. read_events st (event_refs evs tx i) = map wrapEvent (events_of_op evs tx i)) \<Longrightarrow>
    wrap_operations_from g ge n os st = (ps, st') \<Longrightarrow>
    \<exists>F. st' = st\<lparr>effect_objs := effect_objs st @ F\<rparr> \<and>
      list_all2 (op_rel effs evs tx None (effect_objs st @ F)) (enumerate n os) ps \<and>
      concat (map oo_effects ps) = [length (effect_objs st)..<length (effect_objs st) + length F]"
proof (induction os arbitrary: n st ps)
  case Nil
  then show ?case by (intro exI [of _ "[]"]) simp
next
  case (Cons o' os)
  obtain p st1 where p: "wrap_operation g ge n o' st = (p, st1)" by fastforce
  obtain F where F: "st1 = st\<lparr>effect_objs := effect_objs st @ F\<rparr>"
      "op_rel effs evs tx None (effect_objs st @ F) (n, o') p"
      "oo_effects p = [length (effect_objs st)..<length (effect_objs st) + length F]"
    using wrap_operation_rel [OF g ge Cons.prems(1) p] by blast
  obtain ps' where ps': "wrap_operations_from g ge (Suc n) os st1 = (ps', st')" "ps = p # ps'"
    using Cons.prems(2) p by (auto split: prod.splits)
  have "read_events st1 (event_refs evs tx i) = map wrapEvent (events_of_op evs tx i)" for i
    using Cons.prems(1) F(1) by (simp add: read_events_def)
  from Cons.IH [OF this ps'(1)] obtain G where G: "st' = st1\<lparr>effect_objs := effect_objs st1 @ G\<rparr>"
      "list_all2 (op_rel effs evs tx None (effect_objs st1 @ G)) (enumerate (Suc n) os) ps'"
      "concat (map oo_effects ps') = [length (effect_objs st1)..<length (effect_objs st1) + length G]"
    by blast
  have "list_all2 (op_rel effs evs tx None (effect_objs st @ F @ G)) (enumerate n (o' # os)) ps"
    using op_rel_append [OF F(2), of G] G(2) F(1) ps'(2) by simp
  moreover have "concat (map oo_effects ps)
      = [length (effect_objs st)..<length (effect_objs st) + length (F @ G)]"
    using F(1,3) G(3) ps'(2) upt_add_eq_append [of "length (effect_objs st)"
        "length (effect_objs st) + length F" "length G"] by (simp add: add.assoc)
  ultimately show ?case using G(1) F(1) by (intro exI [of _ "F @ G"]) simp
qed

section \<open>Transactions of the ledger\<close>

definition tx_rel ::
  "OperationRecord list \<Rightarrow> EffectRecord list \<Rightarrow> 'v EventResponse list \<Rightarrow> 'v StellarEffect list \<Rightarrow>
   TransactionRecord \<Rightarrow> 'v transaction_obj \<Rightarrow> bool" where
  "tx_rel ops effs evs E tx t \<longleftrightarrow>
     to_record t = tx \<and> to_ledger t = None \<and>
     to_effects t = concat (map oo_effects (to_operations t)) \<and>
     to_events t = concat (map oo_events (to_operations t)) \<and>
     list_all2 (op_rel effs evs tx (Some (tx_ref tx)) E) (enumerate 0 (ops_of ops tx)) (to_operations t)"

lemma tx_rel_append: "tx_rel ops effs evs E tx t \<Longrightarrow> tx_rel ops effs evs (E @ F) tx t"
  by (auto simp: tx_rel_def intro: op_rel_append elim!: list_all2_mono)

lemma find_append: "List.find P (xs @ ys) = (case List.find P xs of None \<Rightarrow> List.find P ys | Some x \<Rightarrow> Some x)"
  by (induction xs) simp_all

lemma owner_unowned:
  "distinct (map tx_hash (prev @ tx # rest)) \<Longrightarrow> ev_txHash e = tx_hash tx \<Longrightarrow> owner prev ops e = None"
  by (force simp: owner_def find_None_iff owns_def)

lemma set_event_refs:
  "r \<in> set (concat (map (event_refs evs tx) [0..<n])) \<longleftrightarrow>
   r < length evs \<and> ev_txHash (evs ! r) = tx_hash tx \<and> ev_operationIndex (evs ! r) < n"
  by (auto simp: event_refs_def)

lemma op_rel_events:
  "list_all2 (op_rel effs evs tx tref E) (enumerate n os) ps \<Longrightarrow>
   concat (map oo_events ps) = concat (map (event_refs evs tx) [n..<n + length os])"
proof (induction os arbitrary: n ps)
  case (Cons o' os)
  then show ?case
    by (cases ps) (auto simp: op_rel_def upt_conv_Cons simp del: upt_Suc)
qed simp

lemma events_after_attach:
  assumes d: "distinct (map tx_hash (prev @ tx # rest))"
  shows "assign_all (set_event_transaction (tx_ref tx))
           (concat (map (event_refs evs tx) [0..<length (ops_of ops tx)]))
           (map (event_before prev ops) evs) = map (event_before (prev @ [tx]) ops) evs"
proof (rule nth_equalityI)
  fix r assume "r < length (assign_all (set_event_transaction (tx_ref tx))
      (concat (map (event_refs evs tx) [0..<length (ops_of ops tx)])) (map (event_before prev ops) evs))"
  then have r: "r < length evs" by simp
  have "owner prev ops (evs ! r) = None" if "owns ops (evs ! r) tx"
    using owner_unowned [OF d] that by (auto simp: owns_def)
  moreover have "owner (prev @ [tx]) ops e = (case owner prev ops e of
      None \<Rightarrow> if owns ops e tx then Some tx else None | Some t \<Rightarrow> Some t)" for e :: "'a EventResponse"
    by (simp add: owner_def find_append split: option.split)
  ultimately show "assign_all (set_event_transaction (tx_ref tx))
      (concat (map (event_refs evs tx) [0..<length (ops_of ops tx)])) (map (event_before prev ops) evs) ! r
      = map (event_before (prev @ [tx]) ops) evs ! r"
    using r set_event_refs [of r evs tx "length (ops_of ops tx)"]
    by (subst nth_assign_all) (auto simp: event_before_def owns_def split: option.splits)
qed simp

lemma op_rel_attached:
  assumes "op_rel effs evs tx None E io p" "set (oo_effects p) \<subseteq> set rs"
  shows "op_rel effs evs tx (Some t) (assign_all (set_effect_transaction t) rs E) io
     (oo_transaction_update (\<lambda>_. Some t) p)"
proof -
  have "reads E (oo_effects p) (map (\<lambda>e. StellarEffect e None None (Some (op_ref evs tx (fst io) (snd io))))
      (effects_of effs (snd io)))"
    using assms(1) by (simp add: op_rel_def)
  from reads_assign_all [where f = "set_effect_transaction t", OF setters_idem(2) assms(2) this]
  show ?thesis using assms(1) by (simp add: op_rel_def comp_def)
qed

lemma wrap_transaction_rel:
  assumes ids: "well_formed_ids effs"
    and d: "distinct (map tx_hash (prev @ tx # rest))"
    and st: "event_objs st = map (event_before prev ops) evs"
  shows "\<exists>t F. wrap_transaction ops effs [0..<length evs] tx st
     = Inr (t, \<lparr>effect_objs = effect_objs st @ F, event_objs = map (event_before (prev @ [tx]) ops) evs\<rparr>) \<and>
     tx_rel ops effs evs (effect_objs st @ F) tx t"
proof -
  define n where "n = length (effect_objs st)"
  obtain g where g: "group_effects (\<lambda>_. None) effs = Inr g" using group_effects_total [OF ids] by blast
  then have ge: "groups_effects g effs"
    by (simp add: groups_effects_def group_effects_lookup [OF g])
  have nth: "event_objs st ! r = event_before prev ops (evs ! r)" if "r < length evs" for r
    using st that by simp
  define evix where "evix = filter (\<lambda>r. ev_txHash (event_record (event_objs st ! r)) = tx_hash tx) [0..<length evs]"
  have evix: "evix = filter (\<lambda>r. ev_txHash (evs ! r) = tx_hash tx) [0..<length evs]"
    unfolding evix_def by (rule filter_cong) (auto simp: nth event_before_def)
  define gev where "gev = group_on (\<lambda>r. ev_operationIndex (event_record (event_objs st ! r))) evix"
  have gev: "or_empty (gev i) = event_refs evs tx i" for i
    unfolding gev_def evix event_refs_def
    by (auto simp: nth event_before_def intro!: filter_cong)
  have ev: "read_events st (event_refs evs tx i) = map wrapEvent (events_of_op evs tx i)" for i
  proof -
    have "map (\<lambda>r. event_objs st ! r) (event_refs evs tx i) = map (\<lambda>r. wrapEvent (evs ! r)) (event_refs evs tx i)"
      using owner_unowned [OF d] by (auto simp: event_refs_def nth event_before_def wrapEvent_def)
    also have "\<dots> = map wrapEvent (events_of_op evs tx i)"
      unfolding event_refs_def events_of_op_def by (rule map_filter_upt)
    finally show ?thesis by (simp add: read_events_def)
  qed
  obtain ps st1 where w: "wrap_operations_from g gev 0 (ops_of ops tx) st = (ps, st1)" by fastforce
  from wrap_operations_from_rel [OF ge gev ev w] obtain F where
    F: "st1 = st\<lparr>effect_objs := effect_objs st @ F\<rparr>"
       "list_all2 (op_rel effs evs tx None (effect_objs st @ F)) (enumerate 0 (ops_of ops tx)) ps"
       "concat (map oo_effects ps) = [n..<n + length F]"
    unfolding n_def by blast
  define t where "t = (tx_ref tx :: 'a StellarTransaction)"
  define G where "G = map (set_effect_transaction t) F"
  define ps' where "ps' = map (oo_transaction_update (\<lambda>_. Some t)) ps"
  define res where "res = \<lparr>to_record = tx, to_ledger = None, to_operations = ps',
      to_effects = concat (map oo_effects ps'), to_events = concat (map oo_events ps')\<rparr>"
  have effs': "assign_all (set_effect_transaction t) [n..<n + length F] (effect_objs st @ F) = effect_objs st @ G"
    unfolding n_def G_def by (rule assign_all_fresh)
  have evs': "assign_all (set_event_transaction t) (concat (map oo_events ps)) (event_objs st)
      = map (event_before (prev @ [tx]) ops) evs"
    using events_after_attach [OF d, where evs = evs and ops = ops] op_rel_events [OF F(2)] by (simp add: st t_def)
  have run: "wrap_transaction ops effs [0..<length evs] tx st
      = Inr (res, \<lparr>effect_objs = effect_objs st @ G, event_objs = map (event_before (prev @ [tx]) ops) evs\<rparr>)"
    using w effs' evs' F(1,3)
    by (simp add: wrap_transaction_def g wrapOperationsForTx_def attach_transaction_eq Let_def
        read_transaction_def read_effects_def read_events_def ops_of_def res_def ps'_def
        modify_effects_def modify_events_def
        flip: evix_def gev_def tx_ref_def t_def)
  have "list_all2 (op_rel effs evs tx (Some t) (effect_objs st @ G)) (enumerate 0 (ops_of ops tx)) ps'"
  proof -
    have "set (oo_effects p) \<subseteq> set [n..<n + length F]" if "p \<in> set ps" for p
    proof -
      have "set (oo_effects p) \<subseteq> set (concat (map oo_effects ps))" using that by auto
      then show ?thesis by (simp only: F(3))
    qed
    then show ?thesis
      unfolding ps'_def list_all2_map2 effs' [symmetric]
      by (intro list.rel_mono_strong [OF F(2)] op_rel_attached) auto
  qed
  then have "tx_rel ops effs evs (effect_objs st @ G) tx res"
    by (simp add: tx_rel_def res_def t_def)
  with run show ?thesis by blast
qed

lemma wrapTransactionsForLedger_rel:
  assumes ids: "well_formed_ids effs"
  shows "distinct (map tx_hash (prev @ txs)) \<Longrightarrow> event_objs st = map (event_before prev ops) evs \<Longrightarrow>
   \<exists>ts F. wrapTransactionsForLedger txs ops effs [0..<length evs] st
     = Inr (ts, \<lparr>effect_objs = effect_objs st @ F, event_objs = map (event_before (prev @ txs) ops) evs\<rparr>) \<and>
     list_all2 (tx_rel ops effs evs (effect_objs st @ F)) txs ts"
proof (induction txs arbitrary: prev st)
  case Nil
  have "st = \<lparr>effect_objs = effect_objs st, event_objs = event_objs st\<rparr>" by simp
  then show ?case using Nil by (intro exI [of _ "[]"]) simp
next
  case (Cons tx txs)
  from wrap_transaction_rel [OF ids Cons.prems] obtain t F where
    t: "wrap_transaction ops effs [0..<length evs] tx st
      = Inr (t, \<lparr>effect_objs = effect_objs st @ F, event_objs = map (event_before (prev @ [tx]) ops) evs\<rparr>)"
      "tx_rel ops effs evs (effect_objs st @ F) tx t"
    by blast
  have "distinct (map tx_hash ((prev @ [tx]) @ txs))" using Cons.prems(1) by simp
  from Cons.IH [OF this, of "\<lparr>effect_objs = effect_objs st @ F, event_objs = map (event_before (prev @ [tx]) ops) evs\<rparr>"]
  obtain ts G where ts: "wrapTransactionsForLedger txs ops effs [0..<length evs]
      \<lparr>effect_objs = effect_objs st @ F, event_objs = map (event_before (prev @ [tx]) ops) evs\<rparr>
      = Inr (ts, \<lparr>effect_objs = effect_objs st @ F @ G, event_objs = map (event_before (prev @ tx # txs) ops) evs\<rparr>)"
      "list_all2 (tx_rel ops effs evs (effect_objs st @ F @ G)) txs ts"
    by auto
  have "list_all2 (tx_rel ops effs evs (effect_objs st @ F @ G)) (tx # txs) (t # ts)"
    using tx_rel_append [OF t(2), of G] ts(2) by simp
  moreover have "wrapTransactionsForLedger (tx # txs) ops effs [0..<length evs] st
      = Inr (t # ts, \<lparr>effect_objs = effect_objs st @ F @ G, event_objs = map (event_before (prev @ tx # txs) ops) evs\<rparr>)"
    using t(1) ts(1) by simp
  ultimately show ?case by blast
qed

section \<open>The wrapped ledger\<close>

text \<open>The readers' view of the objects of a transaction, after the ledger has been attached.\<close>

lemma list_all2_map_eq: "list_all2 R xs ys \<Longrightarrow> (\<And>x y. R x y \<Longrightarrow> y \<in> set ys \<Longrightarrow> f y = g x) \<Longrightarrow> map f ys = map g xs"
proof (induction xs ys rule: list_all2_induct)
  case (Cons x xs y ys)
  then show ?case by simp
qed simp

lemma tx_rel_events:
  assumes "list_all2 (tx_rel ops effs evs E) txs ts" "distinct (map tx_hash txs)" "r < length evs"
  shows "r \<in> set (all_events ts) \<longleftrightarrow> owner txs ops (evs ! r) \<noteq> None"
  using assms(1,2)
proof (induction txs ts rule: list_all2_induct)
  case (Cons tx txs t ts)
  have "r \<in> set (concat (map oo_events (to_operations t))) \<longleftrightarrow> owns ops (evs ! r) tx"
    using Cons.hyps(1) op_rel_events [of effs evs tx "Some (tx_ref tx)" E 0 "ops_of ops tx" "to_operations t"]
      set_event_refs [of r evs tx "length (ops_of ops tx)"] assms(3)
    by (simp add: tx_rel_def owns_def)
  moreover have "owner (tx # txs) ops (evs ! r) \<noteq> None \<longleftrightarrow>
      owns ops (evs ! r) tx \<or> owner txs ops (evs ! r) \<noteq> None"
    by (simp add: owner_def)
  ultimately show ?case using Cons.IH Cons.prems by simp
qed (simp add: owner_def)

lemma event_after:
  "(case owner txs ops e of None \<Rightarrow> event_before txs ops e | Some _ \<Rightarrow> set_event_ledger l (event_before txs ops e))
     = wrapped_event l txs ops e"
  by (simp add: event_before_def wrapped_event_def split: option.split)

definition final_store :: "'v StellarBlock \<Rightarrow> 'v transaction_obj list \<Rightarrow> 'v store \<Rightarrow> 'v store" where
  "final_store l ts st = modify_events (set_event_ledger l) (all_events ts)
     (modify_effects (set_effect_ledger l) (all_effects ts) st)"

lemma final_events:
  assumes "list_all2 (tx_rel ops effs evs E) txs ts" "distinct (map tx_hash txs)"
    and "event_objs st = map (event_before txs ops) evs"
  shows "event_objs (final_store l ts st) = map (wrapped_event l txs ops) evs"
proof (rule nth_equalityI)
  fix r assume "r < length (event_objs (final_store l ts st))"
  then have r: "r < length evs" by (simp add: final_store_def assms(3))
  show "event_objs (final_store l ts st) ! r = map (wrapped_event l txs ops) evs ! r"
    using r tx_rel_events [OF assms(1,2) r] event_after [of txs ops "evs ! r" l]
    by (auto simp: final_store_def nth_assign_all assms(3) split: option.splits)
qed (simp add: final_store_def assms(3))

lemma final_effects:
  "set refs \<subseteq> set (all_effects ts) \<Longrightarrow> reads (effect_objs st) refs xs \<Longrightarrow>
   read_effects (final_store l ts st) refs = map (set_effect_ledger l) xs"
  using reads_assign_all [where f = "set_effect_ledger l", OF setters_idem(1)]
  by (fastforce simp: final_store_def read_effects_def reads_def)

lemma read_final_operation:
  assumes p: "op_rel effs evs tx (Some (tx_ref tx)) (effect_objs st) io p"
    and refs: "set (oo_effects p) \<subseteq> set (all_effects ts)"
    and ev: "event_objs (final_store l ts st) = map (wrapped_event l txs ops) evs"
  shows "read_operation (final_store l ts st) (oo_ledger_update (\<lambda>_. Some l) p)
     = wrapped_operation l txs ops effs evs tx io"
proof -
  have "read_events (final_store l ts st) (event_refs evs tx (fst io))
      = map (wrapped_event l txs ops) (events_of_op evs tx (fst io))"
    unfolding read_events_def by (rule read_event_refs) (simp add: ev)
  moreover have "read_effects (final_store l ts st) (oo_effects p)
      = map (wrapped_effect l evs tx io) (effects_of effs (snd io))"
    using final_effects [OF refs] p by (fastforce simp: op_rel_def wrapped_effect_def split_beta)
  ultimately show ?thesis
    using p by (simp add: op_rel_def read_operation_def wrapped_operation_def)
qed

lemma read_concat:
  "read_effects st (concat rss) = concat (map (read_effects st) rss)"
  "read_events st (concat rss) = concat (map (read_events st) rss)"
  by (induction rss) (simp_all add: read_effects_def read_events_def)

lemma read_operation_contents:
  "operation_effects (read_operation st p) = read_effects st (oo_effects p)"
  "operation_events (read_operation st p) = read_events st (oo_events p)"
  by (simp_all add: read_operation_def)

lemma read_final_transaction:
  assumes t: "tx_rel ops effs evs (effect_objs st) tx t" "t \<in> set ts"
    and ev: "event_objs (final_store l ts st) = map (wrapped_event l txs ops) evs"
  shows "map (read_operation (final_store l ts st)) (to_operations (with_ledger l t))
      = wrapped_operations l txs ops effs evs tx"
    and "read_transaction (final_store l ts st) (with_ledger l t)
      = wrapped_transaction l txs ops effs evs tx"
proof -
  let ?s = "final_store l ts st"
  have "set (oo_effects p) \<subseteq> set (all_effects ts)" if "p \<in> set (to_operations t)" for p
    using that t(2) by (auto simp: all_effects_def)
  then have "map (\<lambda>p. read_operation ?s (oo_ledger_update (\<lambda>_. Some l) p)) (to_operations t)
      = map (wrapped_operation l txs ops effs evs tx) (enumerate 0 (ops_of ops tx))"
    using t(1) unfolding tx_rel_def
    by (elim conjE list_all2_map_eq) (rule read_final_operation [OF _ _ ev])
  then show wops: "map (read_operation ?s) (to_operations (with_ledger l t))
      = wrapped_operations l txs ops effs evs tx"
    by (simp add: with_ledger_def wrapped_operations_def comp_def)
  have "read_effects ?s (to_effects t) = concat (map operation_effects (wrapped_operations l txs ops effs evs tx))"
    "read_events ?s (to_events t) = concat (map operation_events (wrapped_operations l txs ops effs evs tx))"
    using t(1) by (simp_all add: tx_rel_def with_ledger_def read_concat read_operation_contents
        comp_def flip: wops)
  then show "read_transaction ?s (with_ledger l t) = wrapped_transaction l txs ops effs evs tx"
    using wops t(1) by (simp add: read_transaction_def wrapped_transaction_def with_ledger_def tx_rel_def Let_def)
qed

lemma wrapLedger_eq:
  assumes ids: "well_formed_ids effs" and d: "distinct (map tx_hash txs)"
  shows "wrapLedger lg txs ops effs (map wrapEvent evs) = Inr (wrapped_ledger lg txs ops effs evs)"
proof -
  let ?st0 = "\<lparr>effect_objs = [], event_objs = map wrapEvent evs\<rparr>"
  have "distinct (map tx_hash ([] @ txs))" using d by simp
  moreover have "event_objs ?st0 = map (event_before [] ops) evs"
    by (simp add: event_before_def owner_def wrapEvent_def)
  ultimately obtain ts F where
    run: "wrapTransactionsForLedger txs ops effs [0..<length evs] ?st0
      = Inr (ts, \<lparr>effect_objs = F, event_objs = map (event_before txs ops) evs\<rparr>)"
    and ts: "list_all2 (tx_rel ops effs evs F) txs ts"
    using wrapTransactionsForLedger_rel [OF ids, where prev = "[]" and txs = txs and st = ?st0 and evs = evs and ops = ops] by auto
  define st1 where "st1 = \<lparr>effect_objs = F, event_objs = map (event_before txs ops) evs\<rparr>"
  define l where "l = ledger_ref lg txs ops evs"
  define s where "s = final_store l ts st1"
  have evs1: "map ((!) (map f evs)) [0..<length evs] = map f evs" for f :: "'a EventResponse \<Rightarrow> 'a SorobanEvent"
    using map_nth [of "map f evs"] by simp
  have clone: "read_ledger st1 \<lparr>lo_record = lg, lo_transactions = [], lo_operations = [],
      lo_effects = [], lo_events = [0..<length evs]\<rparr> = l"
    by (simp add: l_def ledger_ref_def read_ledger_def read_effects_def read_events_def st1_def evs1)
  have ev: "event_objs s = map (wrapped_event l txs ops) evs"
    unfolding s_def by (rule final_events [OF ts d]) (simp add: st1_def)
  have rel: "tx_rel ops effs evs (effect_objs st1) tx t" if "tx_rel ops effs evs F tx t" for tx t
    using that by (simp add: st1_def)
  have txs': "map (\<lambda>t. read_transaction s (with_ledger l t)) ts = map (wrapped_transaction l txs ops effs evs) txs"
    using ts by (rule list_all2_map_eq)
      (simp add: s_def read_final_transaction(2) [OF rel _ ev [unfolded s_def]])
  have "map (\<lambda>t. map (read_operation s) (to_operations (with_ledger l t))) ts
      = map (wrapped_operations l txs ops effs evs) txs"
    using ts by (rule list_all2_map_eq)
      (simp add: s_def read_final_transaction(1) [OF rel _ ev [unfolded s_def]])
  then have wops: "map (read_operation s) (concat (map (to_operations \<circ> with_ledger l) ts))
      = concat (map (wrapped_operations l txs ops effs evs) txs)"
    by (simp add: map_concat comp_def)
  have "read_effects s (all_effects ts)
      = concat (map operation_effects (map (read_operation s) (concat (map (to_operations \<circ> with_ledger l) ts))))"
    by (simp add: all_effects_def read_concat read_operation_contents map_concat comp_def with_ledger_def)
  then have effs': "read_effects s (all_effects ts)
      = concat (map operation_effects (concat (map (wrapped_operations l txs ops effs evs) txs)))"
    by (simp only: wops)
  have "read_events s [0..<length evs] = map (wrapped_event l txs ops) evs"
    by (simp add: read_events_def ev evs1)
  then have "read_ledger s \<lparr>lo_record = lg, lo_transactions = map (with_ledger l) ts,
      lo_operations = concat (map (to_operations \<circ> with_ledger l) ts),
      lo_effects = all_effects ts, lo_events = [0..<length evs]\<rparr> = wrapped_ledger lg txs ops effs evs"
    using txs' wops effs'
    by (simp add: read_ledger_def wrapped_ledger_def l_def [symmetric] comp_def Let_def)
  then show ?thesis
    by (simp add: wrapLedger_def run st1_def [symmetric] clone Let_def push_transactions_eq
        final_store_def [symmetric] s_def [symmetric])
qed

lemma wrapLedger_result:
  assumes "well_formed_ids effs" "distinct (map tx_hash txs)"
    and "wrapLedger lg txs ops effs (map wrapEvent evs) = Inr b"
  shows "b = wrapped_ledger lg txs ops effs evs"
  using assms(3) by (simp add: wrapLedger_eq [OF assms(1,2)])

text \<open>No transaction: the effects are not looked at. Otherwise the first bad id is thrown.\<close>

lemma wrapLedger_no_transactions:
  "wrapLedger lg [] ops effs evs = Inr (StellarBlock lg [] [] [] evs)"
  using map_nth [of evs]
  by (simp add: wrapLedger_def Let_def read_ledger_def read_effects_def read_events_def)

lemma wrapLedger_error:
  "well_formed_ids pre \<Longrightarrow> effect_key e = Inl err \<Longrightarrow>
   wrapLedger lg (tx # txs) ops (pre @ e # post) evs = Inl err"
  by (simp add: wrapLedger_def Let_def wrap_transaction_def group_effects_error)

section \<open>The records of the events never change\<close>

text \<open>
  Without any assumption about the records: wrapping assigns references to the events, but never
  changes their records or their order.
\<close>

definition event_records :: "'v store \<Rightarrow> 'v EventResponse list" where
  "event_records st = map event_record (event_objs st)"

lemma event_records_modify [simp]:
  "event_records (modify_effects f rs st) = event_records st"
  "(\<And>v. event_record (g v) = event_record v) \<Longrightarrow> event_records (modify_events g rs st) = event_records st"
proof -
  show "event_records (modify_effects f rs st) = event_records st"
    by (simp add: event_records_def modify_effects_def)
  assume g: "\<And>v. event_record (g v) = event_record v"
  have step: "map event_record (xs[r := g (xs ! r)]) = map event_record xs" for xs r
    by (cases "r < length xs") (simp_all add: map_update g list_update_same_conv list_update_beyond)
  have "map event_record (foldl (\<lambda>objs r. objs[r := g (objs ! r)]) xs rs) = map event_record xs" for xs
    by (induction rs arbitrary: xs) (simp_all add: step)
  then show "event_records (modify_events g rs st) = event_records st"
    by (simp add: event_records_def modify_events_def)
qed

lemma event_records_attach [simp]:
  "event_records (snd (attach_transaction t ops st)) = event_records st"
  "event_records (snd (attach_ledger l ops st)) = event_records st"
  by (induction ops arbitrary: st) (simp_all add: Let_def split_beta)

lemma event_records_wrap_operations:
  "event_records (snd (wrap_operations_from effs evts i ops st)) = event_records st"
  by (induction ops arbitrary: i st) (simp_all add: Let_def split_beta wrap_operation_def event_records_def)

lemma event_records_wrap_transaction:
  "wrap_transaction ops effs evts tx st = Inr (t, st') \<Longrightarrow> event_records st' = event_records st"
  by (auto simp: wrap_transaction_def Let_def split_beta wrapOperationsForTx_def event_records_wrap_operations
      split: sum.splits)

lemma event_records_wrap_transactions:
  "wrapTransactionsForLedger txs ops effs evts st = Inr (ts, st') \<Longrightarrow> event_records st' = event_records st"
proof (induction txs arbitrary: st ts)
  case (Cons tx txs)
  then obtain t st1 ts1 where "wrap_transaction ops effs evts tx st = Inr (t, st1)"
      "wrapTransactionsForLedger txs ops effs evts st1 = Inr (ts1, st')"
    by (auto split: sum.splits)
  then show ?case using Cons.IH event_records_wrap_transaction by metis
qed simp

lemma push_transactions_keep:
  "foldl (push_transaction l) (lo, st) ts = (lo', st') \<Longrightarrow>
   event_records st' = event_records st \<and> lo_events lo' = lo_events lo \<and> lo_record lo' = lo_record lo"
proof (induction ts arbitrary: lo st)
  case (Cons t ts)
  obtain lo1 st1 where one: "push_transaction l (lo, st) t = (lo1, st1)" by fastforce
  then have "event_records st1 = event_records st \<and> lo_events lo1 = lo_events lo \<and> lo_record lo1 = lo_record lo"
    by (auto simp: push_transaction_def Let_def split_beta)
  then show ?case using Cons.IH [of lo1 st1] Cons.prems one by simp
qed simp

lemma wrapLedger_keeps_events:
  assumes "wrapLedger lg txs ops effs evs = Inr b"
  shows "block_record b = lg \<and> map event_record (block_events b) = map event_record evs"
proof -
  let ?lo = "\<lparr>lo_record = lg, lo_transactions = [], lo_operations = [], lo_effects = [], lo_events = [0..<length evs]\<rparr>"
  let ?st0 = "\<lparr>effect_objs = [], event_objs = evs\<rparr>"
  obtain ts st1 where ts: "wrapTransactionsForLedger txs ops effs [0..<length evs] ?st0 = Inr (ts, st1)"
    using assms by (auto simp: wrapLedger_def Let_def split: sum.splits)
  obtain l st2 where l: "foldl (push_transaction (read_ledger st1 ?lo)) (?lo, st1) ts = (l, st2)" by fastforce
  have b: "b = read_ledger st2 l" using assms ts l by (simp add: wrapLedger_def Let_def)
  have recs: "event_records st2 = map event_record evs" "lo_events l = [0..<length evs]" "lo_record l = lg"
    using push_transactions_keep [OF l] event_records_wrap_transactions [OF ts] by (simp_all add: event_records_def)
  then have "length (event_objs st2) = length evs" by (metis event_records_def length_map)
  then have "map event_record (read_events st2 (lo_events l)) = event_records st2"
    using map_nth [of "event_objs st2"] by (simp add: recs(2) read_events_def event_records_def del: map_map flip: map_map)
  then show ?thesis using recs by (simp add: b read_ledger_def)
qed

section \<open>Reading the wrapped block\<close>

lemma map_snd_enumerate: "map snd (enumerate n xs) = xs"
  by (simp add: enumerate_eq_zip)

lemma map_fn_snd_enumerate: "map (\<lambda>io. f (snd io)) (enumerate n xs) = map f xs"
proof -
  have "map (\<lambda>io. f (snd io)) (enumerate n xs) = map f (map snd (enumerate n xs))"
    by (simp only: map_map comp_def)
  then show ?thesis by (simp only: map_snd_enumerate)
qed

lemma wrapped_ledger_sel:
  "block_record (wrapped_ledger lg txs ops effs evs) = lg"
  "map transaction_record (block_transactions (wrapped_ledger lg txs ops effs evs)) = txs"
  "map event_record (block_events (wrapped_ledger lg txs ops effs evs)) = evs"
  for evs :: "'v EventResponse list"
proof -
  have "transaction_record (wrapped_transaction l txs ops effs evs tx) = tx" for l :: "'v StellarBlock" and tx
    by (simp add: wrapped_transaction_def Let_def)
  then show "map transaction_record (block_transactions (wrapped_ledger lg txs ops effs evs)) = txs"
    by (simp add: wrapped_ledger_def Let_def comp_def)
  have "event_record (wrapped_event l txs ops e) = e" for l :: "'v StellarBlock" and e
    by (simp add: wrapped_event_def split: option.split)
  then show "map event_record (block_events (wrapped_ledger lg txs ops effs evs)) = evs"
    by (simp add: wrapped_ledger_def Let_def comp_def)
qed (simp add: wrapped_ledger_def Let_def)

lemma wrapped_operations_records:
  "map operation_record (wrapped_operations l txs ops effs evs tx) = ops_of ops tx"
  using map_snd_enumerate [of 0 "ops_of ops tx"]
  by (simp add: wrapped_operations_def wrapped_operation_def comp_def)

lemma block_operation_records:
  "map operation_record (block_operations (wrapped_ledger lg txs ops effs evs))
     = concat (map (ops_of ops) txs)"
  by (simp add: wrapped_ledger_def Let_def map_concat comp_def wrapped_operations_records)

lemma wrapped_effects_records:
  "map effect_record (concat (map operation_effects (wrapped_operations l txs ops effs evs tx)))
     = concat (map (effects_of effs) (ops_of ops tx))"
proof -
  have "map effect_record (operation_effects (wrapped_operation l txs ops effs evs tx io)) = effects_of effs (snd io)"
    for io by (simp add: wrapped_operation_def wrapped_effect_def comp_def split_beta)
  then show ?thesis
    by (simp add: map_concat wrapped_operations_def comp_def map_fn_snd_enumerate)
qed

lemma concat_map_concat: "concat (map f (concat (map g xs))) = concat (map (\<lambda>x. concat (map f (g x))) xs)"
  by (induction xs) simp_all

lemma map_concat_concat: "map f (concat (map g xs)) = concat (map (\<lambda>x. map f (g x)) xs)"
  by (induction xs) simp_all

lemma map_concat_nested:
  "map f (concat (map g (concat (map h xs)))) = concat (map (\<lambda>x. map f (concat (map g (h x)))) xs)"
  by (induction xs) simp_all

lemma block_effect_records:
  "map effect_record (block_effects (wrapped_ledger lg txs ops effs evs))
     = concat (map (effects_of effs) (concat (map (ops_of ops) txs)))"
  unfolding wrapped_ledger_def Let_def StellarBlock.sel map_concat_nested wrapped_effects_records
  by (simp only: concat_map_concat)

lemma partition_mset:
  "distinct (map k ks) \<Longrightarrow>
   mset (concat (map (\<lambda>x. filter (\<lambda>y. h y = k x) ys) ks)) = filter_mset (\<lambda>y. h y \<in> k ` set ks) (mset ys)"
proof (induction ks)
  case (Cons x ks)
  then show ?case by (intro multiset_eqI) (auto simp: count_mset_0_iff image_iff)
qed simp

lemma operations_mset:
  assumes "distinct (map tx_hash txs)" "\<forall>o'\<in>set ops. op_transaction_hash o' \<in> tx_hash ` set txs"
  shows "mset (concat (map (ops_of ops) txs)) = mset ops"
proof -
  have "mset (concat (map (ops_of ops) txs)) = filter_mset (\<lambda>o'. op_transaction_hash o' \<in> tx_hash ` set txs) (mset ops)"
    unfolding ops_of_def by (rule partition_mset [OF assms(1)])
  also have "\<dots> = mset ops" using assms(2) by (simp add: filter_mset_eq_conv)
  finally show ?thesis .
qed

lemma effects_mset:
  assumes "distinct (map op_id ps)" "\<forall>e\<in>set effs. effect_key e \<in> Inr ` op_id ` set ps"
  shows "mset (concat (map (effects_of effs) ps)) = mset effs"
proof -
  have "distinct (map (\<lambda>o'. Inr (op_id o') :: string result) ps)"
    using assms(1) by (simp add: distinct_map inj_on_def)
  then have "mset (concat (map (effects_of effs) ps))
      = filter_mset (\<lambda>e. effect_key e \<in> (\<lambda>o'. Inr (op_id o')) ` set ps) (mset effs)"
    unfolding effects_of_def by (rule partition_mset)
  also have "\<dots> = mset effs" using assms(2) by (auto simp: filter_mset_eq_conv)
  finally show ?thesis .
qed

text \<open>The wrapped block holds every operation and every effect exactly once.\<close>

lemma wrapped_ledger_conserves:
  assumes "distinct (map tx_hash txs)" "distinct (map op_id ops)"
    and "\<forall>o'\<in>set ops. op_transaction_hash o' \<in> tx_hash ` set txs"
    and "\<forall>e\<in>set effs. effect_key e \<in> Inr ` op_id ` set ops"
  shows "mset (map operation_record (block_operations (wrapped_ledger lg txs ops effs evs))) = mset ops"
    and "mset (map effect_record (block_effects (wrapped_ledger lg txs ops effs evs))) = mset effs"
proof -
  let ?ps = "concat (map (ops_of ops) txs)"
  have ps: "mset ?ps = mset ops" by (rule operations_mset [OF assms(1,3)])
  then show "mset (map operation_record (block_operations (wrapped_ledger lg txs ops effs evs))) = mset ops"
    by (simp only: block_operation_records)
  from ps have "mset (map op_id ?ps) = mset (map op_id ops)" by (simp only: mset_map)
  then have "distinct (map op_id ?ps)" using assms(2) mset_eq_imp_distinct_iff by blast
  moreover have "set ?ps = set ops" by (rule mset_eq_setD [OF ps])
  ultimately have "mset (concat (map (effects_of effs) ?ps)) = mset effs"
    using assms(4) by (intro effects_mset) simp_all
  then show "mset (map effect_record (block_effects (wrapped_ledger lg txs ops effs evs))) = mset effs"
    by (simp only: block_effect_records)
qed

end
