(* ===== verification/Ledger_Properties.thy ===== *)
theory Ledger_Properties
  imports Ledger_Wrapping_Spec
begin

text \<open>
  The properties of the wrapped block: what \<open>wrapLedger\<close> returns, that nothing fetched is lost or
  duplicated, that the flattened lists of the block agree with the nested ones, what every back
  reference points to, and how it fails on an effect whose id is not of the documented form.
\<close>

section \<open>A sample ledger\<close>

definition sample_ledger :: LedgerRecord where
  "sample_ledger = \<lparr>sequence = 7, ledger_hash = ''ab'', closed_at = ''2024-01-01T00:00:00Z'',
     successful_transaction_count = 2, failed_transaction_count = 0, operation_count = 3,
     tx_set_operation_count = Some 3\<rparr>"

definition sample_txs :: "TransactionRecord list" where
  "sample_txs = [\<lparr>tx_hash = ''t1'', tx_source_account = ''GA''\<rparr>, \<lparr>tx_hash = ''t2'', tx_source_account = ''GB''\<rparr>]"

definition sample_ops :: "OperationRecord list" where
  "sample_ops =
     [\<lparr>op_id = ''11'', op_type = ''payment'', op_source_account = ''GA'', op_transaction_hash = ''t1''\<rparr>,
      \<lparr>op_id = ''21'', op_type = ''invoke_host_function'', op_source_account = ''GB'', op_transaction_hash = ''t2''\<rparr>,
      \<lparr>op_id = ''12'', op_type = ''payment'', op_source_account = ''GA'', op_transaction_hash = ''t1''\<rparr>]"

definition sample_effs :: "EffectRecord list" where
  "sample_effs =
     [\<lparr>eff_id = ''0012-0001'', eff_type = ''account_debited'', eff_account = ''GA''\<rparr>,
      \<lparr>eff_id = ''0011-0001'', eff_type = ''account_debited'', eff_account = ''GA''\<rparr>,
      \<lparr>eff_id = ''0012-0002'', eff_type = ''account_credited'', eff_account = ''GB''\<rparr>]"

definition sample_evs :: "string EventResponse list" where
  "sample_evs =
     [\<lparr>ev_id = ''e1'', ev_ledger = 7, ev_txHash = ''t2'', ev_operationIndex = 0, ev_contractId = Some ''C'', ev_topic = [''mint'']\<rparr>,
      \<lparr>ev_id = ''e2'', ev_ledger = 7, ev_txHash = ''t9'', ev_operationIndex = 0, ev_contractId = None, ev_topic = []\<rparr>]"

lemma sample_well_formed:
  "well_formed_ids sample_effs" "distinct (map tx_hash sample_txs)" "distinct (map op_id sample_ops)"
  "\<forall>o'\<in>set sample_ops. op_transaction_hash o' \<in> tx_hash ` set sample_txs"
  "\<forall>e\<in>set sample_effs. effect_key e \<in> Inr ` op_id ` set sample_ops"
  by code_simp+

lemma sample_wrapped:
  "map (\<lambda>p. (op_id (operation_record p), map (eff_id \<circ> effect_record) (operation_effects p)))
     (block_operations (wrapped_ledger sample_ledger sample_txs sample_ops sample_effs sample_evs))
   = [(''11'', [''0011-0001'']), (''12'', [''0012-0001'', ''0012-0002'']), (''21'', [])]"
  by code_simp

section \<open>Functional correctness\<close>

text \<open>
  C7: The mutating code returns exactly the wrapped block written down without a store: for
  well formed effect ids and transactions with distinct hashes, \<open>wrapLedger\<close> yields
  \<open>wrapped_ledger\<close>, back references and clones included.
\<close>

theorem wrapLedger_refines:
  assumes "well_formed_ids effs" "distinct (map tx_hash txs)"
  shows "wrapLedger lg txs ops effs (map wrapEvent evs) = Inr (wrapped_ledger lg txs ops effs evs)"
  using assms by (rule wrapLedger_eq)

theorem wrapLedger_refines_witness:
  "wrapLedger sample_ledger sample_txs sample_ops sample_effs (map wrapEvent sample_evs)
     = Inr (wrapped_ledger sample_ledger sample_txs sample_ops sample_effs sample_evs)"
  by (rule wrapLedger_refines [OF sample_well_formed(1,2)])

text \<open>
  C14: Nothing is lost or duplicated: when every operation belongs to a fetched transaction and
  every effect to a fetched operation, the wrapped block holds the transactions and the events in
  the order they were fetched, and every operation and every effect exactly once.
\<close>

theorem wrapLedger_conserves:
  assumes "well_formed_ids effs" "distinct (map tx_hash txs)" "distinct (map op_id ops)"
    and "\<forall>o'\<in>set ops. op_transaction_hash o' \<in> tx_hash ` set txs"
    and "\<forall>e\<in>set effs. effect_key e \<in> Inr ` op_id ` set ops"
  shows "\<exists>b. wrapLedger lg txs ops effs (map wrapEvent evs) = Inr b \<and>
    block_record b = lg \<and>
    map transaction_record (block_transactions b) = txs \<and>
    map event_record (block_events b) = evs \<and>
    mset (map operation_record (block_operations b)) = mset ops \<and>
    mset (map effect_record (block_effects b)) = mset effs"
  by (simp only: wrapLedger_eq [OF assms(1,2)] wrapped_ledger_sel wrapped_ledger_conserves [OF assms(2-5)]
      sum.inject ex_simps simp_thms)

theorem wrapLedger_conserves_witness:
  "\<exists>b. wrapLedger sample_ledger sample_txs sample_ops sample_effs (map wrapEvent sample_evs) = Inr b \<and>
    block_record b = sample_ledger \<and>
    map transaction_record (block_transactions b) = sample_txs \<and>
    map event_record (block_events b) = sample_evs \<and>
    mset (map operation_record (block_operations b)) = mset sample_ops \<and>
    mset (map effect_record (block_effects b)) = mset sample_effs"
  by (rule wrapLedger_conserves [OF sample_well_formed])

lemma wrapped_operation_references:
  assumes "p \<in> set (wrapped_operations l txs ops effs evs tx)"
  shows "operation_ledger p = Some l" "operation_transaction p = Some (tx_ref tx)"
    "op_transaction_hash (operation_record p) = tx_hash tx"
    "\<exists>q. operation_record q = operation_record p \<and>
      (\<forall>e\<in>set (operation_effects p). effect_ledger e = Some l \<and> effect_transaction e = Some (tx_ref tx) \<and>
        effect_operation e = Some q \<and> effect_key (effect_record e) = Inr (op_id (operation_record p)))"
proof -
  obtain i o' where p: "p = wrapped_operation l txs ops effs evs tx (i, o')" "o' \<in> set (ops_of ops tx)"
    using assms by (auto simp: wrapped_operations_def in_set_enumerate_eq)
  then show "operation_ledger p = Some l" "operation_transaction p = Some (tx_ref tx)"
    "op_transaction_hash (operation_record p) = tx_hash tx"
    by (simp_all add: wrapped_operation_def ops_of_def)
  show "\<exists>q. operation_record q = operation_record p \<and>
      (\<forall>e\<in>set (operation_effects p). effect_ledger e = Some l \<and> effect_transaction e = Some (tx_ref tx) \<and>
        effect_operation e = Some q \<and> effect_key (effect_record e) = Inr (op_id (operation_record p)))"
    by (intro exI [of _ "op_ref evs tx i o'"])
      (simp add: p(1) wrapped_operation_def wrapped_effect_def op_ref_def effects_of_def)
qed

text \<open>
  The flattened lists agree with the nested ones: the operations of the block are those of its
  transactions in order, its effects those of its operations, and the effects and events of each
  transaction those of its operations.
\<close>

lemma wrapLedger_flattens:
  assumes "well_formed_ids effs" "distinct (map tx_hash txs)"
    and "wrapLedger lg txs ops effs (map wrapEvent evs) = Inr b"
  shows "block_operations b = concat (map transaction_operations (block_transactions b)) \<and>
    block_effects b = concat (map transaction_effects (block_transactions b)) \<and>
    list_all (\<lambda>t. transaction_effects t = concat (map operation_effects (transaction_operations t)) \<and>
       transaction_events t = concat (map operation_events (transaction_operations t))) (block_transactions b)"
proof -
  have b: "b = wrapped_ledger lg txs ops effs evs" using assms by (rule wrapLedger_result)
  show ?thesis
    unfolding b wrapped_ledger_def wrapped_transaction_def Let_def
    by (simp add: list_all_iff comp_def concat_map_concat)
qed

text \<open>
  C15: The back references are right. There is one copy of the ledger to which every transaction, every
  operation and every effect of the block refers. Every operation, with effects or without, carries
  the hash of the transaction that contains it and refers to a copy of it, one for all operations
  of the transaction. Every effect refers to that copy too, and to a copy of the operation that
  contains it, one for all its effects, whose id its own id starts with. The operations of the block
  are those of its transactions, in order.
\<close>

theorem wrapLedger_back_references:
  assumes "well_formed_ids effs" "distinct (map tx_hash txs)"
    and "wrapLedger lg txs ops effs (map wrapEvent evs) = Inr b"
  shows "block_operations b = concat (map transaction_operations (block_transactions b)) \<and>
    (\<exists>l. block_record l = lg \<and>
      (\<forall>t\<in>set (block_transactions b). transaction_ledger t = Some l \<and>
        (\<exists>r. transaction_record r = transaction_record t \<and>
          (\<forall>p\<in>set (transaction_operations t). operation_ledger p = Some l \<and> operation_transaction p = Some r \<and>
            op_transaction_hash (operation_record p) = tx_hash (transaction_record t) \<and>
            (\<exists>q. operation_record q = operation_record p \<and>
              (\<forall>e\<in>set (operation_effects p). effect_ledger e = Some l \<and> effect_transaction e = Some r \<and>
                effect_operation e = Some q \<and> effect_key (effect_record e) = Inr (op_id (operation_record p))))))))"
proof (intro conjI exI [of _ "ledger_ref lg txs ops evs"] ballI)
  let ?l = "ledger_ref lg txs ops evs"
  have b: "b = wrapped_ledger lg txs ops effs evs" using assms by (rule wrapLedger_result)
  show "block_operations b = concat (map transaction_operations (block_transactions b))"
    using wrapLedger_flattens [OF assms] by blast
  show "block_record ?l = lg" by (simp add: ledger_ref_def)
  fix t assume "t \<in> set (block_transactions b)"
  then obtain tx where t: "t = wrapped_transaction ?l txs ops effs evs tx"
    by (auto simp: b wrapped_ledger_def Let_def)
  then show "transaction_ledger t = Some ?l" by (simp add: wrapped_transaction_def Let_def)
  show "\<exists>r. transaction_record r = transaction_record t \<and>
      (\<forall>p\<in>set (transaction_operations t). operation_ledger p = Some ?l \<and> operation_transaction p = Some r \<and>
        op_transaction_hash (operation_record p) = tx_hash (transaction_record t) \<and>
        (\<exists>q. operation_record q = operation_record p \<and>
          (\<forall>e\<in>set (operation_effects p). effect_ledger e = Some ?l \<and> effect_transaction e = Some r \<and>
            effect_operation e = Some q \<and> effect_key (effect_record e) = Inr (op_id (operation_record p)))))"
    using t wrapped_operation_references
    by (intro exI [of _ "tx_ref tx"]) (auto simp: wrapped_transaction_def tx_ref_def Let_def)
qed

definition sample_block :: "string StellarBlock" where
  "sample_block = wrapped_ledger sample_ledger sample_txs sample_ops sample_effs sample_evs"

lemma sample_block_eq:
  "wrapLedger sample_ledger sample_txs sample_ops sample_effs (map wrapEvent sample_evs) = Inr sample_block"
  by (simp only: sample_block_def wrapLedger_eq [OF sample_well_formed(1,2)])

lemma sample_members:
  "hd (block_transactions sample_block) \<in> set (block_transactions sample_block)"
  "last (block_transactions sample_block) \<in> set (block_transactions sample_block)"
  "hd (transaction_operations (last (block_transactions sample_block)))
     \<in> set (transaction_operations (last (block_transactions sample_block)))"
  by (rule hd_in_set last_in_set, code_simp)+

text \<open>The operation of the second transaction has no effects, and has its references all the same.\<close>

theorem wrapLedger_back_references_witness:
  "operation_effects (hd (transaction_operations (last (block_transactions sample_block)))) = [] \<and>
   (\<exists>l r. block_record l = sample_ledger \<and>
      transaction_ledger (hd (block_transactions sample_block)) = Some l \<and>
      transaction_record r = transaction_record (last (block_transactions sample_block)) \<and>
      operation_ledger (hd (transaction_operations (last (block_transactions sample_block)))) = Some l \<and>
      operation_transaction (hd (transaction_operations (last (block_transactions sample_block)))) = Some r)"
proof
  show "operation_effects (hd (transaction_operations (last (block_transactions sample_block)))) = []"
    by code_simp
  from wrapLedger_back_references [OF sample_well_formed(1,2) sample_block_eq]
  show "\<exists>l r. block_record l = sample_ledger \<and>
      transaction_ledger (hd (block_transactions sample_block)) = Some l \<and>
      transaction_record r = transaction_record (last (block_transactions sample_block)) \<and>
      operation_ledger (hd (transaction_operations (last (block_transactions sample_block)))) = Some l \<and>
      operation_transaction (hd (transaction_operations (last (block_transactions sample_block)))) = Some r"
    using sample_members by (meson bspec)
qed

text \<open>
  C21: Every event of the block refers to a transaction exactly when a fetched transaction with its
  hash has an operation with its index; it then refers to a copy of that transaction and to the
  ledger, and otherwise to nothing. No event ever refers to an operation.
\<close>

theorem wrapLedger_event_references:
  assumes "well_formed_ids effs" "distinct (map tx_hash txs)"
    and "wrapLedger lg txs ops effs (map wrapEvent evs) = Inr b"
    and "v \<in> set (block_events b)"
  shows "event_operation v = None \<and>
    (case event_transaction v of
       None \<Rightarrow> event_ledger v = None \<and> list_all (\<lambda>tx. \<not> owns ops (event_record v) tx) txs
     | Some r \<Rightarrow> map_option block_record (event_ledger v) = Some lg \<and>
         transaction_record r \<in> set txs \<and> owns ops (event_record v) (transaction_record r))"
proof -
  have b: "b = wrapped_ledger lg txs ops effs evs" using assms(1-3) by (rule wrapLedger_result)
  obtain e where v: "v = wrapped_event (ledger_ref lg txs ops evs) txs ops e"
    using assms(4) by (auto simp: b wrapped_ledger_def Let_def)
  show ?thesis
  proof (cases "owner txs ops e")
    case None
    then have "list_all (\<lambda>tx. \<not> owns ops e tx) txs"
      by (simp add: owner_def find_None_iff list_all_iff)
    with None show ?thesis by (simp add: v wrapped_event_def)
  next
    case (Some tx)
    then have "tx \<in> set txs" "owns ops e tx" by (auto simp: owner_def find_Some_iff)
    with Some show ?thesis by (simp add: v wrapped_event_def ledger_ref_def tx_ref_def)
  qed
qed

theorem wrapLedger_event_references_witness:
  "event_operation (hd (block_events sample_block)) = None \<and>
   map_option transaction_record (event_transaction (hd (block_events sample_block)))
     = Some \<lparr>tx_hash = ''t2'', tx_source_account = ''GB''\<rparr>"
proof -
  have "hd (block_events sample_block) \<in> set (block_events sample_block)"
    by (rule hd_in_set) code_simp
  from wrapLedger_event_references [OF sample_well_formed(1,2) sample_block_eq this]
  have "event_operation (hd (block_events sample_block)) = None" by blast
  moreover have "map_option transaction_record (event_transaction (hd (block_events sample_block)))
     = Some \<lparr>tx_hash = ''t2'', tx_source_account = ''GB''\<rparr>" by code_simp
  ultimately show ?thesis ..
qed

lemma padded_effect_key:
  assumes "eff_id e = replicate k (CHR ''0'') @ nat_string n @ CHR ''-'' # rest"
  shows "effect_key e = Inr (nat_string n)"
proof -
  have "list_all is_digit (replicate k (CHR ''0'') @ nat_string n)"
    by (auto simp: list_all_iff is_digit_def [of "CHR ''0''"] dest: nat_string_digits)
  then have "split_dash_head (eff_id e) = replicate k (CHR ''0'') @ nat_string n"
    using split_dash_head_digits [of "replicate k (CHR ''0'') @ nat_string n"] assms by simp
  then show ?thesis by (simp add: effect_key_def BigInt_toString_padded)
qed

text \<open>
  C22: Effects find their operation through their id. An effect whose id is the zero-padded decimal
  number of an operation, a dash and a rest, ends up in the wrapped block under the operations
  whose id is that number without padding, as often as it was fetched, and under no other operation.
\<close>

theorem padded_effect_ids:
  assumes "well_formed_ids effs" "distinct (map tx_hash txs)"
    and "wrapLedger lg txs ops effs (map wrapEvent evs) = Inr b"
    and "eff_id e = replicate k (CHR ''0'') @ nat_string n @ CHR ''-'' # rest"
    and "p \<in> set (block_operations b)"
  shows "count (mset (map effect_record (operation_effects p))) e
    = (if op_id (operation_record p) = nat_string n then count (mset effs) e else 0)"
proof -
  have b: "b = wrapped_ledger lg txs ops effs evs" using assms(1-3) by (rule wrapLedger_result)
  have "map effect_record (operation_effects p) = effects_of effs (operation_record p)"
    using assms(5)
    by (auto simp: b wrapped_ledger_def Let_def wrapped_operations_def wrapped_operation_def wrapped_effect_def comp_def)
  then show ?thesis using padded_effect_key [OF assms(4)] by (simp add: effects_of_def)
qed

theorem padded_effect_ids_witness:
  "map (\<lambda>p. count (mset (map effect_record (operation_effects p)))
        \<lparr>eff_id = ''0012-0001'', eff_type = ''account_debited'', eff_account = ''GA''\<rparr>) (block_operations sample_block)
   = map (\<lambda>p. if op_id (operation_record p) = ''12'' then 1 else 0) (block_operations sample_block)"
proof (intro map_cong refl)
  let ?e = "\<lparr>eff_id = ''0012-0001'', eff_type = ''account_debited'', eff_account = ''GA''\<rparr>"
  fix p assume p: "p \<in> set (block_operations sample_block)"
  have n: "nat_string 12 = ''12''" by code_simp
  have e: "eff_id ?e = replicate 2 (CHR ''0'') @ nat_string 12 @ CHR ''-'' # ''0001''"
    by (simp add: n numeral_2_eq_2)
  show "count (mset (map effect_record (operation_effects p))) ?e
      = (if op_id (operation_record p) = ''12'' then 1 else 0)"
    using padded_effect_ids [OF sample_well_formed(1,2) sample_block_eq e p] by (simp add: n sample_effs_def)
qed

text \<open>
  C23: Ids of another form are errors: with at least one transaction the first effect whose id has,
  before its dash, a text that \<open>BigInt\<close> refuses makes the wrapping throw that error (the empty text is
  not refused: \<open>BigInt('')\<close> is 0); without transactions the effects are never looked at and the block
  is empty but for its events.
\<close>

theorem wrapLedger_malformed_effect:
  assumes "well_formed_ids pre" "effect_key e = Inl err"
  shows "wrapLedger lg txs ops (pre @ e # post) evs
    = (if txs = [] then Inr (StellarBlock lg [] [] [] evs) else Inl err)"
  using assms by (cases txs) (simp_all add: wrapLedger_no_transactions wrapLedger_error)

theorem wrapLedger_malformed_effect_witness:
  "wrapLedger sample_ledger sample_txs sample_ops
     (sample_effs @ [\<lparr>eff_id = ''x-1'', eff_type = ''t'', eff_account = ''GA''\<rparr>]) (map wrapEvent sample_evs)
   = Inl (SyntaxError ''Cannot convert x to a BigInt'')"
proof -
  have "effect_key \<lparr>eff_id = ''x-1'', eff_type = ''t'', eff_account = ''GA''\<rparr>
      = Inl (SyntaxError ''Cannot convert x to a BigInt'')" by code_simp
  from wrapLedger_malformed_effect [OF sample_well_formed(1) this, of sample_ledger sample_txs] 
  show ?thesis by (simp add: sample_txs_def)
qed

end
