(* ===== verification/Api_Properties.thy ===== *)
theory Api_Properties
  imports Stellar_Api Soroban_Cache Ledger_Properties
begin

text \<open>
  What fetching blocks promises. The abstract specification is a \<open>chain\<close>: for every ledger its
  record, transactions, operations and effects, and one log of events. \<open>chain_block\<close> is the wrapped
  block of a ledger of the chain. When Horizon serves the chain and the RPC server its event log,
  \<open>fetchBlocks\<close> returns the blocks of the chain in the order asked for.
\<close>

section \<open>Concurrent requests\<close>

lemma first_rejection_None: "first_rejection time errs = None \<longleftrightarrow> list_all (\<lambda>e. e = None) errs"
proof -
  let ?is = "filter (\<lambda>i. errs ! i \<noteq> None) [0..<length errs]"
  have "first_rejection time errs = None \<longleftrightarrow> sort_key time ?is = []"
  proof (cases "sort_key time ?is")
    case (Cons i js)
    then have "i \<in> set (sort_key time ?is)" by simp
    then have "errs ! i \<noteq> None" by auto
    then show ?thesis by (simp only: first_rejection_def Cons list.case) simp
  qed (simp add: first_rejection_def)
  also have "\<dots> \<longleftrightarrow> ?is = []" by (metis set_empty set_sort)
  also have "\<dots> \<longleftrightarrow> list_all (\<lambda>e. e = None) errs"
    by (auto simp: filter_empty_conv list_all_length)
  finally show ?thesis .
qed

lemma first_rejection_Some: "first_rejection time errs = Some e \<Longrightarrow> Some e \<in> set errs"
proof -
  let ?is = "filter (\<lambda>i. errs ! i \<noteq> None) [0..<length errs]"
  assume e: "first_rejection time errs = Some e"
  then obtain i js where i: "sort_key time ?is = i # js" "errs ! i = Some e"
    by (auto simp: first_rejection_def split: list.splits)
  then have "i \<in> set (sort_key time ?is)" by simp
  then have "i < length errs" by simp
  with i(2) show ?thesis by (metis nth_mem)
qed

lemma error_of_simps [simp]: "error_of (Inl e) = Some e" "error_of (Inr x) = None"
  by (simp_all add: error_of_def)

lemma error_of_None: "error_of r = None \<longleftrightarrow> (\<exists>x. r = Inr x)"
  by (cases r) auto

lemma promise_all_fulfilled [simp]: "promise_all time (map Inr xs) = Inr xs"
proof -
  have "first_rejection time (map error_of (map Inr xs)) = None"
    by (simp add: first_rejection_None list_all_iff)
  then show ?thesis by (simp add: promise_all_def comp_def)
qed

lemma sort_key_head:
  assumes "sort_key f xs = y # ys" "x \<in> set xs"
  shows "f y \<le> f x"
proof -
  have "sorted (map f (y # ys))" using sorted_sort_key [of f xs] by (simp add: assms(1))
  moreover have "x \<in> set (y # ys)" using assms by (metis set_sort)
  ultimately show ?thesis by auto
qed

text \<open>The batch is rejected with the rejection that happens first.\<close>

lemma promise_all_rejected:
  assumes "promise_all time rs = Inl e"
  shows "\<exists>i<length rs. rs ! i = Inl e \<and> (\<forall>j<length rs. isl (rs ! j) \<longrightarrow> time i \<le> time j)"
proof -
  let ?errs = "map error_of rs"
  let ?is = "filter (\<lambda>i. ?errs ! i \<noteq> None) [0..<length ?errs]"
  have "first_rejection time ?errs = Some e"
    using assms by (simp add: promise_all_def split: option.splits)
  then obtain i js where i: "sort_key time ?is = i # js" "?errs ! i = Some e"
    by (auto simp: first_rejection_def split: list.splits)
  have "i \<in> set ?is" using i(1) by (metis list.set_intros(1) set_sort)
  then have "i < length rs" by simp
  moreover from this have "rs ! i = Inl e" using i(2) by (auto simp: error_of_def split: sum.splits)
  moreover have "time i \<le> time j" if "j < length rs" "isl (rs ! j)" for j
    using that by (intro sort_key_head [OF i(1)]) (auto simp: error_of_def split: sum.split)
  ultimately show ?thesis by blast
qed

lemma promise_all_returned:
  assumes "promise_all time rs = Inr xs"
  shows "rs = map Inr xs"
proof -
  have "list_all (\<lambda>e. e = None) (map error_of rs)" and xs: "xs = map projr rs"
    using assms first_rejection_None [of time "map error_of rs"] by (auto simp: promise_all_def split: option.splits)
  then have "\<And>r. r \<in> set rs \<Longrightarrow> r = Inr (projr r)" by (auto simp: list_all_iff error_of_None)
  then show ?thesis by (simp add: xs map_idI [symmetric])
qed

section \<open>The records of a ledger\<close>

lemma fetch_records_served:
  assumes "serves_ledger (stellarClient env api) (api_pageLimit api) seq txs ops effs"
    and "h_ledger (stellarClient env api) seq = Inr lg"
  shows "fetch_records env api seq = Some (Inr (lg, txs, ops, effs))"
proof -
  have "first_rejection t [None, None, None, None] = None" for t :: "nat \<Rightarrow> nat"
    by (simp add: first_rejection_None)
  then show ?thesis
    using assms(2) by (simp add: fetch_records_def Let_def fetch_collections [OF assms(1)])
qed

lemma fetch_records_ledger:
  "fetch_records env api s = Some (Inr records) \<Longrightarrow> h_ledger (stellarClient env api) s = Inr (fst records)"
  by (auto simp: fetch_records_def Let_def split: option.splits sum.splits)

section \<open>The chain\<close>

record 'v chain =
  chain_ledger :: "int \<Rightarrow> LedgerRecord"
  chain_txs :: "int \<Rightarrow> TransactionRecord list"
  chain_ops :: "int \<Rightarrow> OperationRecord list"
  chain_effs :: "int \<Rightarrow> EffectRecord list"
  chain_events :: "'v EventResponse list"

definition serves_chain :: "horizon \<Rightarrow> nat \<Rightarrow> 'v chain \<Rightarrow> int \<Rightarrow> bool" where
  "serves_chain h n c s \<longleftrightarrow>
     h_ledger h s = Inr (chain_ledger c s) \<and>
     serves_ledger h n s (chain_txs c s) (chain_ops c s) (chain_effs c s) \<and>
     sequence (chain_ledger c s) = s \<and>
     distinct (map tx_hash (chain_txs c s)) \<and> well_formed_ids (chain_effs c s)"

definition chain_block :: "'v chain \<Rightarrow> int \<Rightarrow> 'v StellarBlock" where
  "chain_block c s =
     wrapped_ledger (chain_ledger c s) (chain_txs c s) (chain_ops c s) (chain_effs c s)
       (if hasInvokeHostFunctionOp (chain_ops c s) then events_of (chain_events c) s else [])"

definition chain_result :: "'v chain \<Rightarrow> int \<Rightarrow> 'v IBlock" where
  "chain_result c s = formatBlockUtil (wrap_block (chain_block c s))"

lemma getAndWrapEvents_eq:
  "api_sorobanClient api = Some client \<Longrightarrow>
   getAndWrapEvents env api s cache w =
     (case getEvents (env_lodash env) (rpc_getEvents env) (ledger_request s (api_pageLimit api)) cache w of
        None \<Rightarrow> None
      | Some (Inl e, cache', w') \<Rightarrow> Some (Inl e, cache', w')
      | Some (Inr response, cache', w') \<Rightarrow> Some (Inr (map wrapEvent (cached_events response)), cache', w'))"
  by (simp add: getAndWrapEvents_def sorobanClient_def ledger_request_def)

definition chain_records ::
  "'v chain \<Rightarrow> int \<Rightarrow> LedgerRecord \<times> TransactionRecord list \<times> OperationRecord list \<times> EffectRecord list" where
  "chain_records c s = (chain_ledger c s, chain_txs c s, chain_ops c s, chain_effs c s)"

lemma served_records:
  "serves_chain (stellarClient env api) (api_pageLimit api) c s \<Longrightarrow>
   fetch_records env api s = Some (Inr (chain_records c s))"
  unfolding chain_records_def by (intro fetch_records_served) (simp_all add: serves_chain_def)

lemma assembleBlock_chain:
  assumes "serves_chain h n c s"
  shows "assembleBlock (chain_records c s)
    (map wrapEvent (if hasInvokeHostFunctionOp (chain_ops c s) then events_of (chain_events c) s else []))
    = Inr (chain_result c s)"
proof -
  have "wrapLedger (chain_ledger c s) (chain_txs c s) (chain_ops c s) (chain_effs c s) (map wrapEvent evs)
      = Inr (wrapped_ledger (chain_ledger c s) (chain_txs c s) (chain_ops c s) (chain_effs c s) evs)"
    for evs :: "'a EventResponse list"
    using assms by (intro wrapLedger_eq) (simp_all add: serves_chain_def)
  then show ?thesis by (simp only: assembleBlock_def chain_records_def chain_result_def chain_block_def prod.case sum.case)
qed

lemma fetchAndWrapLedger_chain:
  assumes lo: "lodash_events (env_lodash env)"
    and rpc: "full_page_rpc (rpc_getEvents env) (chain_events c) pos maxLimit"
    and sound: "cache_sound (chain_events c) cache"
    and n: "0 < api_pageLimit api" "api_pageLimit api \<le> maxLimit"
    and client: "api_sorobanClient api = Some client"
    and served: "serves_chain (stellarClient env api) (api_pageLimit api) c s"
  shows "\<exists>cache' w'. fetchAndWrapLedger env api s cache w = Some (Inr (chain_result c s), cache', w') \<and>
    cache_sound (chain_events c) cache'"
proof -
  note recs = served_records [OF served, unfolded chain_records_def]
  note block = assembleBlock_chain [OF served, unfolded chain_records_def]
  have cl: "sorobanClient api = Inr client" using client by (simp add: sorobanClient_def)
  show ?thesis
  proof (cases "hasInvokeHostFunctionOp (chain_ops c s)")
    case True
    obtain r cache' w' where ev: "getEvents (env_lodash env) (rpc_getEvents env)
        (ledger_request s (api_pageLimit api)) cache w = Some (Inr r, cache', w')"
        "cached_events r = events_of (chain_events c) s" "cache_sound (chain_events c) cache'"
      using full_page_rpc.getEvents_refines [OF rpc lo sound n] by blast
    then show ?thesis
      using True block by (simp add: fetchAndWrapLedger_def recs cl getAndWrapEvents_eq [OF client])
  next
    case False
    then show ?thesis using sound block by (simp add: fetchAndWrapLedger_def recs cl)
  qed
qed

lemma fetch_all_chain:
  assumes "lodash_events (env_lodash env)"
    and "full_page_rpc (rpc_getEvents env) (chain_events c) pos maxLimit"
    and "0 < api_pageLimit api" "api_pageLimit api \<le> maxLimit"
    and "api_sorobanClient api = Some client"
  shows "cache_sound (chain_events c) cache \<Longrightarrow>
    list_all (serves_chain (stellarClient env api) (api_pageLimit api) c) ss \<Longrightarrow>
    \<exists>cache' w'. fetch_all env api ss cache w = Some (map (Inr \<circ> chain_result c) ss, cache', w') \<and>
      cache_sound (chain_events c) cache'"
proof (induction ss arbitrary: cache w)
  case (Cons s ss)
  obtain cache1 w1 where 1: "fetchAndWrapLedger env api s cache w = Some (Inr (chain_result c s), cache1, w1)"
      "cache_sound (chain_events c) cache1"
    using fetchAndWrapLedger_chain [OF assms(1,2) Cons.prems(1) assms(3-5)] Cons.prems(2) by fastforce
  from Cons.IH [OF this(2), of w1] Cons.prems(2) 1(1) show ?case by auto
qed simp

lemma fetchBlocks_one:
  assumes "lodash_events (env_lodash env)"
    and "full_page_rpc (rpc_getEvents env) (chain_events c) pos maxLimit"
    and "0 < api_pageLimit api" "api_pageLimit api \<le> maxLimit"
    and "api_sorobanClient api = Some client"
    and "cache_sound (chain_events c) cache"
    and "serves_chain (stellarClient env api) (api_pageLimit api) c s"
  shows "\<exists>cache' w'. fetchBlocks env api [s] cache w = Some (Inr [chain_result c s], cache', w')"
proof -
  have "list_all (serves_chain (stellarClient env api) (api_pageLimit api) c) [s]" using assms(7) by simp
  from fetch_all_chain [OF assms(1-6) this] obtain cache' w' where
    "fetch_all env api [s] cache w = Some (map Inr [chain_result c s], cache', w')" by fastforce
  then show ?thesis by (simp only: fetchBlocks_def promise_all_fulfilled option.case prod.case) blast
qed

section \<open>A sample chain\<close>

text \<open>Horizon and the RPC server for a chain, with pages of at most two records.\<close>

definition chain_horizon :: "'v chain \<Rightarrow> horizon" where
  "chain_horizon c =
     \<lparr>h_root = Inr ''Test SDF Network'', h_latest_ledgers = Inr \<lparr>page_records = [chain_ledger c 7], page_next = []\<rparr>,
      h_ledger = (\<lambda>s. Inr (chain_ledger c s)),
      h_transactions = (\<lambda>s n. list_page 2 (chain_txs c s) []), h_transactions_next = list_page 2 (chain_txs c 7),
      h_operations = (\<lambda>s n. list_page 2 (chain_ops c s) []), h_operations_next = list_page 2 (chain_ops c 7),
      h_effects = (\<lambda>s n. list_page 2 (chain_effs c s) []), h_effects_next = list_page 2 (chain_effs c 7)\<rparr>"

definition sample_chain :: "string chain" where
  "sample_chain = \<lparr>chain_ledger = (\<lambda>s. sample_ledger), chain_txs = (\<lambda>s. sample_txs),
     chain_ops = (\<lambda>s. sample_ops), chain_effs = (\<lambda>s. sample_effs), chain_events = sample_evs\<rparr>"

definition sample_services :: "(nat, string) services" where
  "sample_services = \<lparr>horizon_server = (\<lambda>endpoint allowHttp headers. chain_horizon sample_chain), rpc_getEvents = log_rpc 200 sample_evs,
     rpc_latestLedger = (\<lambda>w. (Inr 7, w)), env_lodash = reference_lodash,
     url_protocol = (\<lambda>u. if u = ''https://h'' then Inr ''https:'' else if u = ''ftp://h'' then Inr ''ftp:''
        else Inl (TypeError ''Invalid URL'')), settle_time = id\<rparr>"

definition sample_api :: StellarApi where
  "sample_api = \<lparr>api_endpoint = ''https://h'', api_sorobanClient = Some ''https://s'', api_chainId = Some ''Test'',
     api_pageLimit = 150, api_allowHttp = False, api_headers = []\<rparr>"

lemma sample_client [simp]: "stellarClient sample_services api = chain_horizon sample_chain"
  by (simp add: stellarClient_def sample_services_def)

lemma sample_limit [simp]: "api_pageLimit sample_api = 150"
  by (simp add: sample_api_def)

lemma sample_evs_rpc: "full_page_rpc (log_rpc 200 sample_evs) sample_evs length 200"
  by (rule log_rpc_full_pages) (simp_all add: sample_evs_def)

lemma list_page_paged: "\<exists>at. paged_collection (list_page 2 xs []) (list_page 2 xs) xs at"
  using list_pages.paged_collection_axioms [of 1 xs] by (auto simp: numeral_2_eq_2)

lemma sample_served: "serves_chain (chain_horizon sample_chain) 150 sample_chain 7"
proof -
  have "serves_ledger (chain_horizon sample_chain) 150 7 sample_txs sample_ops sample_effs"
    by (simp add: serves_ledger_def chain_horizon_def sample_chain_def list_page_paged)
  moreover have "sequence sample_ledger = 7" by (simp add: sample_ledger_def)
  ultimately show ?thesis
    using sample_well_formed(1,2) by (simp add: serves_chain_def chain_horizon_def sample_chain_def)
qed

lemma sample_setup:
  "lodash_events (env_lodash sample_services)"
  "full_page_rpc (rpc_getEvents sample_services) (chain_events sample_chain) length 200"
  "0 < api_pageLimit sample_api" "api_pageLimit sample_api \<le> 200"
  "api_sorobanClient sample_api = Some ''https://s''"
  "cache_sound (chain_events sample_chain) (\<lambda>_. None)"
  "serves_chain (stellarClient sample_services sample_api) (api_pageLimit sample_api) sample_chain 7"
proof -
  show "serves_chain (stellarClient sample_services sample_api) (api_pageLimit sample_api) sample_chain 7"
    using sample_served by (simp add: sample_api_def)
qed (use sample_evs_rpc reference_lodash.lodash_events_axioms
     in \<open>simp_all add: sample_services_def sample_api_def sample_chain_def\<close>)

section \<open>Properties\<close>

text \<open>
  C3: Fetching refines the chain. When Horizon serves the ledgers asked for and the RPC server holds
  the event log, \<open>fetchBlocks\<close> returns, from any sound cache, the wrapped blocks of the chain in the
  order asked for, with the events of each ledger that invokes a contract, and leaves a sound cache.
\<close>

theorem fetchBlocks_refines_chain:
  assumes "lodash_events (env_lodash env)"
    and "full_page_rpc (rpc_getEvents env) (chain_events c) pos maxLimit"
    and "0 < api_pageLimit api" "api_pageLimit api \<le> maxLimit"
    and "api_sorobanClient api = Some client"
    and "cache_sound (chain_events c) cache"
    and "list_all (serves_chain (stellarClient env api) (api_pageLimit api) c) ss"
  shows "\<exists>cache' w'. fetchBlocks env api ss cache w = Some (Inr (map (chain_result c) ss), cache', w') \<and>
    cache_sound (chain_events c) cache'"
proof -
  obtain cache' w' where "fetch_all env api ss cache w = Some (map Inr (map (chain_result c) ss), cache', w')"
      "cache_sound (chain_events c) cache'"
    using fetch_all_chain [OF assms] by fastforce
  then show ?thesis by (simp add: fetchBlocks_def del: map_map)
qed

theorem fetchBlocks_refines_chain_witness:
  "\<exists>cache' w'. fetchBlocks sample_services sample_api [7, 7] (\<lambda>_. None) 0
      = Some (Inr (map (chain_result sample_chain) [7, 7]), cache', w') \<and>
    cache_sound sample_evs cache'"
proof -
  have "list_all (serves_chain (stellarClient sample_services sample_api) (api_pageLimit sample_api) sample_chain) [7, 7]"
    using sample_setup(7) by simp
  from fetchBlocks_refines_chain [OF sample_setup(1-6) this] show ?thesis by (simp add: sample_chain_def)
qed

text \<open>
  The Soroban client is needed for every ledger: without one, fetching a ledger whose records
  Horizon serves fails with an assertion error, whether or not the ledger invokes a contract.
\<close>

lemma fetch_needs_soroban:
  assumes "api_sorobanClient api = None"
    and "fetch_records env api seq = Some (Inr records)"
  shows "fetchAndWrapLedger env api seq cache w
    = Some (Inl (AssertionError ''Soraban client is not initialized''), cache, w)"
  using assms by (cases records) (simp add: fetchAndWrapLedger_def assembleBlock_def sorobanClient_def)



text \<open>A ledger that was fetched is the one that was asked for.\<close>

lemma fetchAndWrapLedger_record:
  assumes "fetchAndWrapLedger env api s cache w = Some (Inr b, cache', w')"
  shows "h_ledger (stellarClient env api) s = Inr (block_record (block (iblock b)))"
proof -
  obtain records where recs: "fetch_records env api s = Some (Inr records)"
    using assms by (auto simp: fetchAndWrapLedger_def split: option.splits sum.splits)
  obtain evs where "assembleBlock records evs = Inr b"
    using assms recs by (auto simp: fetchAndWrapLedger_def split: option.splits sum.splits prod.splits if_splits)
  then obtain lg txs ops effs wrapped where r: "records = (lg, txs, ops, effs)"
      and w: "wrapLedger lg txs ops effs evs = Inr wrapped" and b: "block (iblock b) = wrapped"
    by (cases records rule: prod_cases4) (auto simp: assembleBlock_def formatBlockUtil_def wrap_block_def
        new_StellarBlockWrapped_def split: sum.splits)
  then show ?thesis using fetch_records_ledger [OF recs] wrapLedger_keeps_events [OF w] by simp
qed

text \<open>The fetches of a batch: \<open>sts\<close> are the states before, between and after them.\<close>

definition fetched_each ::
  "('w, 'v) services \<Rightarrow> StellarApi \<Rightarrow> int list \<Rightarrow> 'v IBlock result list \<Rightarrow> ('v eventsCache \<times> 'w) list \<Rightarrow> bool" where
  "fetched_each env api ss rs sts \<longleftrightarrow>
     length rs = length ss \<and> length sts = Suc (length ss) \<and>
     (\<forall>i<length ss. fetchAndWrapLedger env api (ss ! i) (fst (sts ! i)) (snd (sts ! i)) = Some (rs ! i, sts ! Suc i))"

lemma fetch_all_each:
  "fetch_all env api ss cache w = Some (rs, cache', w') \<Longrightarrow>
   \<exists>sts. hd sts = (cache, w) \<and> last sts = (cache', w') \<and> fetched_each env api ss rs sts"
proof (induction ss arbitrary: cache w rs)
  case Nil
  then show ?case by (intro exI [of _ "[(cache, w)]"]) (simp add: fetched_each_def)
next
  case (Cons s ss)
  then obtain r cache1 w1 rs1 where one: "fetchAndWrapLedger env api s cache w = Some (r, cache1, w1)"
      and rest: "fetch_all env api ss cache1 w1 = Some (rs1, cache', w')" and rs: "rs = r # rs1"
    by (auto split: option.splits prod.splits)
  obtain sts where sts: "hd sts = (cache1, w1)" "last sts = (cache', w')" "fetched_each env api ss rs1 sts"
    using Cons.IH [OF rest] by blast
  then have "sts \<noteq> []" by (auto simp: fetched_each_def)
  then have "sts ! 0 = (cache1, w1)" using sts(1) by (simp add: hd_conv_nth)
  then have "fetched_each env api (s # ss) rs ((cache, w) # sts)"
    using sts(3) one by (auto simp: fetched_each_def rs nth_Cons split: nat.split)
  then show ?case using sts(2) \<open>sts \<noteq> []\<close> by (intro exI [of _ "(cache, w) # sts"]) simp
qed

text \<open>
  C26: A batch succeeds as a whole or fails as a whole. \<open>fetchBlocks\<close> fetches every ledger asked for,
  each from the cache the one before left, also when one fails. It returns one block for each, in
  the order asked for, holding the record that Horizon has for that ledger, when all were fetched;
  otherwise it throws the error of a ledger whose fetch failed, the earliest one to fail.
\<close>

theorem fetchBlocks_all_or_error:
  assumes "fetchBlocks env api ss cache w = Some (r, cache', w')"
  shows "\<exists>rs sts. hd sts = (cache, w) \<and> last sts = (cache', w') \<and> fetched_each env api ss rs sts \<and>
    (case r of
       Inr bs \<Rightarrow> rs = map Inr bs \<and>
         list_all2 (\<lambda>s b. h_ledger (stellarClient env api) s = Inr (block_record (block (iblock b)))) ss bs
     | Inl e \<Rightarrow> \<exists>i<length ss. rs ! i = Inl e \<and>
         (\<forall>j<length ss. isl (rs ! j) \<longrightarrow> settle_time env i \<le> settle_time env j))"
proof -
  obtain rs where all: "fetch_all env api ss cache w = Some (rs, cache', w')" and r: "r = promise_all (settle_time env) rs"
    using assms by (auto simp: fetchBlocks_def split: option.splits prod.splits)
  obtain sts where sts: "hd sts = (cache, w)" "last sts = (cache', w')" "fetched_each env api ss rs sts"
    using fetch_all_each [OF all] by blast
  then have len: "length rs = length ss" by (simp add: fetched_each_def)
  show ?thesis
  proof (cases r)
    case (Inl e)
    with promise_all_rejected [of "settle_time env" rs e] r len obtain i where
      "i < length ss" "rs ! i = Inl e" "\<forall>j<length ss. isl (rs ! j) \<longrightarrow> settle_time env i \<le> settle_time env j"
      by auto
    then show ?thesis using sts Inl by (intro exI [of _ rs] exI [of _ sts]) auto
  next
    case (Inr bs)
    then have rs: "rs = map Inr bs" using r promise_all_returned by metis
    have "h_ledger (stellarClient env api) (ss ! i) = Inr (block_record (block (iblock (bs ! i))))"
      if "i < length ss" for i
      using sts(3) that len fetchAndWrapLedger_record [of env api "ss ! i" "fst (sts ! i)" "snd (sts ! i)" "bs ! i"
          "fst (sts ! Suc i)" "snd (sts ! Suc i)"]
      by (simp add: fetched_each_def rs)
    then have "list_all2 (\<lambda>s b. h_ledger (stellarClient env api) s = Inr (block_record (block (iblock b)))) ss bs"
      using len by (simp add: list_all2_conv_all_nth rs)
    then show ?thesis using sts Inr rs by auto
  qed
qed

theorem fetchBlocks_all_or_error_witness:
  "\<exists>e cache w t. fetchBlocks sample_services (sample_api\<lparr>api_sorobanClient := None\<rparr>) [7, 7] (\<lambda>_. None) 0
      = Some (Inl e, \<lambda>_. None, 0) \<and>
    fetchAndWrapLedger sample_services (sample_api\<lparr>api_sorobanClient := None\<rparr>) 7 cache w = Some (Inl e, t)"
proof -
  let ?api = "sample_api\<lparr>api_sorobanClient := None\<rparr>"
  let ?e = "AssertionError ''Soraban client is not initialized''"
  have "fetch_records sample_services ?api 7 = Some (Inr (sample_ledger, sample_txs, sample_ops, sample_effs))"
    using sample_served by (intro fetch_records_served) (simp_all add: serves_chain_def sample_chain_def)
  then have all: "fetch_all sample_services ?api [7, 7] (\<lambda>_. None) 0 = Some ([Inl ?e, Inl ?e], \<lambda>_. None, 0)"
    by (simp add: fetchAndWrapLedger_def assembleBlock_def sorobanClient_def)
  define r where r: "r = promise_all (settle_time sample_services) [Inl ?e, Inl ?e :: string IBlock result]"
  have run: "fetchBlocks sample_services ?api [7, 7] (\<lambda>_. None) 0 = Some (r, \<lambda>_. None, 0)"
    using all by (simp add: fetchBlocks_def r)
  have "r \<noteq> Inr bs" for bs
    using promise_all_returned [of "settle_time sample_services" "[Inl ?e, Inl ?e]" bs] r by (auto simp: Cons_eq_map_conv)
  then obtain e where e: "r = Inl e" by (cases r) blast+
  from fetchBlocks_all_or_error [OF run] obtain rs sts i where
    "fetched_each sample_services ?api [7, 7] rs sts" "i < length [7 :: int, 7]" "rs ! i = Inl e"
    unfolding e sum.case by blast
  then have "fetchAndWrapLedger sample_services ?api 7 (fst (sts ! i)) (snd (sts ! i)) = Some (Inl e, sts ! Suc i)"
    by (auto simp: fetched_each_def less_Suc_eq)
  then show ?thesis using run e by blast
qed

end
