(* ===== verification/Interleaving.thy ===== *)
theory Interleaving
  imports Prelude
begin

text \<open>
  Tasks that share a state. An \<open>async\<close> function runs undisturbed between two \<open>await\<close>s, and at an
  \<open>await\<close> any other call in progress may go on. A system is the list of the tasks in progress with
  the state they share; a parameter \<open>step\<close> says what a task does until its next \<open>await\<close>, and
  \<open>settled\<close> when it has nothing left to do.

  \<^item> \<open>interleave\<close> is one move of the system, \<open>schedule\<close> a number of them, \<open>execution\<close> an endless run.
  \<^item> The locale \<open>task_invariant\<close> is the contract of a step that keeps what every task and the shared
    state promise; under it every schedule keeps them. \<open>terminating_tasks\<close> adds a bound on the
    steps of a task; under it every execution settles all tasks.
\<close>

section \<open>Systems of tasks\<close>

type_synonym ('a, 's) system = "'a list \<times> 's"

inductive interleave ::
  "('a \<times> 's \<Rightarrow> 'a \<times> 's) \<Rightarrow> ('a \<Rightarrow> bool) \<Rightarrow> ('a, 's) system \<Rightarrow> ('a, 's) system \<Rightarrow> bool"
  for step settled where
  move: "i < length acts \<Longrightarrow> \<not> settled (acts ! i) \<Longrightarrow> step (acts ! i, s) = (act, s') \<Longrightarrow>
         interleave step settled (acts, s) (acts[i := act], s')"

inductive_cases interleaveE: "interleave step settled (acts, s) sys"

text \<open>A schedule of a given number of steps.\<close>

inductive schedule ::
  "('a \<times> 's \<Rightarrow> 'a \<times> 's) \<Rightarrow> ('a \<Rightarrow> bool) \<Rightarrow> nat \<Rightarrow> ('a, 's) system \<Rightarrow> ('a, 's) system \<Rightarrow> bool"
  for step settled where
  start: "schedule step settled 0 sys sys"
| more: "schedule step settled n sys sys' \<Longrightarrow> interleave step settled sys' sys'' \<Longrightarrow>
         schedule step settled (Suc n) sys sys''"

lemma interleave_progress:
  "\<not> list_all settled acts \<Longrightarrow> \<exists>sys'. interleave step settled (acts, s) sys'"
proof -
  assume "\<not> list_all settled acts"
  then obtain i where "i < length acts" "\<not> settled (acts ! i)" by (auto simp: list_all_length)
  moreover obtain act s' where "step (acts ! i, s) = (act, s')" by fastforce
  ultimately show ?thesis by (blast intro: move)
qed

lemma schedule_first:
  "interleave step settled sys sys' \<Longrightarrow> schedule step settled m sys' sys'' \<Longrightarrow>
   schedule step settled (Suc m) sys sys''"
  by (rotate_tac 1, induction m sys' sys'' rule: schedule.induct) (auto intro: schedule.intros)

lemma schedule_trans:
  "schedule step settled m sys sys' \<Longrightarrow> schedule step settled n sys' sys'' \<Longrightarrow>
   schedule step settled (m + n) sys sys''"
  by (rotate_tac 1, induction n sys' sys'' rule: schedule.induct) (auto intro: schedule.intros)

text \<open>A task that runs alone until it has settled is one way to schedule it.\<close>

lemma schedule_alone:
  assumes stop: "\<And>b s. settled b \<Longrightarrow> step (b, s) = (b, s)"
    and run: "(step ^^ k) (a, s) = (b, s')" and i: "i < length acts" "acts ! i = a"
  shows "\<exists>m. schedule step settled m (acts, s) (acts[i := b], s')"
  using run i
proof (induction k arbitrary: a s acts)
  case 0
  then have "acts[i := b] = acts" "s = s'" by auto
  then show ?case by (auto intro: start)
next
  case (Suc k)
  obtain a1 s1 where one: "step (a, s) = (a1, s1)" by fastforce
  then have rest: "(step ^^ k) (a1, s1) = (b, s')" using Suc.prems(1) by (simp add: funpow_swap1)
  show ?case
  proof (cases "settled a")
    case True
    then show ?thesis using Suc.IH [of a s acts] Suc.prems(2,3) rest one stop [OF True, of s] by simp
  next
    case False
    then have "interleave step settled (acts, s) (acts[i := a1], s1)"
      using Suc.prems(2,3) one by (intro move) simp_all
    moreover obtain m where "schedule step settled m (acts[i := a1], s1) (acts[i := a1, i := b], s')"
      using Suc.IH [OF rest, of "acts[i := a1]"] Suc.prems(2) by auto
    ultimately show ?thesis using schedule_first by fastforce
  qed
qed

section \<open>Invariants of every schedule\<close>

locale task_invariant =
  fixes step :: "'a \<times> 's \<Rightarrow> 'a \<times> 's" and settled :: "'a \<Rightarrow> bool"
    and ok :: "'k \<Rightarrow> 'a \<Rightarrow> bool" and shared :: "'s \<Rightarrow> bool"
  assumes step_keeps: "\<lbrakk>shared s; ok k a; \<not> settled a; step (a, s) = (a', s')\<rbrakk> \<Longrightarrow> ok k a' \<and> shared s'"
begin

lemma interleave_keeps:
  assumes "interleave step settled sys sys'" "list_all2 ok ks (fst sys)" "shared (snd sys)"
  shows "list_all2 ok ks (fst sys') \<and> shared (snd sys')"
  using assms
proof cases
  case (move i acts s act s')
  then have "i < length ks" "ok (ks ! i) (acts ! i)"
    using assms(2) by (auto simp: list_all2_conv_all_nth)
  then have "ok (ks ! i) act \<and> shared s'"
    using step_keeps [OF _ _ move(4,5)] assms(3) move(1) by auto
  then show ?thesis
    using assms(2) move(1-3) by (auto simp: list_all2_conv_all_nth nth_list_update)
qed

lemma schedule_keeps:
  "schedule step settled m sys sys' \<Longrightarrow> list_all2 ok ks (fst sys) \<Longrightarrow> shared (snd sys) \<Longrightarrow>
   list_all2 ok ks (fst sys') \<and> shared (snd sys')"
  by (induction m sys sys' rule: schedule.induct) (use interleave_keeps in blast)+

end

section \<open>Executions\<close>

text \<open>
  An execution runs forever: at every moment some task moves, whichever it is, and when no task can
  move the system stays as it is.
\<close>

definition execution ::
  "('a \<times> 's \<Rightarrow> 'a \<times> 's) \<Rightarrow> ('a \<Rightarrow> bool) \<Rightarrow> (nat \<Rightarrow> ('a, 's) system) \<Rightarrow> bool" where
  "execution step settled run = (\<forall>i. interleave step settled (run i) (run (Suc i)) \<or>
     run (Suc i) = run i \<and> (\<forall>sys. \<not> interleave step settled (run i) sys))"

lemma execution_steps:
  assumes "execution step settled run"
  shows "schedule step settled n (run 0) (run n) \<or>
    (\<exists>k<n. schedule step settled k (run 0) (run k) \<and> (\<forall>sys. \<not> interleave step settled (run k) sys))"
proof (induction n)
  case (Suc n)
  show ?case
  proof (cases "schedule step settled n (run 0) (run n)")
    case True
    then show ?thesis
      using assms unfolding execution_def by (metis lessI schedule.more)
  next
    case False
    then show ?thesis using Suc by (meson less_SucI)
  qed
qed (simp add: start)

lemma execution_stuck:
  assumes "execution step settled run" "\<forall>sys. \<not> interleave step settled (run k) sys" "k \<le> j"
  shows "run j = run k"
  using assms(3)
proof (induction j rule: dec_induct)
  case (step j)
  then show ?case using assms(1,2) unfolding execution_def by metis
qed simp

locale terminating_tasks = task_invariant +
  fixes remaining :: "'a \<Rightarrow> nat"
  assumes step_decreases:
    "\<lbrakk>shared s; ok k a; \<not> settled a; step (a, s) = (a', s')\<rbrakk> \<Longrightarrow> remaining a' < remaining a"
begin

definition work :: "('a, 'b) system \<Rightarrow> nat" where
  "work sys = sum_list (map remaining (fst sys))"

lemma interleave_decreases:
  assumes "interleave step settled sys sys'" "list_all2 ok ks (fst sys)" "shared (snd sys)"
  shows "work sys' < work sys"
  using assms
proof cases
  case (move i acts s act s')
  have "i < length ks" "ok (ks ! i) (acts ! i)"
    using assms(2) move by (auto simp: list_all2_conv_all_nth)
  then have "remaining act < remaining (acts ! i)"
    using step_decreases [OF _ _ move(4,5)] assms(3) move(1) by auto
  moreover have "remaining (acts ! i) \<le> sum_list (map remaining acts)"
    using elem_le_sum_list [of i "map remaining acts"] move(3) by simp
  ultimately show ?thesis
    using sum_list_update [of i "map remaining acts" "remaining act"] move(1-3)
    by (simp add: work_def map_update)
qed

lemma schedule_bound:
  "schedule step settled m sys sys' \<Longrightarrow> list_all2 ok ks (fst sys) \<Longrightarrow> shared (snd sys) \<Longrightarrow>
   m + work sys' \<le> work sys"
proof (induction m sys sys' rule: schedule.induct)
  case (more m sys sys' sys'')
  then have "list_all2 ok ks (fst sys') \<and> shared (snd sys')" by (intro schedule_keeps)
  then show ?case using more interleave_decreases [OF more.hyps(2)] by fastforce
qed simp

lemma execution_settles:
  assumes run: "execution step settled run" "run 0 = (acts, s)" and init: "list_all2 ok ks acts" "shared s"
  shows "\<exists>k \<le> sum_list (map remaining acts). \<forall>j\<ge>k.
    list_all2 (\<lambda>k a. ok k a \<and> settled a) ks (fst (run j)) \<and> shared (snd (run j))"
proof -
  let ?bound = "sum_list (map remaining acts)"
  have init': "list_all2 ok ks (fst (run 0))" "shared (snd (run 0))" using run(2) init by simp_all
  have bound: "m \<le> ?bound" if "schedule step settled m (run 0) sys" for m sys
    using schedule_bound [OF that init'] by (simp add: work_def run(2))
  obtain k where k: "k \<le> ?bound" "schedule step settled k (run 0) (run k)"
      "\<forall>sys. \<not> interleave step settled (run k) sys"
    using execution_steps [OF run(1), of "Suc ?bound"] bound [of "Suc ?bound" "run (Suc ?bound)"]
    by (auto simp: less_Suc_eq_le)
  have "list_all settled (fst (run k))"
    using k(3) interleave_progress [of settled "fst (run k)" step "snd (run k)"] by (metis prod.collapse)
  then have "list_all2 (\<lambda>k a. ok k a \<and> settled a) ks (fst (run k)) \<and> shared (snd (run k))"
    using schedule_keeps [OF k(2) init'] by (auto simp: list_all2_conv_all_nth list_all_length)
  then show ?thesis using execution_stuck [OF run(1) k(3)] k(1) by metis
qed

end

section \<open>Running a system\<close>

text \<open>Running a given order of moves; the number of a task that has settled is skipped.\<close>

fun run_schedule ::
  "('a \<times> 's \<Rightarrow> 'a \<times> 's) \<Rightarrow> ('a \<Rightarrow> bool) \<Rightarrow> nat list \<Rightarrow> ('a, 's) system \<Rightarrow> ('a, 's) system" where
  "run_schedule step settled [] sys = sys"
| "run_schedule step settled (i # is) (acts, s) =
     (if i < length acts \<and> \<not> settled (acts ! i) then
        (case step (acts ! i, s) of (act, s') \<Rightarrow> run_schedule step settled is (acts[i := act], s'))
      else run_schedule step settled is (acts, s))"

lemma run_schedule_schedule: "\<exists>m. schedule step settled m sys (run_schedule step settled is sys)"
proof (induction step settled "is" sys rule: run_schedule.induct)
  case (2 step settled i js acts s)
  show ?case
  proof (cases "i < length acts \<and> \<not> settled (acts ! i)")
    case True
    obtain act s' where a: "step (acts ! i, s) = (act, s')" by fastforce
    then have "interleave step settled (acts, s) (acts[i := act], s')"
      using True by (intro move) simp_all
    moreover obtain m where "schedule step settled m (acts[i := act], s')
        (run_schedule step settled js (acts[i := act], s'))"
      using 2(1) [OF True a [symmetric]] by auto
    ultimately have "schedule step settled (Suc m) (acts, s) (run_schedule step settled js (acts[i := act], s'))"
      by (rule schedule_first)
    then show ?thesis using True a by auto
  next
    case False
    then show ?thesis using 2(2) by auto
  qed
qed (auto intro: schedule.intros)

text \<open>The execution that always moves the first task that has not settled.\<close>

definition first_moves ::
  "('a \<times> 's \<Rightarrow> 'a \<times> 's) \<Rightarrow> ('a \<Rightarrow> bool) \<Rightarrow> ('a, 's) system \<Rightarrow> ('a, 's) system" where
  "first_moves step settled = (\<lambda>(acts, s).
     (case find (\<lambda>i. \<not> settled (acts ! i)) [0..<length acts] of
        None \<Rightarrow> (acts, s)
      | Some i \<Rightarrow> (case step (acts ! i, s) of (act, s') \<Rightarrow> (acts[i := act], s'))))"

lemma first_moves_execution: "execution step settled (\<lambda>i. (first_moves step settled ^^ i) sys)"
  unfolding execution_def
proof
  fix i
  obtain acts s where s: "(first_moves step settled ^^ i) sys = (acts, s)" by fastforce
  have "interleave step settled (acts, s) (first_moves step settled (acts, s)) \<or>
    first_moves step settled (acts, s) = (acts, s) \<and> (\<forall>sys. \<not> interleave step settled (acts, s) sys)"
  proof (cases "find (\<lambda>i. \<not> settled (acts ! i)) [0..<length acts]")
    case None
    then have "\<forall>i<length acts. settled (acts ! i)" by (simp add: find_None_iff)
    then show ?thesis using None by (auto simp: first_moves_def elim!: interleaveE)
  next
    case (Some j)
    then have "j < length acts" "\<not> settled (acts ! j)" by (auto simp: find_Some_iff)
    then show ?thesis
      using Some by (auto simp: first_moves_def intro!: move split: prod.split)
  qed
  then show "interleave step settled ((first_moves step settled ^^ i) sys) ((first_moves step settled ^^ Suc i) sys) \<or>
      (first_moves step settled ^^ Suc i) sys = (first_moves step settled ^^ i) sys \<and>
      (\<forall>sys'. \<not> interleave step settled ((first_moves step settled ^^ i) sys) sys')"
    by (simp add: s)
qed

end
