(* ===== verification/Soroban_Concurrency.thy ===== *)
theory Soroban_Concurrency
  imports Soroban_Cache Interleaving
begin

text \<open>
  Concurrent calls of \<open>getEvents\<close> on one \<open>SorobanServer\<close>. \<open>StellarApi.fetchBlocks\<close> starts one fetch
  per ledger and awaits them together, so the calls share the event cache and interleave at every
  \<open>await\<close> of a server response; between two awaits a call runs undisturbed.

  An \<open>activity\<close> is a call in progress and \<open>activity_step\<close> what it does between two awaits; a system
  of calls is one of \<open>Interleaving\<close>. The lemmas connect a call that runs alone with \<open>getEvents\<close>, show
  that a step keeps the invariant of a call and brings its end nearer, and interpret the contracts
  of \<open>Interleaving\<close> with them; the properties at the end say that every schedule ends with every call
  holding exactly the events of its ledger.
\<close>

section \<open>Calls in progress\<close>

datatype 'v activity =
    Called GetEventsRequest
  | Fetching int GetEventsRequest "'v EventResponse list"
  | Finished "'v CachedEventsResponse result"

fun activity_step ::
  "'v EventResponse lodash \<Rightarrow> ('w, 'v) rpc_server \<Rightarrow> 'v activity \<times> 'v eventsCache \<times> 'w \<Rightarrow>
   'v activity \<times> 'v eventsCache \<times> 'w" where
  "activity_step lo rpc (Called request, cache, w) =
     (case startLedger request of
        None \<Rightarrow> (Finished (Inl (Error ''Get soraban event failed, block sequence is missing'')), cache, w)
      | Some seq \<Rightarrow>
          (case cache seq of
             Some cachedEvents \<Rightarrow> (Finished (Inr cachedEvents), cache(seq := None), w)
           | None \<Rightarrow>
               (Fetching seq
                 (request\<lparr>endLedger := Some (case endLedger request of None \<Rightarrow> seq + 1 | Some e \<Rightarrow> e)\<rparr>) [],
                cache, w)))"
| "activity_step lo rpc (Fetching seq request acc, cache, w) =
     (case rpc request w of
        (Inl e, w') \<Rightarrow> (Finished (Inl e), cache, w')
      | (Inr response, w') \<Rightarrow>
          (case handle_response lo seq request acc response of
             Throw e \<Rightarrow> (Finished (Inl e), cache, w')
           | Return events eventsToCache \<Rightarrow>
               (Finished (Inr events), updateEventCache eventsToCache (Some seq) cache, w')
           | Continue request' newEvents \<Rightarrow> (Fetching seq request' newEvents, cache, w')))"
| "activity_step lo rpc (Finished r, cache, w) = (Finished r, cache, w)"

fun finished :: "'v activity \<Rightarrow> bool" where
  "finished (Finished r) = True"
| "finished _ = False"

text \<open>A call that runs alone does what \<open>getEvents\<close> does.\<close>

lemma fetch_alone:
  fixes rpc :: "('w, 'v) rpc_server"
  assumes "fetchEventsForSequence lo rpc s req acc w = Some res"
  shows "\<exists>k. (activity_step lo rpc ^^ k) (Fetching s req acc, cache, w) =
    (case res of
       (Inl e, w') \<Rightarrow> (Finished (Inl e), cache, w')
     | (Inr (evs, tc), w') \<Rightarrow> (Finished (Inr evs), updateEventCache tc (Some s) cache, w'))"
proof -
  define P where "P = (\<lambda>l (r :: ('w, 'v) rpc_server) s (q :: GetEventsRequest) acc (w :: 'w)
      (res :: ('v CachedEventsResponse \<times> 'v CachedEventsResponse) result \<times> 'w).
    \<exists>k. (activity_step l r ^^ k) (Fetching s q acc, cache, w) =
    (case res of
       (Inl e, w') \<Rightarrow> (Finished (Inl e), cache, w')
     | (Inr (evs, tc), w') \<Rightarrow> (Finished (Inr evs), updateEventCache tc (Some s) cache, w')))"
  have once: "\<exists>k. (f ^^ k) x = y" if "f x = y" for f and x y :: "'v activity \<times> 'v eventsCache \<times> 'w"
    using that by (intro exI [of _ 1]) simp
  have "P lo rpc s req acc w res"
  proof (rule fetchEventsForSequence.raw_induct [where P = P, OF _ assms])
    fix fetch l r s q acc w res
    assume IH: "\<And>l r s q acc w res. fetch l r s q acc w = Some res \<Longrightarrow> P l r s q acc w res"
      and eq: "(case r q w of (Inl e, w') \<Rightarrow> Some (Inl e, w')
      | (Inr response, w') \<Rightarrow>
          (case handle_response l s q acc response of
             Return events eventsToCache \<Rightarrow> Some (Inr (events, eventsToCache), w')
           | Throw e \<Rightarrow> Some (Inl e, w')
           | Continue request' newEvents \<Rightarrow> fetch l r s request' newEvents w')) = Some res"
    show "P l r s q acc w res"
    proof (cases "\<exists>response w1 q' acc'. r q w = (Inr response, w1) \<and>
        handle_response l s q acc response = Continue q' acc'")
      case True
      then obtain response w1 q' acc' where go: "r q w = (Inr response, w1)"
          "handle_response l s q acc response = Continue q' acc'" by blast
      then have "P l r s q' acc' w1 res" using eq by (intro IH) simp
      then obtain k where k: "(activity_step l r ^^ k) (Fetching s q' acc', cache, w1) =
        (case res of
           (Inl e, w') \<Rightarrow> (Finished (Inl e), cache, w')
         | (Inr (evs, tc), w') \<Rightarrow> (Finished (Inr evs), updateEventCache tc (Some s) cache, w'))"
        unfolding P_def by blast
      have "activity_step l r (Fetching s q acc, cache, w) = (Fetching s q' acc', cache, w1)"
        using go by simp
      with k have "(activity_step l r ^^ Suc k) (Fetching s q acc, cache, w) =
        (case res of
           (Inl e, w') \<Rightarrow> (Finished (Inl e), cache, w')
         | (Inr (evs, tc), w') \<Rightarrow> (Finished (Inr evs), updateEventCache tc (Some s) cache, w'))"
        by (simp only: funpow_Suc_right o_apply)
      then show ?thesis unfolding P_def by blast
    next
      case False
      then show ?thesis
        unfolding P_def using eq
        by (intro once) (auto split: prod.splits sum.splits page_outcome.splits)
    qed
  qed
  then show ?thesis by (simp only: P_def)
qed

lemma getEvents_alone:
  assumes "getEvents lo rpc req cache w = Some (res, cache', w')"
  shows "\<exists>k. (activity_step lo rpc ^^ k) (Called req, cache, w) = (Finished res, cache', w')"
proof (cases "\<exists>s. startLedger req = Some s \<and> cache s = None")
  case True
  then obtain s where s: "startLedger req = Some s" "cache s = None" by blast
  let ?req = "req\<lparr>endLedger := Some (case endLedger req of None \<Rightarrow> s + 1 | Some e \<Rightarrow> e)\<rparr>"
  note miss = getEvents_miss [where lo = lo and rpc = rpc and w = w and req = req and cache = cache and s = s, OF s]
  obtain r where r: "fetchEventsForSequence lo rpc s ?req [] w = Some r"
    using assms by (auto simp: miss split: option.splits)
  obtain k where "(activity_step lo rpc ^^ k) (Fetching s ?req [], cache, w) =
    (case r of
       (Inl e, w') \<Rightarrow> (Finished (Inl e), cache, w')
     | (Inr (evs, tc), w') \<Rightarrow> (Finished (Inr evs), updateEventCache tc (Some s) cache, w'))"
    using fetch_alone [OF r] by blast
  moreover have "activity_step lo rpc (Called req, cache, w) = (Fetching s ?req [], cache, w)"
    using s by simp
  ultimately have "(activity_step lo rpc ^^ Suc k) (Called req, cache, w) = (Finished res, cache', w')"
    using assms r by (auto simp: miss funpow_Suc_right
        simp del: funpow.simps activity_step.simps split: prod.splits sum.splits)
  then show ?thesis by blast
next
  case False
  then have "(activity_step lo rpc ^^ 1) (Called req, cache, w) = (Finished res, cache', w')"
    using assms by (auto simp: getEvents_def Let_def split: option.splits)
  then show ?thesis by blast
qed

section \<open>The invariant\<close>

text \<open>
  What a call for ledger \<open>s\<close> with page limit \<open>n\<close> has reached, and how many more steps it may make.
\<close>

fun call_ok ::
  "'v EventResponse list \<Rightarrow> (string \<Rightarrow> nat) \<Rightarrow> nat \<Rightarrow> int \<Rightarrow> 'v activity \<Rightarrow> bool" where
  "call_ok log pos n s (Called req) \<longleftrightarrow> req = ledger_request s n"
| "call_ok log pos n s (Fetching s' req acc) \<longleftrightarrow>
     s' = s \<and> valid_request req \<and> limit req = Some n \<and>
     fetch_inv log s (fst (window_of log pos req)) (snd (window_of log pos req)) acc"
| "call_ok log pos n s (Finished r) \<longleftrightarrow> returned_events r = Some (events_of log s)"

fun remaining :: "'v EventResponse list \<Rightarrow> (string \<Rightarrow> nat) \<Rightarrow> 'v activity \<Rightarrow> nat" where
  "remaining log pos (Called req) = length log + 2"
| "remaining log pos (Fetching s req acc) = length log - fst (window_of log pos req) + 1"
| "remaining log pos (Finished r) = 0"

declare window_of.simps [simp del]

lemma window_next: "window_of log pos (next_request req c) = (pos c, length log)"
  by (simp add: window_of.simps)

lemma updateEventCache_nothing: "cached_events tc = [] \<Longrightarrow> updateEventCache tc ign cache = cache"
  by (simp add: updateEventCache_def)

text \<open>For a server with pages of any size: a call that fetches gets the events of its ledger.\<close>

context honest_rpc
begin

lemma fetching_progress:
  assumes lo: "lodash_events lo"
    and ok: "call_ok log pos n s (Fetching s req acc)"
    and step: "activity_step lo rpc (Fetching s req acc, cache, w) = (act', cache', w')"
  shows "call_ok log pos n s act'" "remaining log pos act' < remaining log pos (Fetching s req acc)"
    "cache' = cache \<or> (\<exists>tc latest. cached_from rpc log pos s req tc \<and>
      cache' = updateEventCache \<lparr>cached_events = tc, cached_latestLedger = latest\<rparr> (Some s) cache)"
proof -
  obtain p q where win: "window_of log pos req = (p, q)" by fastforce
  have v: "valid_request req" "limit req = Some n" and inv: "fetch_inv log s p q acc"
    using ok win by simp_all
  have pq: "p \<le> q" "q \<le> length log" using inv by (simp_all add: fetch_inv_def)
  obtain r w1 k where r: "rpc req w = (Inr r, w1)" and page: "response_events r = take k (drop p log)"
      and k: "p + k \<le> q" "k = 0 \<longrightarrow> p = q" and cur: "pos (response_cursor r) = p + k"
    using serves [OF v(1) win pq] by blast
  let ?page = "response_events r"
  note h = handle_response_eq [OF lo, unfolded Let_def]
  have "call_ok log pos n s act' \<and> remaining log pos act' < remaining log pos (Fetching s req acc) \<and>
    (cache' = cache \<or> (\<exists>tc latest. cached_from rpc log pos s req tc \<and>
      cache' = updateEventCache \<lparr>cached_events = tc, cached_latestLedger = latest\<rparr> (Some s) cache))"
  proof (cases "filter (\<lambda>e. ev_ledger e \<noteq> s) ?page = []")
    case False
    then obtain x where x: "x \<in> set (take k (drop p log))" "ev_ledger x \<noteq> s"
      unfolding page by (auto simp: filter_empty_conv)
    have "acc @ events_of ?page s = events_of log s"
      unfolding page using fetch_inv_complete [OF log_sorted inv x] by simp
    moreover have "cached_from rpc log pos s req (to_cache (page_limit req) s ?page)"
      unfolding cached_from_def using v win inv r page k(1) by blast
    ultimately show ?thesis using step False by (auto simp: r h)
  next
    case True
    then have same: "\<forall>x\<in>set (take k (drop p log)). ev_ledger x = s"
      by (simp add: filter_empty_conv page)
    show ?thesis
    proof (cases "?page = []")
      case empty: True
      then have "p = q" using page k pq by auto
      then have "acc = events_of log s" using fetch_inv_exhausted inv by blast
      then show ?thesis
        using step empty by (auto simp: r h events_of_def updateEventCache_nothing)
    next
      case nonempty: False
      then have "0 < k" "p < length log" unfolding page by simp_all
      moreover have "fetch_inv log s (p + k) (length log) (acc @ events_of ?page s)"
        unfolding page by (rule fetch_inv_step [OF inv k(1) same])
      moreover have "valid_request (next_request req (response_cursor r))"
        using v(1) by (simp add: valid_request_def)
      moreover have "act' = Fetching s (next_request req (response_cursor r)) (acc @ events_of ?page s)"
        "cache' = cache"
        using step True nonempty by (auto simp: r h)
      ultimately show ?thesis
        using v(2) win cur by (simp add: window_next)
    qed
  qed
  then show "call_ok log pos n s act'" "remaining log pos act' < remaining log pos (Fetching s req acc)"
    "cache' = cache \<or> (\<exists>tc latest. cached_from rpc log pos s req tc \<and>
      cache' = updateEventCache \<lparr>cached_events = tc, cached_latestLedger = latest\<rparr> (Some s) cache)"
    by blast+
qed

lemma called_progress:
  assumes "0 < n" "activity_step lo rpc (Called (ledger_request s n), cache, w) = (act', cache', w')"
  shows "(case cache s of
      None \<Rightarrow> call_ok log pos n s act' \<and> cache' = cache
    | Some c \<Rightarrow> act' = Finished (Inr c) \<and> cache' = cache(s := None)) \<and>
    remaining log pos act' < remaining log pos (Called (ledger_request s n))"
proof (cases "cache s")
  case None
  then have "act' = Fetching s ((ledger_request s n)\<lparr>endLedger := Some (s + 1)\<rparr>) []" "cache' = cache"
    using assms(2) by (simp_all add: ledger_request_def)
  then show ?thesis
    using None assms(1) fetch_inv_init [OF log_sorted, of s "s + 1"]
    by (simp add: ledger_request_def valid_request_def window_of.simps)
qed (use assms(2) in \<open>auto simp: ledger_request_def\<close>)

end

text \<open>With full pages the cache stays sound as well.\<close>

context full_page_rpc
begin

lemma called_step:
  assumes "cache_sound log cache" "0 < n"
    and "activity_step lo rpc (Called (ledger_request s n), cache, w) = (act', cache', w')"
  shows "call_ok log pos n s act' \<and> cache_sound log cache' \<and>
    remaining log pos act' < remaining log pos (Called (ledger_request s n))"
  using called_progress [OF assms(2,3)] assms(1) cache_sound_remove [OF assms(1), of s]
  by (cases "cache s") (simp_all add: cache_sound_def)

lemma fetching_step:
  assumes lo: "lodash_events lo" and sound: "cache_sound log cache" and n: "n \<le> maxLimit"
    and ok: "call_ok log pos n s (Fetching s req acc)"
    and step: "activity_step lo rpc (Fetching s req acc, cache, w) = (act', cache', w')"
  shows "call_ok log pos n s act' \<and> cache_sound log cache' \<and>
    remaining log pos act' < remaining log pos (Fetching s req acc)"
proof -
  have "limit req = Some n" using ok by simp
  then have "cache_sound log (updateEventCache \<lparr>cached_events = tc, cached_latestLedger = latest\<rparr> (Some s) cache)"
    if "cached_from rpc log pos s req tc" for tc latest
    using cached_from_complete [OF that _ n] by (intro updateEventCache_sound [OF sound]) blast+
  then show ?thesis using fetching_progress [OF lo ok step] sound by blast
qed

lemma activity_step_ok:
  assumes "lodash_events lo" "cache_sound log cache" "0 < n" "n \<le> maxLimit"
    and "call_ok log pos n s act" "\<not> finished act"
    and "activity_step lo rpc (act, cache, w) = (act', cache', w')"
  shows "call_ok log pos n s act' \<and> cache_sound log cache' \<and> remaining log pos act' < remaining log pos act"
proof (cases act)
  case (Called req)
  then show ?thesis using called_step [OF assms(2,3)] assms(5,7) by simp
next
  case (Fetching s' req acc)
  then have "s' = s" using assms(5) by simp
  then show ?thesis
    using fetching_step [OF assms(1,2,4), of s req acc] assms(5,7) Fetching by simp
qed (use assms(6) in simp)

end

lemma calls_work:
  "sum_list (map (remaining log pos) (map (\<lambda>s. Called (ledger_request s n)) ss)) = length ss * (length log + 2)"
  by (simp add: comp_def sum_list_triv)

locale concurrent_calls =
  full_page_rpc rpc log pos maxLimit + lodash_events lo
  for rpc :: "('w, 'v) rpc_server" and log pos maxLimit and lo :: "'v EventResponse lodash" +
  fixes n :: nat
  assumes limit_ok: "0 < n" "n \<le> maxLimit"

sublocale concurrent_calls \<subseteq> calls:
  terminating_tasks "activity_step lo rpc" finished "call_ok log pos n" "cache_sound log \<circ> fst" "remaining log pos"
proof
  show "call_ok log pos n k act' \<and> (cache_sound log \<circ> fst) s'" "remaining log pos act' < remaining log pos act"
    if "(cache_sound log \<circ> fst) s" "call_ok log pos n k act" "\<not> finished act"
      and "activity_step lo rpc (act, s) = (act', s')"
    for k act act' and s s' :: "'v eventsCache \<times> 'w"
    using that activity_step_ok [OF lodash_events_axioms _ limit_ok, of "fst s" k act "snd s" act' "fst s'" "snd s'"]
    by simp_all
qed

context concurrent_calls
begin

lemma initial_calls: "list_all2 (call_ok log pos n) ss (map (\<lambda>s. Called (ledger_request s n)) ss)"
  by (simp add: list_all2_conv_all_nth)

lemma schedule_result:
  assumes "cache_sound log cache"
    and "schedule (activity_step lo rpc) finished m (map (\<lambda>s. Called (ledger_request s n)) ss, cache, w) (acts, cache', w')"
  shows "m \<le> length ss * (length log + 2) \<and> cache_sound log cache' \<and> list_all2 (call_ok log pos n) ss acts"
  using calls.schedule_bound [OF assms(2), unfolded calls.work_def fst_conv calls_work]
    calls.schedule_keeps [OF assms(2)] assms(1) initial_calls [of ss]
  by fastforce

lemma execution_result:
  assumes "cache_sound log cache" "execution (activity_step lo rpc) finished run"
    and "run 0 = (map (\<lambda>s. Called (ledger_request s n)) ss, cache, w)"
  shows "\<exists>k \<le> length ss * (length log + 2). \<forall>j\<ge>k.
    list_all2 (\<lambda>s act. call_ok log pos n s act \<and> finished act) ss (fst (run j))"
  using calls.execution_settles [OF assms(2,3) initial_calls] assms(1)
  unfolding calls_work by auto

end

lemma concurrent_callsI:
  assumes "lodash_events lo" "full_page_rpc rpc log pos maxLimit" "0 < n" "n \<le> maxLimit"
  shows "concurrent_calls rpc log pos maxLimit lo n"
  using assms by (intro concurrent_calls.intro concurrent_calls_axioms.intro)

interpretation sample_calls: concurrent_calls "log_rpc 200 sample_log" sample_log length 200 reference_lodash 3
  by unfold_locales simp_all

text \<open>
  Without any assumption about the server: what a call for request \<open>req\<close> holds belongs to its ledger,
  and the cache stays well formed.
\<close>

fun own_only :: "GetEventsRequest \<Rightarrow> 'v activity \<Rightarrow> bool" where
  "own_only req (Called r) \<longleftrightarrow> r = req"
| "own_only req (Fetching s r acc) \<longleftrightarrow> startLedger req = Some s \<and> (\<forall>e\<in>set acc. ev_ledger e = s)"
| "own_only req (Finished r) \<longleftrightarrow>
     (\<forall>c. r = Inr c \<longrightarrow> (\<forall>e\<in>set (cached_events c). startLedger req = Some (ev_ledger e)))"

lemma events_of_own: "e \<in> set (events_of page s) \<Longrightarrow> ev_ledger e = s"
  by (simp add: events_of_def)

lemma activity_step_own:
  assumes lo: "lodash_events lo" and "cache_wf cache" "own_only req act"
    and "activity_step lo rpc (act, cache, w) = (act', cache', w')"
  shows "cache_wf cache' \<and> own_only req act'"
proof (cases act)
  case (Called r)
  then show ?thesis
    using assms(2-4) by (auto simp: cache_wf_remove split: option.splits) (auto simp: cache_wf_def)
next
  case (Fetching s r acc)
  then have acc: "startLedger req = Some s" "\<forall>e\<in>set acc. ev_ledger e = s" using assms(3) by auto
  obtain res w1 where res: "rpc r w = (res, w1)" by fastforce
  show ?thesis
  proof (cases res)
    case (Inr response)
    then show ?thesis
      using assms(2,4) acc Fetching res events_of_own
        handle_response_own [OF lo, of s r acc response]
      by (cases "handle_response lo s r acc response") (fastforce intro: updateEventCache_wf)+
  qed (use assms(2,4) acc Fetching res in auto)
qed (use assms in auto)

lemma own_calls:
  assumes "lodash_events lo"
  shows "task_invariant (activity_step lo rpc) finished own_only (cache_wf \<circ> fst)"
proof
  fix s s' :: "'a eventsCache \<times> 'b" and k act act'
  assume "(cache_wf \<circ> fst) s" "own_only k act" "activity_step lo rpc (act, s) = (act', s')"
  then show "own_only k act' \<and> (cache_wf \<circ> fst) s'"
    using activity_step_own [OF assms, of "fst s" k act rpc "snd s" act' "fst s'" "snd s'"] by auto
qed

interpretation reference_calls:
  task_invariant "activity_step reference_lodash rpc" finished own_only "cache_wf \<circ> fst"
  for rpc :: "('w, 'v) rpc_server"
  by (rule own_calls [OF reference_lodash.lodash_events_axioms])

section \<open>Servers with pages of any size\<close>

text \<open>
  For an honest server whose pages may be short the cache need not be sound, but every call still
  comes nearer to its end with each step, and ends without an error.
\<close>

definition call_live ::
  "'v EventResponse list \<Rightarrow> (string \<Rightarrow> nat) \<Rightarrow> nat \<Rightarrow> int \<Rightarrow> 'v activity \<Rightarrow> bool" where
  "call_live log pos n s act \<longleftrightarrow>
     (case act of Finished r \<Rightarrow> \<not> isl r | _ \<Rightarrow> call_ok log pos n s act) \<and> own_only (ledger_request s n) act"

lemma call_ok_live: "call_ok log pos n s act \<Longrightarrow> own_only (ledger_request s n) act \<Longrightarrow> call_live log pos n s act"
  by (auto simp: call_live_def returned_events_def split: activity.split sum.splits)

lemma call_live_finished:
  "call_live log pos n s act \<and> finished act \<longleftrightarrow>
     (\<exists>c. act = Finished (Inr c) \<and> (\<forall>e\<in>set (cached_events c). ev_ledger e = s))"
proof (cases act)
  case (Finished r)
  then show ?thesis by (cases r) (auto simp: call_live_def ledger_request_def)
qed simp_all

locale honest_calls =
  honest_rpc rpc log pos + lodash_events lo
  for rpc :: "('w, 'v) rpc_server" and log pos and lo :: "'v EventResponse lodash" +
  fixes n :: nat
  assumes limit_pos: "0 < n"
begin

lemma activity_step_live:
  assumes "cache_wf cache" "call_live log pos n s act" "\<not> finished act"
    and step: "activity_step lo rpc (act, cache, w) = (act', cache', w')"
  shows "call_live log pos n s act' \<and> cache_wf cache' \<and> remaining log pos act' < remaining log pos act"
proof -
  have own: "cache_wf cache' \<and> own_only (ledger_request s n) act'"
    using activity_step_own [OF lodash_events_axioms assms(1) _ step] assms(2) unfolding call_live_def by blast
  show ?thesis
  proof (cases act)
    case (Called req)
    then have req: "req = ledger_request s n" using assms(2) by (simp add: call_live_def)
    show ?thesis
      using called_progress [OF limit_pos step [unfolded Called req]] own Called req
      by (cases "cache s") (auto simp: call_ok_live, simp add: call_live_def)
  next
    case (Fetching s' req acc)
    then have "s' = s" "call_ok log pos n s (Fetching s req acc)" using assms(2) by (auto simp: call_live_def)
    then show ?thesis
      using fetching_progress(1,2) [OF lodash_events_axioms _ step [unfolded Fetching]] own Fetching
      by (simp add: call_ok_live)
  qed (use assms(3) in simp)
qed

end

sublocale honest_calls \<subseteq> live:
  terminating_tasks "activity_step lo rpc" finished "call_live log pos n" "cache_wf \<circ> fst" "remaining log pos"
proof
  show "call_live log pos n k act' \<and> (cache_wf \<circ> fst) s'" "remaining log pos act' < remaining log pos act"
    if "(cache_wf \<circ> fst) s" "call_live log pos n k act" "\<not> finished act"
      and "activity_step lo rpc (act, s) = (act', s')"
    for k act act' and s s' :: "'v eventsCache \<times> 'w"
    using that activity_step_live [of "fst s" k act "snd s" act' "fst s'" "snd s'"] by simp_all
qed

context honest_calls
begin

lemma live_result:
  assumes "cache_wf cache" "execution (activity_step lo rpc) finished run"
    and "run 0 = (map (\<lambda>s. Called (ledger_request s n)) ss, cache, w)"
  shows "\<exists>k \<le> length ss * (length log + 2). \<forall>j\<ge>k.
    list_all2 (\<lambda>s act. call_live log pos n s act \<and> finished act) ss (fst (run j))"
proof -
  have init: "list_all2 (call_live log pos n) ss (map (\<lambda>s. Called (ledger_request s n)) ss)"
    by (simp add: list_all2_conv_all_nth call_live_def)
  show ?thesis using live.execution_settles [OF assms(2,3) init] assms(1) unfolding calls_work by auto
qed

end

interpretation sample_live: honest_calls "log_rpc 1 sample_log" sample_log length reference_lodash 3
  by (intro honest_calls.intro honest_calls_axioms.intro log_rpc_honest sample_log_ok(1)
      reference_lodash.lodash_events_axioms) simp_all

section \<open>Properties\<close>

text \<open>
  C8: However concurrent calls interleave, each returns exactly the events of its ledger, for a server
  whose pages are full up to \<open>maxLimit\<close>, calls that name a limit not above it, and a sound cache: every
  schedule of calls for the ledgers \<open>ss\<close> has at most
  \<open>length ss * (length log + 2)\<close> steps, is stuck only when all calls have finished, and a call that
  has finished holds the events of its ledger in log order.
\<close>

theorem concurrent_getEvents:
  assumes "lodash_events lo" "full_page_rpc rpc log pos maxLimit" "0 < n" "n \<le> maxLimit"
    and "cache_sound log cache"
    and "schedule (activity_step lo rpc) finished m (map (\<lambda>s. Called (ledger_request s n)) ss, cache, w) (acts, cache', w')"
  shows "m \<le> length ss * (length log + 2) \<and> cache_sound log cache' \<and>
    ((\<forall>sys. \<not> interleave (activity_step lo rpc) finished (acts, cache', w') sys) \<longrightarrow> list_all finished acts) \<and>
    list_all2 (\<lambda>s act. \<forall>r. act = Finished r \<longrightarrow> returned_events r = Some (events_of log s)) ss acts"
proof -
  note res = concurrent_calls.schedule_result [OF concurrent_callsI [OF assms(1-4)] assms(5,6)]
  have "list_all2 (\<lambda>s act. \<forall>r. act = Finished r \<longrightarrow> returned_events r = Some (events_of log s)) ss acts"
    using res by (auto elim: list_all2_mono)
  moreover have "list_all finished acts" if "\<forall>sys. \<not> interleave (activity_step lo rpc) finished (acts, cache', w') sys"
    using that interleave_progress [of finished acts "activity_step lo rpc" "(cache', w')"] by blast
  ultimately show ?thesis using res by blast
qed

definition sample_run :: "(js_value activity, js_value eventsCache \<times> nat) system" where
  "sample_run = run_schedule (activity_step reference_lodash (log_rpc 200 sample_log)) finished [0, 1, 0, 0, 2, 1, 1]
     (map (\<lambda>s. Called (ledger_request s 3)) [1, 2, 2], \<lambda>_. None, 0)"

theorem concurrent_getEvents_witness:
  "list_all2 (\<lambda>s act. \<forall>r. act = Finished r \<longrightarrow> returned_events r = Some (events_of sample_log s)) [1, 2, 2]
     (fst sample_run) \<and> list_all finished (fst sample_run)"
proof -
  obtain acts cache w where run: "sample_run = (acts, cache, w)" by (rule prod_cases3)
  then obtain m where m: "schedule (activity_step reference_lodash (log_rpc 200 sample_log)) finished m
      (map (\<lambda>s. Called (ledger_request s 3)) [1, 2, 2], \<lambda>_. None, 0) (acts, cache, w)"
    using run_schedule_schedule [of "activity_step reference_lodash (log_rpc 200 sample_log)" finished] unfolding sample_run_def by metis
  have "list_all2 (\<lambda>s act. \<forall>r. act = Finished r \<longrightarrow> returned_events r = Some (events_of sample_log s)) [1, 2, 2] acts"
    using concurrent_getEvents [OF reference_lodash.lodash_events_axioms sample_rpc.full_page_rpc_axioms _ _ _ m]
    by simp
  moreover have "list_all finished (fst sample_run)" by code_simp
  ultimately show ?thesis by (simp only: run fst_conv simp_thms)
qed

text \<open>
  Concurrent fetches all complete. In every execution of calls of \<open>getEvents\<close> for the ledgers
  \<open>ss\<close>, from a sound cache and for an RPC server with full pages, there comes a moment, after at
  most \<open>length ss * (length log + 2)\<close> moves, from which on every call has returned, and each has
  returned exactly the events of its ledger.
\<close>

lemma concurrent_getEvents_complete:
  assumes "lodash_events lo" "full_page_rpc rpc log pos maxLimit" "0 < n" "n \<le> maxLimit"
    and "cache_sound log cache"
    and "execution (activity_step lo rpc) finished run" "run 0 = (map (\<lambda>s. Called (ledger_request s n)) ss, cache, w)"
  shows "\<exists>k \<le> length ss * (length log + 2). \<forall>j\<ge>k.
    list_all2 (\<lambda>s act. \<exists>r. act = Finished r \<and> returned_events r = Some (events_of log s)) ss (fst (run j))"
proof -
  have "list_all2 (\<lambda>s act. \<exists>r. act = Finished r \<and> returned_events r = Some (events_of log s)) ss acts"
    if "list_all2 (\<lambda>s act. call_ok log pos n s act \<and> finished act) ss acts" for acts
    using that by (rule list_all2_mono) (auto elim: finished.elims)
  then show ?thesis
    using concurrent_calls.execution_result [OF concurrent_callsI [OF assms(1-4)] assms(5-7)] by blast
qed

text \<open>
  C9: Concurrent calls end for every honest server, whatever the size of its pages, and from every
  well-formed cache: in every execution there comes a moment, after at most
  \<open>length ss * (length log + 2)\<close> moves, from which on every call has returned, without an error and
  with events of its own ledger only.
\<close>

theorem concurrent_getEvents_end:
  assumes "lodash_events lo" "honest_rpc rpc log pos" "0 < n" "cache_wf cache"
    and "execution (activity_step lo rpc) finished run"
    and "run 0 = (map (\<lambda>s. Called (ledger_request s n)) ss, cache, w)"
  shows "\<exists>k \<le> length ss * (length log + 2). \<forall>j\<ge>k.
    list_all2 (\<lambda>s act. \<exists>c. act = Finished (Inr c) \<and> (\<forall>e\<in>set (cached_events c). ev_ledger e = s)) ss (fst (run j))"
proof -
  have "honest_calls rpc log pos lo n"
    using assms(1-3) by (intro honest_calls.intro honest_calls_axioms.intro)
  from honest_calls.live_result [OF this assms(4-6)] show ?thesis unfolding call_live_finished .
qed

theorem concurrent_getEvents_end_witness:
  "\<exists>k \<le> length [1 :: int, 2] * (length sample_log + 2). \<forall>j\<ge>k.
     list_all2 (\<lambda>s act. \<exists>c. act = Finished (Inr c) \<and> (\<forall>e\<in>set (cached_events c). ev_ledger e = s)) [1, 2]
       (fst ((first_moves (activity_step reference_lodash (log_rpc 1 sample_log)) finished ^^ j)
          (map (\<lambda>s. Called (ledger_request s 3)) [1, 2], \<lambda>_. None, 0)))"
  using concurrent_getEvents_end [OF reference_lodash.lodash_events_axioms log_rpc_honest [OF sample_log_ok(1)] _
      cache_wf_empty first_moves_execution, where n = 3 and ss = "[1, 2]" and w = 0]
  by (simp del: list.size)

text \<open>
  Events of different ledgers never mix, whatever the RPC server answers and however the calls
  interleave: after any number of steps of concurrent calls of \<open>getEvents\<close> the cache is well formed
  (non-empty entries, each with events of its own ledger only and no id twice), and every call that
  has returned events has returned events of the ledger it was asked for only.
\<close>

lemma concurrent_only_own_ledger:
  assumes "lodash_events lo" "cache_wf cache"
    and "schedule (activity_step lo rpc) finished m (map Called reqs, cache, w) (acts, cache', w')"
  shows "cache_wf cache' \<and>
    list_all2 (\<lambda>req act. \<forall>c. act = Finished (Inr c) \<longrightarrow>
      (\<forall>e\<in>set (cached_events c). startLedger req = Some (ev_ledger e))) reqs acts"
proof -
  have "list_all2 own_only reqs (map Called reqs :: 'a activity list)"
    by (simp add: list_all2_conv_all_nth)
  then have "cache_wf cache'" "list_all2 own_only reqs acts"
    using task_invariant.schedule_keeps [OF own_calls [OF assms(1)] assms(3), of reqs] assms(2) by simp_all
  then show ?thesis by (auto elim: list_all2_mono)
qed

end
