(* ===== verification/Fetch_Concurrency.thy ===== *)
theory Fetch_Concurrency
  imports Api_Properties Soroban_Concurrency
begin

text \<open>
  \<open>StellarApi.fetchBlocks\<close> with its concurrency. \<open>Promise.all(bufferBlocks.map(...))\<close> starts
  \<open>fetchAndWrapLedger\<close> for every ledger; the calls share the event cache of the Soroban client and go
  on, at each \<open>await\<close>, in an order the servers decide.

  A \<open>ledger_fetch\<close> is a call of \<open>fetchAndWrapLedger\<close> in progress; while it awaits its events it
  contains the \<open>activity\<close> of \<open>getEvents\<close>. The records of Horizon do not depend on the moment they are
  asked for, so that the four concurrent requests for them are one step. The lemmas connect a
  fetch that runs alone with \<open>fetchAndWrapLedger\<close>, and the sequential \<open>fetch_all\<close> with one schedule
  of the batch; the contract \<open>terminating_tasks\<close> is interpreted for the fetches of a served chain.
\<close>

section \<open>Fetches in progress\<close>

type_synonym ledger_records =
  "LedgerRecord \<times> TransactionRecord list \<times> OperationRecord list \<times> EffectRecord list"

datatype 'v ledger_fetch =
    Requested int
  | Querying int ledger_records "'v activity"
  | Explaining int js_error
  | Settled "'v IBlock result"

text \<open>The events have arrived, or \<open>getAndWrapEvents\<close> has thrown and the \<open>catch\<close> block is next.\<close>

definition events_received ::
  "int \<Rightarrow> ledger_records \<Rightarrow> 'v CachedEventsResponse result \<Rightarrow> 'v ledger_fetch" where
  "events_received seq records r =
     (case r of
        Inl e \<Rightarrow> Explaining seq e
      | Inr response \<Rightarrow> Settled (assembleBlock records (map wrapEvent (cached_events response))))"

fun ledger_fetch_step ::
  "('w, 'v) services \<Rightarrow> StellarApi \<Rightarrow> 'v ledger_fetch \<times> 'v eventsCache \<times> 'w \<Rightarrow>
   'v ledger_fetch \<times> 'v eventsCache \<times> 'w" where
  "ledger_fetch_step env api (Requested seq, cache, w) =
     ((case fetch_records env api seq of
         None \<Rightarrow> Requested seq
       | Some (Inl e) \<Rightarrow> Settled (Inl e)
       | Some (Inr (ledger, txs, ops, effs)) \<Rightarrow>
           (case sorobanClient api of
              Inl e \<Rightarrow> Settled (Inl e)
            | Inr _ \<Rightarrow>
                if hasInvokeHostFunctionOp ops
                then Querying seq (ledger, txs, ops, effs) (Called (ledger_request seq (api_pageLimit api)))
                else Settled (assembleBlock (ledger, txs, ops, effs) []))),
      cache, w)"
| "ledger_fetch_step env api (Querying seq records act, cache, w) =
     (case activity_step (env_lodash env) (rpc_getEvents env) (act, cache, w) of
        (Finished r, cache', w') \<Rightarrow> (events_received seq records r, cache', w')
      | (act', cache', w') \<Rightarrow> (Querying seq records act', cache', w'))"
| "ledger_fetch_step env api (Explaining seq e, cache, w) =
     (case events_error env api seq e w of (e', w') \<Rightarrow> (Settled (Inl e'), cache, w'))"
| "ledger_fetch_step env api (Settled r, cache, w) = (Settled r, cache, w)"

fun settled :: "'v ledger_fetch \<Rightarrow> bool" where
  "settled (Settled r) = True"
| "settled _ = False"

text \<open>What \<open>Promise.all\<close> resolves with, once every fetch has been fulfilled.\<close>

fun fulfilled :: "'v ledger_fetch \<Rightarrow> 'v IBlock option" where
  "fulfilled (Settled (Inr b)) = Some b"
| "fulfilled _ = None"

definition batch_blocks :: "'v ledger_fetch list \<Rightarrow> 'v IBlock list option" where
  "batch_blocks fetches = those (map fulfilled fetches)"

section \<open>A fetch that runs alone\<close>

text \<open>A query follows its call of \<open>getEvents\<close> until that has finished.\<close>

lemma query_alone:
  assumes "(activity_step (env_lodash env) (rpc_getEvents env) ^^ k) (act, cache, w) = (Finished r, cache', w')"
    and "\<not> finished act"
  shows "\<exists>j. (ledger_fetch_step env api ^^ j) (Querying seq records act, cache, w) = (events_received seq records r, cache', w')"
  using assms
proof (induction k arbitrary: act cache w)
  case (Suc k)
  obtain act1 cache1 w1 where one: "activity_step (env_lodash env) (rpc_getEvents env) (act, cache, w) = (act1, cache1, w1)"
    by (rule prod_cases3)
  then have rest: "(activity_step (env_lodash env) (rpc_getEvents env) ^^ k) (act1, cache1, w1) = (Finished r, cache', w')"
    using Suc.prems(1) by (simp only: funpow_Suc_right o_apply)
  show ?case
  proof (cases "finished act1")
    case True
    then obtain r1 where r1: "act1 = Finished r1" by (auto elim: finished.elims)
    have "(activity_step (env_lodash env) (rpc_getEvents env) ^^ k) (Finished r1, cache1, w1) = (Finished r1, cache1, w1)"
      by (induction k) simp_all
    with rest r1 have "r1 = r" "cache1 = cache'" "w1 = w'" by simp_all
    then have "(ledger_fetch_step env api ^^ 1) (Querying seq records act, cache, w) = (events_received seq records r, cache', w')"
      using one r1 by simp
    then show ?thesis by blast
  next
    case False
    then have "ledger_fetch_step env api (Querying seq records act, cache, w) = (Querying seq records act1, cache1, w1)"
      using one by (cases act1) simp_all
    moreover obtain j where "(ledger_fetch_step env api ^^ j) (Querying seq records act1, cache1, w1)
        = (events_received seq records r, cache', w')"
      using Suc.IH [OF rest False] by blast
    ultimately have "(ledger_fetch_step env api ^^ Suc j) (Querying seq records act, cache, w)
        = (events_received seq records r, cache', w')"
      by (simp only: funpow_Suc_right o_apply)
    then show ?thesis by blast
  qed
qed simp

lemma fetch_alone_events:
  assumes recs: "fetch_records env api s = Some (Inr (lg, txs, ops, effs))"
    and client: "api_sorobanClient api = Some client" and invokes: "hasInvokeHostFunctionOp ops"
    and ev: "getEvents (env_lodash env) (rpc_getEvents env) (ledger_request s (api_pageLimit api)) cache w
      = Some (r, cache', w')"
  shows "\<exists>k. (ledger_fetch_step env api ^^ k) (Requested s, cache, w) = (events_received s (lg, txs, ops, effs) r, cache', w')"
proof -
  let ?records = "(lg, txs, ops, effs)" and ?call = "Called (ledger_request s (api_pageLimit api))"
  obtain k where "(ledger_fetch_step env api ^^ k) (Querying s ?records ?call, cache, w)
      = (events_received s ?records r, cache', w')"
    using getEvents_alone [OF ev] query_alone by (metis finished.simps(2))
  moreover have "ledger_fetch_step env api (Requested s, cache, w) = (Querying s ?records ?call, cache, w)"
    using recs client invokes by (simp add: sorobanClient_def)
  ultimately have "(ledger_fetch_step env api ^^ Suc k) (Requested s, cache, w) = (events_received s ?records r, cache', w')"
    by (simp only: funpow_Suc_right o_apply)
  then show ?thesis by blast
qed

lemma ledger_fetch_alone:
  assumes fetch: "fetchAndWrapLedger env api s cache w = Some (res, cache', w')"
  shows "\<exists>k. (ledger_fetch_step env api ^^ k) (Requested s, cache, w) = (Settled res, cache', w')"
proof (cases "\<exists>lg txs ops effs client. fetch_records env api s = Some (Inr (lg, txs, ops, effs)) \<and>
    api_sorobanClient api = Some client \<and> hasInvokeHostFunctionOp ops")
  case True
  then obtain lg txs ops effs client where
    recs: "fetch_records env api s = Some (Inr (lg, txs, ops, effs))"
    and client: "api_sorobanClient api = Some client" and invokes: "hasInvokeHostFunctionOp ops" by blast
  obtain r cache1 w1 where ev: "getEvents (env_lodash env) (rpc_getEvents env)
      (ledger_request s (api_pageLimit api)) cache w = Some (r, cache1, w1)"
    using fetch by (auto simp: fetchAndWrapLedger_def recs client invokes sorobanClient_def
        getAndWrapEvents_eq [OF client] split: option.splits)
  obtain k where k: "(ledger_fetch_step env api ^^ k) (Requested s, cache, w) = (events_received s (lg, txs, ops, effs) r, cache1, w1)"
    using fetch_alone_events [OF recs client invokes ev] by blast
  show ?thesis
  proof (cases r)
    case (Inr c)
    then have "events_received s (lg, txs, ops, effs) r = Settled res" "cache1 = cache'" "w1 = w'"
      using fetch by (simp_all add: fetchAndWrapLedger_def recs client invokes sorobanClient_def
          getAndWrapEvents_eq [OF client] ev events_received_def)
    then show ?thesis using k by auto
  next
    case (Inl e)
    then have "(ledger_fetch_step env api ^^ Suc k) (Requested s, cache, w) = ledger_fetch_step env api (Explaining s e, cache1, w1)"
      using k by (simp add: events_received_def)
    also have "\<dots> = (Settled res, cache', w')"
      using fetch Inl by (auto simp: fetchAndWrapLedger_def recs client invokes sorobanClient_def
          getAndWrapEvents_eq [OF client] ev split: prod.splits)
    finally show ?thesis by blast
  qed
next
  case False
  then have "(ledger_fetch_step env api ^^ 1) (Requested s, cache, w) = (Settled res, cache', w')"
    using fetch by (auto simp: fetchAndWrapLedger_def sorobanClient_def split: option.splits sum.splits if_splits)
  then show ?thesis by blast
qed

text \<open>\<open>fetch_all\<close> is the schedule that runs the fetches one after the other.\<close>

lemma fetch_step_settled: "settled b \<Longrightarrow> ledger_fetch_step env api (b, s) = (b, s)"
  by (cases s; cases b) simp_all

lemma fetch_all_schedule:
  "fetch_all env api ss cache w = Some (rs, cache', w') \<Longrightarrow>
   \<exists>m. schedule (ledger_fetch_step env api) settled m (done @ map Requested ss, cache, w) (done @ map Settled rs, cache', w')"
proof (induction ss arbitrary: "done" cache w rs)
  case (Cons s ss)
  obtain r cache1 w1 rs' where 1: "fetchAndWrapLedger env api s cache w = Some (r, cache1, w1)"
      and rest: "fetch_all env api ss cache1 w1 = Some (rs', cache', w')" and rs: "rs = r # rs'"
    using Cons.prems by (auto split: option.splits prod.splits)
  obtain k where k: "(ledger_fetch_step env api ^^ k) (Requested s, cache, w) = (Settled r, cache1, w1)"
    using ledger_fetch_alone [OF 1] by blast
  have "\<exists>m. schedule (ledger_fetch_step env api) settled m (done @ Requested s # map Requested ss, cache, w)
      ((done @ Requested s # map Requested ss)[length done := Settled r], cache1, w1)"
    by (rule schedule_alone [OF fetch_step_settled k]) simp_all
  moreover obtain m where "schedule (ledger_fetch_step env api) settled m
      ((done @ [Settled r]) @ map Requested ss, cache1, w1) ((done @ [Settled r]) @ map Settled rs', cache', w')"
    using Cons.IH [OF rest, of "done @ [Settled r]"] by blast
  ultimately show ?case using rs by (auto dest: schedule_trans)
qed (auto intro: start)

section \<open>Fetches of a served chain\<close>

text \<open>What the fetch of ledger \<open>s\<close> has reached, and how many more steps it may make.\<close>

fun fetch_ok :: "('w, 'v) services \<Rightarrow> StellarApi \<Rightarrow> 'v chain \<Rightarrow> (string \<Rightarrow> nat) \<Rightarrow> int \<Rightarrow> 'v ledger_fetch \<Rightarrow> bool" where
  "fetch_ok env api c pos s (Requested seq) \<longleftrightarrow>
     seq = s \<and> serves_chain (stellarClient env api) (api_pageLimit api) c s"
| "fetch_ok env api c pos s (Querying seq records act) \<longleftrightarrow>
     seq = s \<and> serves_chain (stellarClient env api) (api_pageLimit api) c s \<and> records = chain_records c s \<and>
     hasInvokeHostFunctionOp (chain_ops c s) \<and> \<not> finished act \<and>
     call_ok (chain_events c) pos (api_pageLimit api) s act"
| "fetch_ok env api c pos s (Explaining seq e) \<longleftrightarrow> False"
| "fetch_ok env api c pos s (Settled r) \<longleftrightarrow> r = Inr (chain_result c s)"

fun fetch_remaining :: "'v EventResponse list \<Rightarrow> (string \<Rightarrow> nat) \<Rightarrow> 'v ledger_fetch \<Rightarrow> nat" where
  "fetch_remaining log pos (Requested seq) = length log + 3"
| "fetch_remaining log pos (Querying seq records act) = remaining log pos act"
| "fetch_remaining log pos (Explaining seq e) = 1"
| "fetch_remaining log pos (Settled r) = 0"

lemma remaining_pos: "\<not> finished act \<Longrightarrow> 0 < remaining log pos act"
  by (cases act) simp_all

lemma fetch_ok_settled: "fetch_ok env api c pos s f \<and> settled f \<longleftrightarrow> f = Settled (Inr (chain_result c s))"
  by (cases f) auto

locale chain_fetches =
  concurrent_calls "rpc_getEvents env" "chain_events c" pos maxLimit "env_lodash env" "api_pageLimit api"
  for env :: "('w, 'v) services" and api :: StellarApi and c :: "'v chain" and pos maxLimit +
  fixes client :: string
  assumes soroban: "api_sorobanClient api = Some client"
begin

lemma requested_step:
  assumes "fetch_ok env api c pos s (Requested seq)"
    and step: "ledger_fetch_step env api (Requested seq, cache, w) = (f', cache', w')"
  shows "fetch_ok env api c pos s f' \<and> cache' = cache \<and>
    fetch_remaining (chain_events c) pos f' < fetch_remaining (chain_events c) pos (Requested seq)"
proof -
  have "seq = s" and served: "serves_chain (stellarClient env api) (api_pageLimit api) c s" using assms by simp_all
  with step have "cache' = cache" and f': "f' =
      (if hasInvokeHostFunctionOp (chain_ops c s)
       then Querying s (chain_records c s) (Called (ledger_request s (api_pageLimit api)))
       else Settled (assembleBlock (chain_records c s) []))"
    by (auto simp: served_records [OF served, unfolded chain_records_def] soroban sorobanClient_def chain_records_def)
  then show ?thesis
    using served assembleBlock_chain [OF served] by (cases "hasInvokeHostFunctionOp (chain_ops c s)") simp_all
qed

lemma querying_step:
  assumes sound: "cache_sound (chain_events c) cache" and ok: "fetch_ok env api c pos s (Querying seq records act)"
    and step: "ledger_fetch_step env api (Querying seq records act, cache, w) = (f', cache', w')"
  shows "fetch_ok env api c pos s f' \<and> cache_sound (chain_events c) cache' \<and>
    fetch_remaining (chain_events c) pos f' < fetch_remaining (chain_events c) pos (Querying seq records act)"
proof -
  obtain act1 cache1 w1 where one: "activity_step (env_lodash env) (rpc_getEvents env) (act, cache, w) = (act1, cache1, w1)"
    by (rule prod_cases3)
  have served: "serves_chain (stellarClient env api) (api_pageLimit api) c s"
    and q: "seq = s" "records = chain_records c s" "hasInvokeHostFunctionOp (chain_ops c s)" "\<not> finished act"
    using ok by simp_all
  have act1: "call_ok (chain_events c) pos (api_pageLimit api) s act1" "cache_sound (chain_events c) cache1"
      "remaining (chain_events c) pos act1 < remaining (chain_events c) pos act"
    using activity_step_ok [OF lodash_events_axioms sound limit_ok _ q(4) one] ok by auto
  show ?thesis
  proof (cases "finished act1")
    case True
    then obtain r where r: "act1 = Finished r" by (auto elim: finished.elims)
    then obtain e where "r = Inr e" "cached_events e = events_of (chain_events c) s"
      using act1(1) by (cases r) auto
    then have "f' = Settled (Inr (chain_result c s))" "cache' = cache1"
      using step one r q assembleBlock_chain [OF served] by (simp_all add: events_received_def)
    then show ?thesis using act1(2) remaining_pos [OF q(4)] by simp
  next
    case False
    then have "f' = Querying seq records act1" "cache' = cache1"
      using step one by (cases act1; simp)+
    then show ?thesis using act1 q served False by simp
  qed
qed

lemma fetch_step_ok:
  assumes "cache_sound (chain_events c) cache" "fetch_ok env api c pos s f" "\<not> settled f"
    and "ledger_fetch_step env api (f, cache, w) = (f', cache', w')"
  shows "fetch_ok env api c pos s f' \<and> cache_sound (chain_events c) cache' \<and>
    fetch_remaining (chain_events c) pos f' < fetch_remaining (chain_events c) pos f"
proof (cases f)
  case (Requested seq)
  then show ?thesis using requested_step assms by metis
next
  case (Querying seq records act)
  then show ?thesis using querying_step assms by metis
qed (use assms in auto)

end

sublocale chain_fetches \<subseteq> fetches:
  terminating_tasks "ledger_fetch_step env api" settled "fetch_ok env api c pos"
    "cache_sound (chain_events c) \<circ> fst" "fetch_remaining (chain_events c) pos"
proof
  show "fetch_ok env api c pos k f' \<and> (cache_sound (chain_events c) \<circ> fst) s'"
    "fetch_remaining (chain_events c) pos f' < fetch_remaining (chain_events c) pos f"
    if "(cache_sound (chain_events c) \<circ> fst) s" "fetch_ok env api c pos k f" "\<not> settled f"
      and "ledger_fetch_step env api (f, s) = (f', s')"
    for k f f' and s s' :: "'v eventsCache \<times> 'w"
    using that fetch_step_ok [of "fst s" k f "snd s" f' "fst s'" "snd s'"] by simp_all
qed

context chain_fetches
begin

lemma initial_fetches:
  "list_all (serves_chain (stellarClient env api) (api_pageLimit api) c) ss \<Longrightarrow>
   list_all2 (fetch_ok env api c pos) ss (map Requested ss)"
  by (simp add: list_all2_conv_all_nth list_all_length)

lemma initial_fetches_work:
  "sum_list (map (fetch_remaining (chain_events c) pos) (map Requested ss)) = length ss * (length (chain_events c) + 3)"
  by (simp add: comp_def sum_list_triv)

lemma execution_fetches:
  assumes "cache_sound (chain_events c) cache"
    and "list_all (serves_chain (stellarClient env api) (api_pageLimit api) c) ss"
    and "execution (ledger_fetch_step env api) settled run" "run 0 = (map Requested ss, cache, w)"
  shows "\<exists>k \<le> length ss * (length (chain_events c) + 3). \<forall>j\<ge>k.
    fst (run j) = map (\<lambda>s. Settled (Inr (chain_result c s))) ss \<and> cache_sound (chain_events c) (fst (snd (run j)))"
proof -
  have "list_all2 (\<lambda>s f. f = Settled (Inr (chain_result c s))) ss fs \<longleftrightarrow> fs = map (\<lambda>s. Settled (Inr (chain_result c s))) ss"
    for fs by (auto simp: list_all2_conv_all_nth intro: nth_equalityI)
  then show ?thesis
    using fetches.execution_settles [OF assms(3,4) initial_fetches [OF assms(2)]] assms(1)
    unfolding initial_fetches_work fetch_ok_settled by simp
qed

end

lemma chain_fetchesI:
  assumes "lodash_events (env_lodash env)"
    and "full_page_rpc (rpc_getEvents env) (chain_events c) pos maxLimit"
    and "0 < api_pageLimit api" "api_pageLimit api \<le> maxLimit"
    and "api_sorobanClient api = Some client"
  shows "chain_fetches env api c pos maxLimit client"
  using assms by (intro chain_fetches.intro chain_fetches_axioms.intro concurrent_callsI)

interpretation sample_fetches: chain_fetches sample_services sample_api sample_chain length 200 "''https://s''"
  by (rule chain_fetchesI [OF sample_setup(1-5)])

lemma batch_blocks_settled: "batch_blocks (map (\<lambda>s. Settled (Inr (f s))) ss) = Some (map f ss)"
  by (induction ss) (simp_all add: batch_blocks_def)

section \<open>Blocks of any server\<close>

text \<open>
  Without any assumption about the RPC server: a block that was fetched for ledger \<open>s\<close> has the record
  Horizon returned for \<open>s\<close>, and events of \<open>s\<close> only.
\<close>

definition block_own :: "horizon \<Rightarrow> int \<Rightarrow> 'v IBlock \<Rightarrow> bool" where
  "block_own h s b \<longleftrightarrow> h_ledger h s = Inr (block_record (block (iblock b))) \<and>
     list_all (\<lambda>v. ev_ledger (event_record v) = s) (block_events (block (iblock b)))"

fun fetch_own :: "('w, 'v) services \<Rightarrow> StellarApi \<Rightarrow> int \<Rightarrow> 'v ledger_fetch \<Rightarrow> bool" where
  "fetch_own env api s (Requested seq) \<longleftrightarrow> seq = s"
| "fetch_own env api s (Querying seq records act) \<longleftrightarrow>
     seq = s \<and> h_ledger (stellarClient env api) s = Inr (fst records) \<and>
     own_only (ledger_request s (api_pageLimit api)) act"
| "fetch_own env api s (Explaining seq e) \<longleftrightarrow> True"
| "fetch_own env api s (Settled r) \<longleftrightarrow> (\<forall>b. r = Inr b \<longrightarrow> block_own (stellarClient env api) s b)"

lemma assembleBlock_own:
  assumes "assembleBlock records (map wrapEvent evs) = Inr b" "h_ledger h s = Inr (fst records)"
    and "\<forall>e\<in>set evs. ev_ledger e = s"
  shows "block_own h s b"
proof -
  obtain lg txs ops effs where r: "records = (lg, txs, ops, effs)" by (rule prod_cases4)
  then obtain wrapped where w: "wrapLedger lg txs ops effs (map wrapEvent evs) = Inr wrapped"
      and b: "block (iblock b) = wrapped"
    using assms(1) by (auto simp: assembleBlock_def formatBlockUtil_def wrap_block_def
        new_StellarBlockWrapped_def split: sum.splits)
  have evs: "map event_record (block_events wrapped) = evs"
    using wrapLedger_keeps_events [OF w] by (simp add: comp_def wrapEvent_def)
  have "\<forall>e\<in>set (map event_record (block_events wrapped)). ev_ledger e = s"
    unfolding evs by (rule assms(3))
  then have "\<forall>v\<in>set (block_events wrapped). ev_ledger (event_record v) = s" by simp
  then show ?thesis
    using wrapLedger_keeps_events [OF w, THEN conjunct1] assms(2) r b by (simp add: block_own_def list_all_iff)
qed

lemma fetch_step_own:
  assumes lo: "lodash_events (env_lodash env)" and wf: "cache_wf cache" and own: "fetch_own env api s f"
    and step: "ledger_fetch_step env api (f, cache, w) = (f', cache', w')"
  shows "cache_wf cache' \<and> fetch_own env api s f'"
proof (cases f)
  case (Requested seq)
  have "fetch_own env api s (fst (ledger_fetch_step env api (Requested s, cache, w)))"
  proof (cases "fetch_records env api s")
    case (Some r)
    show ?thesis
    proof (cases r)
      case (Inr records)
      obtain lg txs ops effs where records: "records = (lg, txs, ops, effs)" by (rule prod_cases4)
      note recs = Some [unfolded Inr records]
      show ?thesis
        using fetch_records_ledger [OF recs] assembleBlock_own [of records "[]" _ "stellarClient env api" s]
        by (auto simp: recs records split: sum.split)
    qed (simp add: Some)
  qed simp
  then show ?thesis using Requested own step wf by auto
next
  case (Querying seq records act)
  obtain act1 cache1 w1 where one: "activity_step (env_lodash env) (rpc_getEvents env) (act, cache, w) = (act1, cache1, w1)"
    by (rule prod_cases3)
  have q: "seq = s" "h_ledger (stellarClient env api) s = Inr (fst records)"
    and own1: "cache_wf cache1 \<and> own_only (ledger_request s (api_pageLimit api)) act1"
    using own Querying activity_step_own [OF lo wf _ one] by auto
  show ?thesis
  proof (cases act1)
    case (Finished r)
    have "fetch_own env api s (events_received s records r)"
    proof (cases r)
      case (Inr c)
      then have "\<forall>e\<in>set (cached_events c). ev_ledger e = s"
        using own1 Finished by (simp add: ledger_request_def)
      then show ?thesis using assembleBlock_own [OF _ q(2)] Inr by (auto simp: events_received_def)
    qed (simp add: events_received_def)
    then show ?thesis using step one Querying Finished own1 q by simp
  qed (use step one Querying own1 q in auto)
next
  case (Explaining seq e)
  then show ?thesis using step wf by (auto split: prod.splits)
qed (use assms in auto)

lemma own_fetches:
  fixes env :: "('w, 'v) services"
  assumes "lodash_events (env_lodash env)"
  shows "task_invariant (ledger_fetch_step env api) settled (fetch_own env api) (cache_wf \<circ> fst)"
proof
  fix s s' :: "'v eventsCache \<times> 'w" and k f f'
  assume "(cache_wf \<circ> fst) s" "fetch_own env api k f" "ledger_fetch_step env api (f, s) = (f', s')"
  then show "fetch_own env api k f' \<and> (cache_wf \<circ> fst) s'"
    using fetch_step_own [OF assms, of "fst s" api k f "snd s" f' "fst s'" "snd s'"] by auto
qed

interpretation sample_own_fetches:
  task_invariant "ledger_fetch_step sample_services sample_api" settled "fetch_own sample_services sample_api" "cache_wf \<circ> fst"
  by (rule own_fetches [OF sample_setup(1)])

section \<open>Properties\<close>

text \<open>
  C5: A batch of ledgers is fetched, however its fetches interleave. When Horizon serves the ledgers
  asked for and the RPC server holds the event log, then in every execution of the fetches of a
  batch, which share the event cache, there comes a moment, after at most
  \<open>length ss * (length (chain_events c) + 3)\<close> moves, from which on all of them are fulfilled, the
  blocks are those of the chain in the order asked for, and the cache is sound.
\<close>

theorem concurrent_fetchBlocks:
  assumes "lodash_events (env_lodash env)"
    and "full_page_rpc (rpc_getEvents env) (chain_events c) pos maxLimit"
    and "0 < api_pageLimit api" "api_pageLimit api \<le> maxLimit"
    and "api_sorobanClient api = Some client"
    and "cache_sound (chain_events c) cache"
    and "list_all (serves_chain (stellarClient env api) (api_pageLimit api) c) ss"
    and "execution (ledger_fetch_step env api) settled run" "run 0 = (map Requested ss, cache, w)"
  shows "\<exists>k \<le> length ss * (length (chain_events c) + 3). \<forall>j\<ge>k.
    batch_blocks (fst (run j)) = Some (map (chain_result c) ss) \<and>
    cache_sound (chain_events c) (fst (snd (run j)))"
  using chain_fetches.execution_fetches [OF chain_fetchesI [OF assms(1-5)] assms(6-9)]
  by (auto simp: batch_blocks_settled)

theorem concurrent_fetchBlocks_witness:
  "\<exists>k \<le> length [7 :: int, 7] * (length (chain_events sample_chain) + 3). \<forall>j\<ge>k.
    batch_blocks (fst ((first_moves (ledger_fetch_step sample_services sample_api) settled ^^ j)
        (map Requested [7, 7], \<lambda>_. None, 0))) = Some (map (chain_result sample_chain) [7, 7]) \<and>
    cache_sound (chain_events sample_chain)
      (fst (snd ((first_moves (ledger_fetch_step sample_services sample_api) settled ^^ j) (map Requested [7, 7], \<lambda>_. None, 0))))"
proof -
  have served: "list_all (serves_chain (stellarClient sample_services sample_api) (api_pageLimit sample_api) sample_chain) [7, 7]"
    using sample_setup(7) by simp
  show ?thesis
    by (rule concurrent_fetchBlocks [OF sample_setup(1-6) served first_moves_execution]) simp
qed

text \<open>
  C6: Blocks never mix ledgers, whatever the RPC server answers and however the fetches of a batch
  interleave: after any number of steps the event cache is well formed (non-empty entries, each with
  events of its own ledger only and no id twice), and every block that has been fetched for a height
  has the record Horizon returned for that height and only events of that ledger.
\<close>

theorem concurrent_blocks_own_events:
  assumes "lodash_events (env_lodash env)" "cache_wf cache"
    and "schedule (ledger_fetch_step env api) settled m (map Requested ss, cache, w) (fetches, cache', w')"
  shows "cache_wf cache' \<and>
    list_all2 (\<lambda>s f. \<forall>b. f = Settled (Inr b) \<longrightarrow> block_own (stellarClient env api) s b) ss fetches"
proof -
  have "list_all2 (fetch_own env api) ss (map Requested ss)"
    by (simp add: list_all2_conv_all_nth)
  then have "cache_wf cache'" "list_all2 (fetch_own env api) ss fetches"
    using task_invariant.schedule_keeps [OF own_fetches [OF assms(1)] assms(3), of ss] assms(2) by simp_all
  then show ?thesis by (auto elim: list_all2_mono)
qed

theorem concurrent_blocks_own_events_witness:
  "block_own (stellarClient sample_services sample_api) 7 (chain_result sample_chain 7)"
proof -
  have "list_all (serves_chain (stellarClient sample_services sample_api) (api_pageLimit sample_api) sample_chain) [7, 7]"
    using sample_setup(7) by simp
  from fetch_all_chain [OF sample_setup(1-6) this] obtain cache w where
    "fetch_all sample_services sample_api [7, 7] (\<lambda>_. None) 0 =
       Some (map (Inr \<circ> chain_result sample_chain) [7, 7], cache, w)" by blast
  from fetch_all_schedule [OF this, of "[]"] obtain m where
    "schedule (ledger_fetch_step sample_services sample_api) settled m (map Requested [7, 7], \<lambda>_. None, 0)
       (map Settled (map (Inr \<circ> chain_result sample_chain) [7, 7]), cache, w)" by auto
  from concurrent_blocks_own_events [OF sample_setup(1) cache_wf_empty this] show ?thesis by simp
qed

end
