(* ===== verification/Js_Json.thy ===== *)
theory Js_Json
  imports Js_Text
begin

text \<open>
  \<open>JSON.stringify\<close> on strings, arrays and objects, as far as the program uses it for keys: what a
  key identifies depends on the printed form being unambiguous.

  The locale \<open>self_delimiting\<close> is the contract of a printer whose output can be followed by any
  other text and still be recognised. It is interpreted on strings; \<open>delimited_array\<close> extends it to
  the arrays of such a printer.
\<close>

section \<open>Strings\<close>

definition hex_digit :: "nat \<Rightarrow> char" where
  "hex_digit d = (if d < 10 then char_of (d + 48) else char_of (d + 87))"

definition hex_val :: "char \<Rightarrow> nat" where
  "hex_val c = (let n = of_char c in if n < 58 then n - 48 else n - 87)"

lemma hex_val_hex_digit [simp]: "d < 16 \<Longrightarrow> hex_val (hex_digit d) = d"
  by (simp add: hex_digit_def hex_val_def Let_def)

text \<open>The escapes of a JSON string: quotes, backslashes and control characters.\<close>

definition json_escape :: "char \<Rightarrow> string" where
  "json_escape c =
     (if c = CHR 0x22 then [CHR 0x5C, CHR 0x22]
      else if c = CHR 0x5C then [CHR 0x5C, CHR 0x5C]
      else if c = CHR 0x08 then [CHR 0x5C, CHR ''b'']
      else if c = CHR 0x0C then [CHR 0x5C, CHR ''f'']
      else if c = CHR 0x0A then [CHR 0x5C, CHR ''n'']
      else if c = CHR 0x0D then [CHR 0x5C, CHR ''r'']
      else if c = CHR 0x09 then [CHR 0x5C, CHR ''t'']
      else if (of_char c :: nat) < 32
        then [CHR 0x5C, CHR ''u'', CHR ''0'', CHR ''0'', hex_digit (of_char c div 16), hex_digit (of_char c mod 16)]
      else [c])"

definition json_string :: "string \<Rightarrow> string" where
  "json_string s = CHR 0x22 # concat (map json_escape s) @ [CHR 0x22]"

text \<open>Reading one escaped character back.\<close>

definition json_unescape :: "string \<Rightarrow> (char \<times> string) option" where
  "json_unescape s =
     (case s of
        [] \<Rightarrow> None
      | c # r \<Rightarrow>
          if c = CHR 0x22 then None
          else if c \<noteq> CHR 0x5C then Some (c, r)
          else (case r of
              [] \<Rightarrow> None
            | d # r' \<Rightarrow>
                if d = CHR ''b'' then Some (CHR 0x08, r')
                else if d = CHR ''f'' then Some (CHR 0x0C, r')
                else if d = CHR ''n'' then Some (CHR 0x0A, r')
                else if d = CHR ''r'' then Some (CHR 0x0D, r')
                else if d = CHR ''t'' then Some (CHR 0x09, r')
                else if d = CHR ''u'' then
                  Some (char_of (16 * hex_val (r' ! 2) + hex_val (r' ! 3)), drop 4 r')
                else Some (d, r')))"

lemma json_unescape_escape: "json_unescape (json_escape c @ r) = Some (c, r)"
proof (cases "(of_char c :: nat) < 32")
  case True
  then have "of_char c div 16 < (16 :: nat)" by simp
  then have "char_of (16 * hex_val (hex_digit (of_char c div 16)) + hex_val (hex_digit (of_char c mod 16))) = c"
    by simp
  then show ?thesis
    by (simp add: json_escape_def json_unescape_def)
qed (simp add: json_escape_def json_unescape_def)

lemma json_unescape_quote: "json_unescape (CHR 0x22 # r) = None"
  by (simp add: json_unescape_def)

section \<open>Printers that delimit themselves\<close>

locale self_delimiting =
  fixes print :: "'a \<Rightarrow> string"
  assumes delimits: "print x @ r = print y @ s \<longleftrightarrow> x = y \<and> r = s"
begin

lemma print_inject: "print x = print y \<longleftrightarrow> x = y"
  using delimits [of x "[]" y "[]"] by simp

end

interpretation json_string: self_delimiting json_string
proof
  have body: "concat (map json_escape s) @ CHR 0x22 # r = concat (map json_escape t) @ CHR 0x22 # r' \<Longrightarrow>
      s = t \<and> r = r'" for s t r r'
  proof (induction s arbitrary: t)
    case Nil
    show ?case
    proof (cases t)
      case (Cons d t')
      then have "json_unescape (CHR 0x22 # r) = Some (d, concat (map json_escape t') @ CHR 0x22 # r')"
        using Nil by (simp add: json_unescape_escape)
      then show ?thesis by (simp add: json_unescape_quote)
    qed (use Nil in simp)
  next
    case (Cons c s)
    have c: "json_unescape (concat (map json_escape (c # s)) @ CHR 0x22 # r)
        = Some (c, concat (map json_escape s) @ CHR 0x22 # r)"
      by (simp add: json_unescape_escape)
    show ?case
    proof (cases t)
      case Nil
      then have "json_unescape (concat (map json_escape (c # s)) @ CHR 0x22 # r) = json_unescape (CHR 0x22 # r')"
        using Cons.prems by simp
      then show ?thesis using c by (simp add: json_unescape_quote)
    next
      case (Cons d t')
      then have "json_unescape (concat (map json_escape (c # s)) @ CHR 0x22 # r)
          = Some (d, concat (map json_escape t') @ CHR 0x22 # r')"
        using Cons.prems by (simp add: json_unescape_escape)
      then have "c = d" "concat (map json_escape s) @ CHR 0x22 # r = concat (map json_escape t') @ CHR 0x22 # r'"
        using c by simp_all
      then show ?thesis using Cons.IH Cons by blast
    qed
  qed
  show "json_string x @ r = json_string y @ s \<longleftrightarrow> x = y \<and> r = s" for x y r s
    using body [of x r y s] by (auto simp: json_string_def)
qed

section \<open>Arrays\<close>

fun json_items :: "('a \<Rightarrow> string) \<Rightarrow> 'a list \<Rightarrow> string" where
  "json_items print [] = []"
| "json_items print [x] = print x"
| "json_items print (x # y # xs) = print x @ CHR '','' # json_items print (y # xs)"

definition json_array :: "('a \<Rightarrow> string) \<Rightarrow> 'a list \<Rightarrow> string" where
  "json_array print xs = CHR 0x5B # json_items print xs @ [CHR 0x5D]"

locale delimited_array = self_delimiting print for print :: "'a \<Rightarrow> string" +
  assumes opens: "print x \<noteq> [] \<and> hd (print x) \<noteq> CHR 0x5D"
begin

lemma not_closing: "print x @ r \<noteq> CHR 0x5D # s"
  using opens [of x] by (metis append_is_Nil_conv hd_append2 list.sel(1))

lemma items_Cons:
  "json_items print (x # xs) @ r
     = print x @ (case xs of [] \<Rightarrow> r | _ \<Rightarrow> CHR '','' # json_items print xs @ r)"
  by (cases xs) simp_all

lemma items_delimit:
  "json_items print xs @ CHR 0x5D # r = json_items print ys @ CHR 0x5D # s \<Longrightarrow> xs = ys \<and> r = s"
proof (induction xs arbitrary: ys)
  case Nil
  then show ?case
    by (cases ys; cases "tl ys") (auto simp: not_closing [symmetric])
next
  case (Cons x xs)
  obtain y ys' where ys: "ys = y # ys'"
  proof (cases ys)
    case Nil
    then show thesis using Cons.prems not_closing [of x] by (simp only: items_Cons json_items.simps) simp
  qed (rule that)
  from Cons.prems have "x = y \<and> (case xs of [] \<Rightarrow> CHR 0x5D # r | _ \<Rightarrow> CHR '','' # json_items print xs @ CHR 0x5D # r)
      = (case ys' of [] \<Rightarrow> CHR 0x5D # s | _ \<Rightarrow> CHR '','' # json_items print ys' @ CHR 0x5D # s)"
    unfolding ys items_Cons by (simp only: delimits)
  then show ?case
    using Cons.IH [of ys'] by (auto simp: ys split: list.splits)
qed

lemma array_delimits: "json_array print xs @ r = json_array print ys @ s \<longleftrightarrow> xs = ys \<and> r = s"
  using items_delimit [of xs r ys s] by (auto simp: json_array_def)

end

interpretation json_strings: delimited_array json_string
  by unfold_locales (simp add: json_string_def)

sublocale delimited_array \<subseteq> array: self_delimiting "json_array print"
  by unfold_locales (rule array_delimits)

end
