(* ===== verification/Block_Filter.thy ===== *)
theory Block_Filter
  imports Js_Date Stellar_Types
begin

text \<open>
  The static filters of \<open>StellarBlockWrapped\<close> (\<open>packages/node/src/stellar/block.stellar.ts\<close>).

  Two pieces are code of other packages and so parameters: \<open>filterBlockTimestamp\<close> of
  \<open>@subql/node-core\<close>, given the time value of \<open>closed_at\<close> and the filter, and \<open>scValToNative\<close> of
  \<open>@stellar/stellar-sdk\<close>.

  The four filters without a search are instances of one contract, the locale
  \<open>conjunctive_filter\<close>: an absent filter accepts everything, a present one is the conjunction
  of its set fields.
\<close>

section \<open>The filters\<close>

definition filterBlocksProcessor ::
  "(int option \<Rightarrow> StellarBlockFilter \<Rightarrow> bool) \<Rightarrow>
   LedgerRecord \<Rightarrow> StellarBlockFilter option \<Rightarrow> string option \<Rightarrow> bool" where
  "filterBlocksProcessor filterBlockTimestamp blk flt address =
     (case flt of
        None \<Rightarrow> True
      | Some f \<Rightarrow>
          if truthy_num (bf_modulo f) \<and> js_rem (sequence blk) (the (bf_modulo f)) \<noteq> 0 then False
          else if \<not> filterBlockTimestamp (Date_getTime (closed_at blk)) f then False
          else True)"

definition filterTransactionProcessor ::
  "TransactionRecord \<Rightarrow> StellarTransactionFilter option \<Rightarrow> string option \<Rightarrow> bool" where
  "filterTransactionProcessor tx flt address =
     (case flt of
        None \<Rightarrow> True
      | Some f \<Rightarrow>
          if truthy_str (tf_account f) \<and> tf_account f \<noteq> Some (tx_source_account tx) then False
          else True)"

definition filterOperationProcessor ::
  "OperationRecord \<Rightarrow> StellarOperationFilter option \<Rightarrow> string option \<Rightarrow> bool" where
  "filterOperationProcessor op flt address =
     (case flt of
        None \<Rightarrow> True
      | Some f \<Rightarrow>
          if truthy_str (of_sourceAccount f) \<and> of_sourceAccount f \<noteq> Some (op_source_account op) then False
          else if truthy_str (of_type f) \<and> of_type f \<noteq> Some (op_type op) then False
          else True)"

definition filterEffectProcessor ::
  "EffectRecord \<Rightarrow> StellarEffectFilter option \<Rightarrow> string option \<Rightarrow> bool" where
  "filterEffectProcessor effect flt address =
     (case flt of
        None \<Rightarrow> True
      | Some f \<Rightarrow>
          if truthy_str (ef_account f) \<and> ef_account f \<noteq> Some (eff_account effect) then False
          else if truthy_str (ef_type f) \<and> ef_type f \<noteq> Some (eff_type effect) then False
          else True)"

text \<open>
  The topic loop \<open>for (let i = 0; i < Math.min(filter.topics.length, 4); i++)\<close>. Reading
  \<open>event.topic[i]\<close> past the end gives \<open>undefined\<close>, which rejects the event.
\<close>

function topics_loop ::
  "('v \<Rightarrow> js_value) \<Rightarrow> string option list \<Rightarrow> 'v list \<Rightarrow> nat \<Rightarrow> bool" where
  "topics_loop scValToNative topics topic i =
     (if i < min (length topics) 4 then
        (let t = topics ! i in
         if \<not> truthy_str t then topics_loop scValToNative topics topic (Suc i)
         else if length topic \<le> i then False
         else if scValToNative (topic ! i) \<noteq> JStr (the t) then False
         else topics_loop scValToNative topics topic (Suc i))
      else True)"
  by pat_completeness auto
termination
  by (relation "measure (\<lambda>(_, topics, _, i). length topics - i)") auto

declare topics_loop.simps [simp del]

definition filterEventProcessor ::
  "('v \<Rightarrow> js_value) \<Rightarrow> 'v EventResponse \<Rightarrow> SorobanEventFilter option \<Rightarrow> string option \<Rightarrow> bool" where
  "filterEventProcessor scValToNative event flt address =
     (if truthy_str address \<and> \<not> stringNormalizedEq (the address) (ev_contractId event) then False
      else case flt of
        None \<Rightarrow> True
      | Some f \<Rightarrow>
          if truthy_str (evf_contractId f) \<and> evf_contractId f \<noteq> ev_contractId event then False
          else case evf_topics f of
            None \<Rightarrow> True
          | Some topics \<Rightarrow> topics_loop scValToNative topics (ev_topic event) 0)"

section \<open>The meaning of an event filter\<close>

text \<open>Position \<open>i\<close> of the topic filter is unset, or the event has that topic at \<open>i\<close>.\<close>

definition topic_matches :: "('v \<Rightarrow> js_value) \<Rightarrow> string option list \<Rightarrow> 'v list \<Rightarrow> nat \<Rightarrow> bool" where
  "topic_matches scValToNative topics topic i =
     (truthy_str (topics ! i) \<longrightarrow> i < length topic \<and> scValToNative (topic ! i) = JStr (the (topics ! i)))"

lemma topics_loop_iff:
  "topics_loop scv topics topic i \<longleftrightarrow>
     (\<forall>j. i \<le> j \<and> j < min (length topics) 4 \<longrightarrow> topic_matches scv topics topic j)"
proof (induction scv topics topic i rule: topics_loop.induct)
  case (1 scv topics topic i)
  show ?case
  proof (cases "i < min (length topics) 4")
    case False
    then show ?thesis by (subst topics_loop.simps) auto
  next
    case True
    have split: "(\<forall>j. i \<le> j \<and> j < min (length topics) 4 \<longrightarrow> topic_matches scv topics topic j)
        \<longleftrightarrow> topic_matches scv topics topic i \<and>
            (\<forall>j. Suc i \<le> j \<and> j < min (length topics) 4 \<longrightarrow> topic_matches scv topics topic j)"
      using True by (metis Suc_leI Suc_le_lessD le_eq_less_or_eq le_refl)
    show ?thesis
      unfolding split
      by (subst topics_loop.simps)
         (use True "1.IH" in \<open>auto simp: Let_def topic_matches_def not_le\<close>)
  qed
qed

section \<open>The contract of the field filters\<close>

text \<open>
  \<open>accepts\<close> is a filter of the program, \<open>conds\<close> lists the tests a filter object stands for.
\<close>

locale conjunctive_filter =
  fixes accepts :: "'d \<Rightarrow> 'f option \<Rightarrow> string option \<Rightarrow> bool"
    and conds :: "'f \<Rightarrow> ('d \<Rightarrow> bool) list"
  assumes accepts_None: "accepts d None addr"
    and accepts_Some: "accepts d (Some f) addr \<longleftrightarrow> (\<forall>c\<in>set (conds f). c d)"
begin

lemma address_irrelevant: "accepts d flt addr = accepts d flt addr'"
  by (cases flt) (simp_all add: accepts_None accepts_Some)

lemma accepts_antimono:
  "set (conds f) \<subseteq> set (conds g) \<Longrightarrow> accepts d (Some g) addr \<Longrightarrow> accepts d (Some f) addr"
  by (auto simp: accepts_Some)

lemma no_conds_accept: "conds f = [] \<Longrightarrow> accepts d (Some f) addr"
  by (simp add: accepts_Some)

lemma filter_accepts:
  "filter (\<lambda>d. accepts d (Some f) addr) ds = filter (\<lambda>d. \<forall>c\<in>set (conds f). c d) ds"
  by (simp add: accepts_Some)

end

text \<open>The test a string field stands for: none when it is unset or empty.\<close>

definition field_cond :: "string option \<Rightarrow> ('d \<Rightarrow> string) \<Rightarrow> ('d \<Rightarrow> bool) list" where
  "field_cond v get = (if truthy_str v then [\<lambda>d. get d = the v] else [])"

lemma field_cond_set:
  "(\<forall>c\<in>set (field_cond v get). c d) \<longleftrightarrow> (truthy_str v \<longrightarrow> v = Some (get d))"
  by (cases v) (auto simp: field_cond_def)

definition block_conds ::
  "(int option \<Rightarrow> StellarBlockFilter \<Rightarrow> bool) \<Rightarrow>
   StellarBlockFilter \<Rightarrow> (LedgerRecord \<Rightarrow> bool) list" where
  "block_conds filterBlockTimestamp f =
     (if truthy_num (bf_modulo f) then [\<lambda>b. the (bf_modulo f) dvd sequence b] else []) @
     [\<lambda>b. filterBlockTimestamp (Date_getTime (closed_at b)) f]"

definition transaction_conds :: "StellarTransactionFilter \<Rightarrow> (TransactionRecord \<Rightarrow> bool) list" where
  "transaction_conds f = field_cond (tf_account f) tx_source_account"

definition operation_conds :: "StellarOperationFilter \<Rightarrow> (OperationRecord \<Rightarrow> bool) list" where
  "operation_conds f =
     field_cond (of_sourceAccount f) op_source_account @ field_cond (of_type f) op_type"

definition effect_conds :: "StellarEffectFilter \<Rightarrow> (EffectRecord \<Rightarrow> bool) list" where
  "effect_conds f = field_cond (ef_account f) eff_account @ field_cond (ef_type f) eff_type"

interpretation block_filter:
  conjunctive_filter "filterBlocksProcessor tsf" "block_conds tsf" for tsf
  by unfold_locales
     (auto simp: filterBlocksProcessor_def block_conds_def js_rem_eq_0_iff split: if_splits)

interpretation transaction_filter: conjunctive_filter filterTransactionProcessor transaction_conds
  by unfold_locales
     (auto simp: filterTransactionProcessor_def transaction_conds_def field_cond_set)

interpretation operation_filter: conjunctive_filter filterOperationProcessor operation_conds
  by unfold_locales
     (auto simp: filterOperationProcessor_def operation_conds_def ball_Un field_cond_set)

interpretation effect_filter: conjunctive_filter filterEffectProcessor effect_conds
  by unfold_locales
     (auto simp: filterEffectProcessor_def effect_conds_def ball_Un field_cond_set)

end
