(* ===== verification/Project_Utils.thy ===== *)
theory Project_Utils
  imports Stellar_Types
begin

text \<open>
  The classification predicates on datasources, handlers and handler processors:
  \<open>packages/common-stellar/src/project/utils.ts\<close>, \<open>packages/node/src/utils/project.ts\<close> and
  \<open>dsHasSorobanEventHandler\<close> of \<open>packages/node/src/configure/SubqueryProject.ts\<close>.

  A second layer handler processor is code of a user package; the predicates read its
  \<open>baseHandlerKind\<close> only.
\<close>

section \<open>Handler processors\<close>

record SecondLayerHandlerProcessor =
  baseHandlerKind :: string

definition isBlockHandlerProcessor :: "SecondLayerHandlerProcessor \<Rightarrow> bool" where
  "isBlockHandlerProcessor hp = (baseHandlerKind hp = handler_kind_value Block)"

definition isTransactionHandlerProcessor :: "SecondLayerHandlerProcessor \<Rightarrow> bool" where
  "isTransactionHandlerProcessor hp = (baseHandlerKind hp = handler_kind_value Transaction)"

definition isSorobanTransactionHandlerProcessor :: "SecondLayerHandlerProcessor \<Rightarrow> bool" where
  "isSorobanTransactionHandlerProcessor hp =
     (baseHandlerKind hp = handler_kind_value SorobanTransaction)"

definition isOperationHandlerProcessor :: "SecondLayerHandlerProcessor \<Rightarrow> bool" where
  "isOperationHandlerProcessor hp = (baseHandlerKind hp = handler_kind_value Operation)"

definition isEffectHandlerProcessor :: "SecondLayerHandlerProcessor \<Rightarrow> bool" where
  "isEffectHandlerProcessor hp = (baseHandlerKind hp = handler_kind_value Effects)"

definition isEventHandlerProcessor :: "SecondLayerHandlerProcessor \<Rightarrow> bool" where
  "isEventHandlerProcessor hp = (baseHandlerKind hp = handler_kind_value Event)"

lemmas processor_defs = isBlockHandlerProcessor_def isTransactionHandlerProcessor_def
  isSorobanTransactionHandlerProcessor_def isOperationHandlerProcessor_def
  isEffectHandlerProcessor_def isEventHandlerProcessor_def

text \<open>The table \<open>ProcessorTypeMap\<close> of \<open>packages/node/src/indexer/indexer.manager.ts\<close>.\<close>

fun ProcessorTypeMap :: "StellarHandlerKind \<Rightarrow> SecondLayerHandlerProcessor \<Rightarrow> bool" where
  "ProcessorTypeMap Block = isBlockHandlerProcessor"
| "ProcessorTypeMap Transaction = isTransactionHandlerProcessor"
| "ProcessorTypeMap SorobanTransaction = isSorobanTransactionHandlerProcessor"
| "ProcessorTypeMap Operation = isOperationHandlerProcessor"
| "ProcessorTypeMap Effects = isEffectHandlerProcessor"
| "ProcessorTypeMap Event = isEventHandlerProcessor"

lemma ProcessorTypeMap_iff: "ProcessorTypeMap k hp \<longleftrightarrow> baseHandlerKind hp = handler_kind_value k"
  by (cases k) (simp_all add: processor_defs)

section \<open>Datasources\<close>

definition isCustomDs :: "SubqlDatasource \<Rightarrow> bool" where
  "isCustomDs ds = (ds_kind ds \<noteq> StellarDatasourceKind_Runtime \<and> ds_processor ds \<noteq> None)"

definition isRuntimeDs :: "SubqlDatasource \<Rightarrow> bool" where
  "isRuntimeDs ds = (ds_kind ds = StellarDatasourceKind_Runtime)"

lemma custom_runtime_disjoint: "isCustomDs ds \<Longrightarrow> \<not> isRuntimeDs ds"
  by (simp add: isCustomDs_def isRuntimeDs_def)

section \<open>Handlers\<close>

definition isBaseHandler :: "SubqlHandler \<Rightarrow> bool" where
  "isBaseHandler handler = (h_kind handler \<in> set handler_kind_values)"

definition isCustomHandler :: "SubqlHandler \<Rightarrow> bool" where
  "isCustomHandler handler = (\<not> isBaseHandler handler)"

lemma isBaseHandler_iff: "isBaseHandler h \<longleftrightarrow> (\<exists>k. h_kind h = handler_kind_value k)"
  by (auto simp: isBaseHandler_def handler_kind_values_range)

section \<open>Soroban event handlers\<close>

text \<open>\<open>Array.findIndex\<close>: the least index that satisfies the predicate, or \<open>-1\<close>.\<close>

fun findIndex_from :: "int \<Rightarrow> ('a \<Rightarrow> bool) \<Rightarrow> 'a list \<Rightarrow> int" where
  "findIndex_from i p [] = -1"
| "findIndex_from i p (x # xs) = (if p x then i else findIndex_from (i + 1) p xs)"

definition findIndex :: "'a list \<Rightarrow> ('a \<Rightarrow> bool) \<Rightarrow> int" where
  "findIndex xs p = findIndex_from 0 p xs"

lemma findIndex_from_eq: "0 \<le> i \<Longrightarrow> findIndex_from i p xs \<noteq> -1 \<longleftrightarrow> (\<exists>x\<in>set xs. p x)"
  by (induction xs arbitrary: i) auto

lemma findIndex_found [simp]: "findIndex xs p \<noteq> -1 \<longleftrightarrow> (\<exists>x\<in>set xs. p x)"
  by (simp add: findIndex_def findIndex_from_eq)

definition dsHasSorobanEventHandler :: "SubqlDatasource list \<Rightarrow> bool" where
  "dsHasSorobanEventHandler dataSources =
     (findIndex dataSources (\<lambda>ds. isRuntimeDs ds \<and>
        findIndex (m_handlers (ds_mapping ds)) (\<lambda>handler. h_kind handler = handler_kind_value Event) \<noteq> -1) \<noteq> -1)"

lemma dsHasSorobanEventHandler_iff:
  "dsHasSorobanEventHandler dss \<longleftrightarrow>
     (\<exists>ds\<in>set dss. isRuntimeDs ds \<and>
        (\<exists>h\<in>set (m_handlers (ds_mapping ds)). h_kind h = handler_kind_value Event))"
  by (simp add: dsHasSorobanEventHandler_def)

end
