(* ===== verification/Dictionary_V1.thy ===== *)
theory Dictionary_V1
  imports Js_Json Block_Filter Project_Utils Lodash "HOL-Library.List_Lexorder" "HOL-Library.Char_ord"
begin

text \<open>
  \<open>packages/node/src/indexer/dictionary/v1/stellarDictionaryV1.ts\<close>: from the filters of the
  handlers to the query of the dictionary, the index that tells the indexer which blocks to fetch.

  \<open>uniqBy\<close> and \<open>sortBy\<close> of lodash are parameters, and so is the command line option
  \<open>query-address-limit\<close>. An early \<open>return []\<close> of the double loop is \<open>None\<close> in the
  functions of its body.
\<close>

section \<open>Query entries\<close>

datatype query_value = Single string | Several "string list"

record DictionaryQueryCondition =
  cond_field :: string
  cond_value :: query_value
  cond_matcher :: string

record DictionaryQueryEntry =
  entity :: string
  conditions :: "DictionaryQueryCondition list"

definition equalTo :: "string \<Rightarrow> string \<Rightarrow> DictionaryQueryCondition" where
  "equalTo fld val = \<lparr>cond_field = fld, cond_value = Single val, cond_matcher = ''equalTo''\<rparr>"

text \<open>\<open>if (value) conditions.push({ field, value: value.toLowerCase(), matcher: 'equalTo' })\<close>\<close>

definition push_lower :: "string \<Rightarrow> string option \<Rightarrow> DictionaryQueryCondition list \<Rightarrow> DictionaryQueryCondition list" where
  "push_lower fld val cs = (if truthy_str val then cs @ [equalTo fld (toLowerCase (the val))] else cs)"

definition transactionFilterToQueryEntry :: "StellarTransactionFilter \<Rightarrow> DictionaryQueryEntry" where
  "transactionFilterToQueryEntry flt =
     \<lparr>entity = ''transactions'', conditions = push_lower ''account'' (tf_account flt) []\<rparr>"

definition operationFilterToQueryEntry :: "StellarOperationFilter \<Rightarrow> DictionaryQueryEntry" where
  "operationFilterToQueryEntry flt =
     \<lparr>entity = ''operations'',
      conditions = push_lower ''sourceAccount'' (of_sourceAccount flt) (push_lower ''type'' (of_type flt) [])\<rparr>"

definition effectFilterToQueryEntry :: "StellarEffectFilter \<Rightarrow> DictionaryQueryEntry" where
  "effectFilterToQueryEntry flt =
     \<lparr>entity = ''effects'',
      conditions = push_lower ''account'' (ef_account flt) (push_lower ''type'' (ef_type flt) [])\<rparr>"

text \<open>The options of a datasource: missing, one object, or an array of objects, each with an optional
  address.\<close>

datatype dsOptions = NoOptions | OneOptions "string option" | ManyOptions "string option list"

definition address_conditions :: "nat \<Rightarrow> dsOptions \<Rightarrow> DictionaryQueryCondition list" where
  "address_conditions queryAddressLimit opts =
     (case opts of
        ManyOptions os \<Rightarrow>
          (let addresses = map the (filter truthy_str os)
           in if length addresses \<noteq> 0 \<and> length addresses \<le> queryAddressLimit
              then [\<lparr>cond_field = ''address'', cond_value = Several addresses, cond_matcher = ''in''\<rparr>]
              else [])
      | OneOptions a \<Rightarrow> push_lower ''address'' a []
      | NoOptions \<Rightarrow> [])"

text \<open>\<open>for (let i = 0; i < Math.min(filter.topics.length, 4); i++)\<close>, from a given \<open>i\<close>.\<close>

fun topic_conditions :: "nat \<Rightarrow> string option list \<Rightarrow> DictionaryQueryCondition list" where
  "topic_conditions i [] = []"
| "topic_conditions i (topic # topics) =
     (if i < 4 then
        (if truthy_str topic then [equalTo (''topics'' @ nat_string i) (the topic)] else []) @
        topic_conditions (Suc i) topics
      else [])"

definition eventFilterToQueryEntry :: "nat \<Rightarrow> SorobanEventFilter \<Rightarrow> dsOptions \<Rightarrow> DictionaryQueryEntry" where
  "eventFilterToQueryEntry queryAddressLimit flt opts =
     \<lparr>entity = ''events'',
      conditions = address_conditions queryAddressLimit opts @
        (case evf_topics flt of None \<Rightarrow> [] | Some topics \<Rightarrow> topic_conditions 0 topics)\<rparr>"

section \<open>The query of a project\<close>

definition ds_dsOptions :: "SubqlDatasource \<Rightarrow> dsOptions" where
  "ds_dsOptions ds = (case ds_options ds of None \<Rightarrow> NoOptions | Some opts \<Rightarrow> OneOptions (option_address opts))"

text \<open>The body of the inner loop: the entries pushed, or \<open>None\<close> where the code returns \<open>[]\<close>.\<close>

definition handler_entries :: "nat \<Rightarrow> SubqlDatasource \<Rightarrow> SubqlHandler \<Rightarrow> DictionaryQueryEntry list option" where
  "handler_entries queryAddressLimit ds handler =
     (case h_filter handler of
        None \<Rightarrow> None
      | Some flt \<Rightarrow>
          if h_kind handler = handler_kind_value Block then None
          else if h_kind handler = handler_kind_value Transaction then
            (let f = as_transaction_filter flt
             in if truthy_str (tf_account f) then Some [transactionFilterToQueryEntry f] else None)
          else if h_kind handler = handler_kind_value Operation then
            (let f = as_operation_filter flt
             in if truthy_str (of_sourceAccount f) \<or> truthy_str (of_type f)
                then Some [operationFilterToQueryEntry f] else None)
          else if h_kind handler = handler_kind_value Effects then
            (let f = as_effect_filter flt
             in if truthy_str (ef_account f) \<or> truthy_str (ef_type f)
                then Some [effectFilterToQueryEntry f] else None)
          else if h_kind handler = handler_kind_value Event then
            (let f = as_event_filter flt
             in if truthy_str (ds_address ds) \<or> evf_topics f \<noteq> None
                then Some [eventFilterToQueryEntry queryAddressLimit f (ds_dsOptions ds)] else None)
          else Some [])"

fun handlers_loop ::
  "nat \<Rightarrow> SubqlDatasource \<Rightarrow> SubqlHandler list \<Rightarrow> DictionaryQueryEntry list \<Rightarrow> DictionaryQueryEntry list option" where
  "handlers_loop lim ds [] queryEntries = Some queryEntries"
| "handlers_loop lim ds (handler # handlers) queryEntries =
     (case handler_entries lim ds handler of
        None \<Rightarrow> None
      | Some es \<Rightarrow> handlers_loop lim ds handlers (queryEntries @ es))"

fun datasources_loop ::
  "nat \<Rightarrow> SubqlDatasource list \<Rightarrow> DictionaryQueryEntry list \<Rightarrow> DictionaryQueryEntry list option" where
  "datasources_loop lim [] queryEntries = Some queryEntries"
| "datasources_loop lim (ds # dataSources) queryEntries =
     (case handlers_loop lim ds (m_handlers (ds_mapping ds)) queryEntries of
        None \<Rightarrow> None
      | Some es \<Rightarrow> datasources_loop lim dataSources es)"

text \<open>The key of an entry: its entity, a bar, and its conditions sorted by field, printed as JSON.\<close>

fun json_value :: "query_value \<Rightarrow> string" where
  "json_value (Single s) = json_string s"
| "json_value (Several ss) = json_array json_string ss"

definition json_condition :: "DictionaryQueryCondition \<Rightarrow> string" where
  "json_condition c =
     CHR 0x7B # json_string ''field'' @ CHR '':'' # json_string (cond_field c) @ CHR '','' #
     json_string ''value'' @ CHR '':'' # json_value (cond_value c) @ CHR '','' #
     json_string ''matcher'' @ CHR '':'' # json_string (cond_matcher c) @ [CHR 0x7D]"

definition entry_key ::
  "(DictionaryQueryCondition list \<Rightarrow> (DictionaryQueryCondition \<Rightarrow> string) \<Rightarrow> DictionaryQueryCondition list) \<Rightarrow>
   DictionaryQueryEntry \<Rightarrow> string" where
  "entry_key sortBy item =
     entity item @ CHR ''|'' # json_array json_condition (sortBy (conditions item) cond_field)"

definition buildDictionaryQueryEntries ::
  "(DictionaryQueryEntry list \<Rightarrow> (DictionaryQueryEntry \<Rightarrow> string) \<Rightarrow> DictionaryQueryEntry list) \<Rightarrow>
   (DictionaryQueryCondition list \<Rightarrow> (DictionaryQueryCondition \<Rightarrow> string) \<Rightarrow> DictionaryQueryCondition list) \<Rightarrow>
   nat \<Rightarrow> SubqlDatasource list \<Rightarrow> DictionaryQueryEntry list" where
  "buildDictionaryQueryEntries uniqBy sortBy queryAddressLimit dataSources =
     (case datasources_loop queryAddressLimit dataSources [] of
        None \<Rightarrow> []
      | Some queryEntries \<Rightarrow> uniqBy queryEntries (entry_key sortBy))"

section \<open>Keys identify entries\<close>

interpretation json_value: self_delimiting json_value
proof
  show "json_value x @ r = json_value y @ s \<longleftrightarrow> x = y \<and> r = s" for x y r s
  proof (cases x; cases y)
    fix a b assume "x = Single a" "y = Single b"
    then show ?thesis by (simp add: json_string.delimits)
  next
    fix as bs assume "x = Several as" "y = Several bs"
    then show ?thesis by (simp add: json_strings.array.delimits)
  qed (simp_all add: json_string_def json_array_def)
qed

lemma json_condition_delimits:
  fixes c d :: DictionaryQueryCondition
  shows "json_condition c @ r = json_condition d @ s \<longleftrightarrow> c = d \<and> r = s"
proof
  assume "json_condition c @ r = json_condition d @ s"
  then show "c = d \<and> r = s"
    by (simp add: json_condition_def json_string.delimits json_value.delimits)
qed simp

interpretation json_condition: delimited_array "json_condition :: DictionaryQueryCondition \<Rightarrow> string"
  by unfold_locales (simp_all add: json_condition_delimits, simp_all add: json_condition_def)

lemma append_bar: "CHR ''|'' \<notin> set a \<Longrightarrow> CHR ''|'' \<notin> set b \<Longrightarrow>
    a @ CHR ''|'' # r = b @ CHR ''|'' # s \<longleftrightarrow> a = b \<and> r = s"
proof (induction a arbitrary: b)
  case Nil
  then show ?case by (cases b) auto
next
  case (Cons x a)
  then show ?case by (cases b) auto
qed

text \<open>Two entries with the same key have the same entity and the same conditions, up to their order.\<close>

lemma entry_key_inject:
  assumes "CHR ''|'' \<notin> set (entity e)" "CHR ''|'' \<notin> set (entity e')"
  shows "entry_key sortBy e = entry_key sortBy e' \<longleftrightarrow>
    entity e = entity e' \<and> sortBy (conditions e) cond_field = sortBy (conditions e') cond_field"
  using append_bar [OF assms] json_condition.array.print_inject by (simp add: entry_key_def)

end
