(* ===== verification/Dictionary_Properties.thy ===== *)
theory Dictionary_Properties
  imports Dictionary_V1
begin

text \<open>
  Soundness of the dictionary query: the indexer skips the ledgers the dictionary does not list for the
  query, so every item a handler accepts must be asked for by an entry of the query.
  \<open>handler_accepts\<close> is the filter the indexer applies to the item; an entry \<open>asks_for\<close> an item when
  each of its conditions is one of \<open>item_conditions\<close>, the conditions the query functions push for the
  values of the item. How the dictionary answers a query is a parameter of \<open>Dictionary_Indexing\<close>.
\<close>

section \<open>Items and the entries that ask for them\<close>

datatype 'v item =
    TxItem TransactionRecord
  | OpItem OperationRecord
  | EffItem EffectRecord
  | EvItem "'v EventResponse"

fun item_kind :: "'v item \<Rightarrow> StellarHandlerKind" where
  "item_kind (TxItem t) = Transaction"
| "item_kind (OpItem p) = Operation"
| "item_kind (EffItem e) = Effects"
| "item_kind (EvItem v) = Event"

fun item_entity :: "'v item \<Rightarrow> string" where
  "item_entity (TxItem t) = ''transactions''"
| "item_entity (OpItem p) = ''operations''"
| "item_entity (EffItem e) = ''effects''"
| "item_entity (EvItem v) = ''events''"

definition topic_field :: "nat \<Rightarrow> string" where
  "topic_field i = ''topics'' @ nat_string i"

definition topic_text :: "('v \<Rightarrow> js_value) \<Rightarrow> 'v list \<Rightarrow> nat \<Rightarrow> string option" where
  "topic_text scv topic i =
     (if i < length topic then (case scv (topic ! i) of JStr s \<Rightarrow> Some s | _ \<Rightarrow> None) else None)"

text \<open>The conditions for the values of an item: the query puts accounts, types and the address of a
  contract in lower case, and leaves topics as they are.\<close>

fun item_conditions :: "('v \<Rightarrow> js_value) \<Rightarrow> 'v item \<Rightarrow> DictionaryQueryCondition list" where
  "item_conditions scv (TxItem t) = [equalTo ''account'' (toLowerCase (tx_source_account t))]"
| "item_conditions scv (OpItem p) =
     [equalTo ''type'' (toLowerCase (op_type p)), equalTo ''sourceAccount'' (toLowerCase (op_source_account p))]"
| "item_conditions scv (EffItem e) =
     [equalTo ''type'' (toLowerCase (eff_type e)), equalTo ''account'' (toLowerCase (eff_account e))]"
| "item_conditions scv (EvItem v) =
     (case ev_contractId v of None \<Rightarrow> [] | Some a \<Rightarrow> [equalTo ''address'' (toLowerCase a)]) @
     concat (map (\<lambda>i. case topic_text scv (ev_topic v) i of None \<Rightarrow> [] | Some s \<Rightarrow> [equalTo (topic_field i) s]) [0..<4])"

definition asks_for :: "('v \<Rightarrow> js_value) \<Rightarrow> DictionaryQueryEntry \<Rightarrow> 'v item \<Rightarrow> bool" where
  "asks_for scv e item \<longleftrightarrow>
     entity e = item_entity item \<and> set (conditions e) \<subseteq> set (item_conditions scv item)"

fun handler_accepts :: "('v \<Rightarrow> js_value) \<Rightarrow> SubqlDatasource \<Rightarrow> SubqlHandler \<Rightarrow> 'v item \<Rightarrow> bool" where
  "handler_accepts scv ds h (TxItem t) \<longleftrightarrow> h_kind h = handler_kind_value Transaction \<and>
     filterTransactionProcessor t (map_option as_transaction_filter (h_filter h)) (ds_address ds)"
| "handler_accepts scv ds h (OpItem p) \<longleftrightarrow> h_kind h = handler_kind_value Operation \<and>
     filterOperationProcessor p (map_option as_operation_filter (h_filter h)) (ds_address ds)"
| "handler_accepts scv ds h (EffItem e) \<longleftrightarrow> h_kind h = handler_kind_value Effects \<and>
     filterEffectProcessor e (map_option as_effect_filter (h_filter h)) (ds_address ds)"
| "handler_accepts scv ds h (EvItem v) \<longleftrightarrow> h_kind h = handler_kind_value Event \<and>
     filterEventProcessor scv v (map_option as_event_filter (h_filter h)) (ds_address ds)"

section \<open>One handler\<close>

lemma equalTo_inject [simp]: "equalTo fld v = equalTo fld' v' \<longleftrightarrow> fld = fld' \<and> v = v'"
  by (simp add: equalTo_def)

lemma push_lower_asks:
  "set (push_lower fld val cs) \<subseteq> S \<longleftrightarrow>
     (truthy_str val \<longrightarrow> equalTo fld (toLowerCase (the val)) \<in> S) \<and> set cs \<subseteq> S"
  by (auto simp: push_lower_def)

lemma topic_conditions_ask:
  "set (topic_conditions i topics) \<subseteq> S \<longleftrightarrow>
     (\<forall>j<length topics. i + j < 4 \<longrightarrow> truthy_str (topics ! j) \<longrightarrow> equalTo (topic_field (i + j)) (the (topics ! j)) \<in> S)"
proof (induction topics arbitrary: i)
  case (Cons t ts)
  have split: "(\<forall>j<length (t # ts). P j ((t # ts) ! j)) \<longleftrightarrow> P 0 t \<and> (\<forall>j<length ts. P (Suc j) (ts ! j))" for P
    by (auto simp: less_Suc_eq_0_disj)
  show ?case
    unfolding split [of "\<lambda>j t. i + j < 4 \<longrightarrow> truthy_str t \<longrightarrow> equalTo (topic_field (i + j)) (the t) \<in> S"]
    using Cons.IH [of "Suc i"] by (auto simp: topic_field_def)
qed simp

lemma event_topics_asked:
  assumes "topics_loop scv topics (ev_topic v) 0"
  shows "set (topic_conditions 0 topics) \<subseteq> set (item_conditions scv (EvItem v))"
  unfolding topic_conditions_ask
proof (intro allI impI)
  fix j assume j: "j < length topics" "0 + j < 4" "truthy_str (topics ! j)"
  then have "topic_matches scv topics (ev_topic v) j" using assms by (simp add: topics_loop_iff)
  then have "topic_text scv (ev_topic v) j = Some (the (topics ! j))"
    using j(3) by (simp add: topic_matches_def topic_text_def)
  then show "equalTo (topic_field (0 + j)) (the (topics ! j)) \<in> set (item_conditions scv (EvItem v))"
    using j(2) by (auto intro!: bexI [of _ j])
qed

lemma address_asked:
  assumes "truthy_str a \<longrightarrow> stringNormalizedEq (the a) (ev_contractId v)"
  shows "set (push_lower ''address'' a []) \<subseteq> set (item_conditions scv (EvItem v))"
  using assms by (cases "ev_contractId v") (auto simp: push_lower_asks stringNormalizedEq_def split: option.splits)

lemma handler_entries_sound:
  assumes "handler_entries lim ds h = Some es" "handler_accepts scv ds h item"
  shows "\<exists>e\<in>set es. asks_for scv e item"
proof (cases item)
  case (TxItem t)
  then show ?thesis
    using assms
    by (auto simp: handler_entries_def Let_def transactionFilterToQueryEntry_def asks_for_def
        push_lower_asks filterTransactionProcessor_def split: option.splits if_splits)
next
  case (OpItem p)
  then show ?thesis
    using assms
    by (auto simp: handler_entries_def Let_def operationFilterToQueryEntry_def asks_for_def
        push_lower_asks filterOperationProcessor_def split: option.splits if_splits)
next
  case (EffItem e)
  then show ?thesis
    using assms
    by (auto simp: handler_entries_def Let_def effectFilterToQueryEntry_def asks_for_def
        push_lower_asks filterEffectProcessor_def split: option.splits if_splits)
next
  case (EvItem v)
  then obtain f where f: "h_filter h = Some f" and kind: "h_kind h = handler_kind_value Event"
      and acc: "filterEventProcessor scv v (Some (as_event_filter f)) (ds_address ds)"
      and es: "es = [eventFilterToQueryEntry lim (as_event_filter f) (ds_dsOptions ds)]"
    using assms by (auto simp: handler_entries_def Let_def split: option.splits if_splits)
  have "truthy_str (ds_address ds) \<longrightarrow> stringNormalizedEq (the (ds_address ds)) (ev_contractId v)"
    and topics: "\<forall>ts. evf_topics (as_event_filter f) = Some ts \<longrightarrow> topics_loop scv ts (ev_topic v) 0"
    using acc by (auto simp: filterEventProcessor_def split: if_splits option.splits)
  then have "set (address_conditions lim (ds_dsOptions ds)) \<subseteq> set (item_conditions scv item)"
    using address_asked [of "ds_address ds" v scv] EvItem
    by (auto simp: address_conditions_def ds_dsOptions_def ds_address_def split: option.splits)
  moreover have "set (case evf_topics (as_event_filter f) of None \<Rightarrow> [] | Some ts \<Rightarrow> topic_conditions 0 ts)
      \<subseteq> set (item_conditions scv item)"
  proof (cases "evf_topics (as_event_filter f)")
    case (Some ts)
    then have "topics_loop scv ts (ev_topic v) 0" using topics by blast
    then show ?thesis using event_topics_asked EvItem Some by fastforce
  qed simp
  ultimately show ?thesis
    by (simp add: es eventFilterToQueryEntry_def asks_for_def EvItem)
qed

section \<open>The loops\<close>

definition query_entities :: "string list" where
  "query_entities = [''transactions'', ''operations'', ''effects'', ''events'']"

lemma handler_entries_entities:
  "handler_entries lim ds h = Some es \<Longrightarrow> e \<in> set es \<Longrightarrow> entity e \<in> set query_entities"
  by (auto simp: handler_entries_def Let_def query_entities_def transactionFilterToQueryEntry_def
      operationFilterToQueryEntry_def effectFilterToQueryEntry_def eventFilterToQueryEntry_def
      split: option.splits if_splits)

lemma handlers_loop_Some:
  "handlers_loop lim ds hs q = Some q' \<Longrightarrow>
   \<exists>es. q' = q @ es \<and> (\<forall>e\<in>set es. entity e \<in> set query_entities) \<and>
     (\<forall>h\<in>set hs. \<exists>es'. handler_entries lim ds h = Some es' \<and> set es' \<subseteq> set es)"
proof (induction hs arbitrary: q)
  case (Cons h hs)
  then obtain es1 where es1: "handler_entries lim ds h = Some es1" "handlers_loop lim ds hs (q @ es1) = Some q'"
    by (auto split: option.splits)
  from Cons.IH [OF this(2)] obtain es2 where es2: "q' = (q @ es1) @ es2"
      "\<forall>e\<in>set es2. entity e \<in> set query_entities"
      "\<forall>h\<in>set hs. \<exists>es'. handler_entries lim ds h = Some es' \<and> set es' \<subseteq> set es2" by blast
  show ?case
    using es1(1) es2 handler_entries_entities [OF es1(1)]
    by (intro exI [of _ "es1 @ es2"]) fastforce
qed simp

lemma datasources_loop_Some:
  "datasources_loop lim dss q = Some q' \<Longrightarrow>
   \<exists>es. q' = q @ es \<and> (\<forall>e\<in>set es. entity e \<in> set query_entities) \<and>
     (\<forall>ds\<in>set dss. \<forall>h\<in>set (m_handlers (ds_mapping ds)).
        \<exists>es'. handler_entries lim ds h = Some es' \<and> set es' \<subseteq> set es)"
proof (induction dss arbitrary: q)
  case (Cons ds dss)
  then obtain q1 where q1: "handlers_loop lim ds (m_handlers (ds_mapping ds)) q = Some q1"
      "datasources_loop lim dss q1 = Some q'"
    by (auto split: option.splits)
  from handlers_loop_Some [OF q1(1)] obtain es1 where es1: "q1 = q @ es1"
      "\<forall>e\<in>set es1. entity e \<in> set query_entities"
      "\<forall>h\<in>set (m_handlers (ds_mapping ds)). \<exists>es'. handler_entries lim ds h = Some es' \<and> set es' \<subseteq> set es1"
    by blast
  from Cons.IH [OF q1(2)] obtain es2 where es2: "q' = q1 @ es2"
      "\<forall>e\<in>set es2. entity e \<in> set query_entities"
      "\<forall>ds\<in>set dss. \<forall>h\<in>set (m_handlers (ds_mapping ds)).
        \<exists>es'. handler_entries lim ds h = Some es' \<and> set es' \<subseteq> set es2" by blast
  show ?case
    using es1 es2 by (intro exI [of _ "es1 @ es2"]) fastforce
qed simp

lemma handlers_loop_stops:
  "h \<in> set hs \<Longrightarrow> handler_entries lim ds h = None \<Longrightarrow> handlers_loop lim ds hs q = None"
  by (induction hs arbitrary: q) (auto split: option.splits)

lemma datasources_loop_stops:
  "ds \<in> set dss \<Longrightarrow> h \<in> set (m_handlers (ds_mapping ds)) \<Longrightarrow> handler_entries lim ds h = None \<Longrightarrow>
   datasources_loop lim dss q = None"
  by (induction dss arbitrary: q) (auto split: option.splits simp: handlers_loop_stops)

text \<open>How many entries the loops push, and how long these are.\<close>

lemma topic_conditions_bounded: "length (topic_conditions i topics) \<le> 4 - i"
  by (induction i topics rule: topic_conditions.induct) auto

lemma handler_entries_bounded:
  "handler_entries lim ds h = Some es \<Longrightarrow> length es \<le> 1 \<and> list_all (\<lambda>e. length (conditions e) \<le> 5) es"
proof -
  have "length (address_conditions lim opts) \<le> 1" for opts
    by (auto simp: address_conditions_def Let_def push_lower_def split: dsOptions.split)
  then have "length (address_conditions lim opts) + length (topic_conditions 0 ts) \<le> 1 + 4" for opts ts
    using topic_conditions_bounded [of 0 ts] by (intro add_mono) simp_all
  then have "length (conditions (eventFilterToQueryEntry lim f opts)) \<le> 5" for f opts
    using add_leD1 by (fastforce simp: eventFilterToQueryEntry_def split: option.split)
  then show "handler_entries lim ds h = Some es \<Longrightarrow> length es \<le> 1 \<and> list_all (\<lambda>e. length (conditions e) \<le> 5) es"
    by (auto simp: handler_entries_def Let_def transactionFilterToQueryEntry_def operationFilterToQueryEntry_def
        effectFilterToQueryEntry_def push_lower_def split: option.splits if_splits)
qed

lemma handlers_loop_bounded:
  "handlers_loop lim ds hs q = Some q' \<Longrightarrow>
   length q' \<le> length q + length hs \<and>
   (list_all (\<lambda>e. length (conditions e) \<le> 5) q \<longrightarrow> list_all (\<lambda>e. length (conditions e) \<le> 5) q')"
proof (induction hs arbitrary: q)
  case (Cons h hs)
  then obtain es where es: "handler_entries lim ds h = Some es" "handlers_loop lim ds hs (q @ es) = Some q'"
    by (auto split: option.splits)
  show ?case using Cons.IH [OF es(2)] handler_entries_bounded [OF es(1)] by auto
qed simp

lemma datasources_loop_bounded_from:
  "datasources_loop lim dss q = Some q' \<Longrightarrow>
   length q' \<le> length q + sum_list (map (\<lambda>ds. length (m_handlers (ds_mapping ds))) dss) \<and>
   (list_all (\<lambda>e. length (conditions e) \<le> 5) q \<longrightarrow> list_all (\<lambda>e. length (conditions e) \<le> 5) q')"
proof (induction dss arbitrary: q)
  case (Cons ds dss)
  then obtain q1 where q1: "handlers_loop lim ds (m_handlers (ds_mapping ds)) q = Some q1"
      "datasources_loop lim dss q1 = Some q'"
    by (auto split: option.splits)
  show ?case using Cons.IH [OF q1(2)] handlers_loop_bounded [OF q1(1)] by auto
qed simp

lemma datasources_loop_bounded:
  "datasources_loop lim dss [] = Some q \<Longrightarrow>
   length q \<le> sum_list (map (\<lambda>ds. length (m_handlers (ds_mapping ds))) dss) \<and>
   (\<forall>e\<in>set q. length (conditions e) \<le> 5)"
  using datasources_loop_bounded_from [of lim dss "[]" q] by (simp add: list_all_iff)

text \<open>A project without its handlers of Soroban transactions.\<close>

definition without_soroban_transactions :: "SubqlDatasource \<Rightarrow> SubqlDatasource" where
  "without_soroban_transactions ds =
     ds\<lparr>ds_mapping := (ds_mapping ds)\<lparr>m_handlers :=
       filter (\<lambda>h. h_kind h \<noteq> handler_kind_value SorobanTransaction) (m_handlers (ds_mapping ds))\<rparr>\<rparr>"

lemma without_soroban_transactions_sel [simp]:
  "ds_options (without_soroban_transactions ds) = ds_options ds"
  "m_handlers (ds_mapping (without_soroban_transactions ds)) =
     filter (\<lambda>h. h_kind h \<noteq> handler_kind_value SorobanTransaction) (m_handlers (ds_mapping ds))"
  "ds_address (without_soroban_transactions ds) = ds_address ds"
  "ds_dsOptions (without_soroban_transactions ds) = ds_dsOptions ds"
  by (simp_all add: without_soroban_transactions_def ds_address_def ds_dsOptions_def)

definition unfiltered_soroban_transactions :: "SubqlDatasource \<Rightarrow> bool" where
  "unfiltered_soroban_transactions ds \<longleftrightarrow>
     (\<exists>h\<in>set (m_handlers (ds_mapping ds)). h_kind h = handler_kind_value SorobanTransaction \<and> h_filter h = None)"

lemma handlers_loop_without:
  assumes "\<And>h. h \<in> set hs \<Longrightarrow> h_kind h = handler_kind_value SorobanTransaction \<Longrightarrow> h_filter h \<noteq> None"
  shows "handlers_loop lim (without_soroban_transactions ds) (filter (\<lambda>h. h_kind h \<noteq> handler_kind_value SorobanTransaction) hs) q
    = handlers_loop lim ds hs q"
  using assms
proof (induction hs arbitrary: q)
  case (Cons h hs)
  have "handler_entries lim (without_soroban_transactions ds) h = handler_entries lim ds h"
    unfolding handler_entries_def without_soroban_transactions_sel by (rule refl)
  moreover have "h_kind h = handler_kind_value SorobanTransaction \<Longrightarrow> handler_entries lim ds h = Some []"
    using Cons.prems [of h] by (auto simp: handler_entries_def)
  ultimately show ?case using Cons by (auto split: option.split)
qed simp

lemma datasources_loop_without:
  assumes "\<not> (\<exists>ds\<in>set dss. unfiltered_soroban_transactions ds)"
  shows "datasources_loop lim (map without_soroban_transactions dss) q = datasources_loop lim dss q"
  using assms
proof (induction dss arbitrary: q)
  case (Cons ds dss)
  have "handlers_loop lim (without_soroban_transactions ds) (m_handlers (ds_mapping (without_soroban_transactions ds))) q
      = handlers_loop lim ds (m_handlers (ds_mapping ds)) q"
    using handlers_loop_without [of "m_handlers (ds_mapping ds)" lim ds q] Cons.prems
    by (auto simp: unfiltered_soroban_transactions_def)
  with Cons show ?case by (simp split: option.split)
qed simp

lemma datasources_loop_unfiltered:
  assumes "ds \<in> set dss" "unfiltered_soroban_transactions ds"
  shows "datasources_loop lim dss q = None"
proof -
  obtain h where "h \<in> set (m_handlers (ds_mapping ds))" "h_filter h = None"
    using assms(2) by (auto simp: unfiltered_soroban_transactions_def)
  then show ?thesis by (intro datasources_loop_stops [OF assms(1)]) (auto simp: handler_entries_def)
qed

lemma asks_for_key:
  assumes "lodash_sortBy sortBy"
    and "entity e \<in> set query_entities" "entity e' \<in> set query_entities"
    and "entry_key sortBy e = entry_key sortBy e'" "asks_for scv e item"
  shows "asks_for scv e' item"
proof -
  have "CHR ''|'' \<notin> set (entity x)" if "entity x \<in> set query_entities" for x :: DictionaryQueryEntry
    using that by (auto simp: query_entities_def)
  then have "entity e = entity e'" "sortBy (conditions e) cond_field = sortBy (conditions e') cond_field"
    using entry_key_inject [of e e' sortBy] assms(2-4) by auto
  moreover from this(2) have "set (conditions e) = set (conditions e')"
    using lodash_sortBy.sortBy_set [OF assms(1)] by metis
  ultimately show ?thesis using assms(5) by (simp add: asks_for_def)
qed

section \<open>The query covers its handlers\<close>

lemma query_covers:
  assumes "lodash_uniqBy uniqBy" "lodash_sortBy sortBy"
    and "buildDictionaryQueryEntries uniqBy sortBy lim dss = es" "es \<noteq> []"
    and "ds \<in> set dss" "h \<in> set (m_handlers (ds_mapping ds))" "handler_accepts scv ds h item"
  shows "\<exists>e\<in>set es. asks_for scv e item"
proof -
  obtain q where q: "datasources_loop lim dss [] = Some q" and es: "es = uniqBy q (entry_key sortBy)"
    using assms(3,4) by (auto simp: buildDictionaryQueryEntries_def split: option.splits)
  have ent: "\<forall>e\<in>set q. entity e \<in> set query_entities"
    and "\<forall>ds\<in>set dss. \<forall>h\<in>set (m_handlers (ds_mapping ds)).
      \<exists>es'. handler_entries lim ds h = Some es' \<and> set es' \<subseteq> set q"
    using datasources_loop_Some [OF q] by auto
  then obtain es' where es': "handler_entries lim ds h = Some es'" "set es' \<subseteq> set q"
    using assms(5,6) by blast
  obtain e where e: "e \<in> set q" "asks_for scv e item"
    using handler_entries_sound [OF es'(1) assms(7)] es'(2) by blast
  obtain y where y: "y \<in> set es" "entry_key sortBy y = entry_key sortBy e"
    using lodash_uniqBy.uniqBy_represents [OF assms(1) e(1)] es by blast
  moreover have "y \<in> set q" using y(1) lodash_uniqBy.uniqBy_subset [OF assms(1)] es by blast
  ultimately show ?thesis
    using asks_for_key [OF assms(2) _ _ _ e(2), of y] ent e(1) by metis
qed

section \<open>Properties\<close>

definition sample_handler :: "StellarHandlerKind \<Rightarrow> string \<Rightarrow> SubqlHandler" where
  "sample_handler k account = \<lparr>h_handler = ''handle'', h_kind = handler_kind_value k,
     h_filter = Some (empty_filter\<lparr>f_account := Some account\<rparr>)\<rparr>"

definition sample_ds :: "SubqlHandler list \<Rightarrow> SubqlDatasource" where
  "sample_ds hs = \<lparr>ds_kind = StellarDatasourceKind_Runtime, ds_startBlock = Some 1,
     ds_mapping = \<lparr>m_file = ''dist/index.js'', m_handlers = hs\<rparr>, ds_options = None, ds_processor = None\<rparr>"

definition sample_query :: "SubqlHandler list \<Rightarrow> DictionaryQueryEntry list" where
  "sample_query hs = buildDictionaryQueryEntries reference_uniqBy (\<lambda>cs f. sort_key f cs) 100 [sample_ds hs]"

text \<open>
  The query is empty, so that the dictionary is not used, as soon as one handler cannot be
  expressed: a handler without a filter, a block handler, or a handler whose filter sets no field.
\<close>

lemma dictionary_disabled:
  assumes "ds \<in> set dss" "h \<in> set (m_handlers (ds_mapping ds))"
    and "h_filter h = None \<or> h_kind h = handler_kind_value Block \<or>
      (h_filter h = Some empty_filter \<and>
       h_kind h \<in> handler_kind_value ` {Transaction, Operation, Effects})"
  shows "buildDictionaryQueryEntries uniqBy sortBy lim dss = []"
proof -
  have "handler_entries lim ds h = None"
    using assms(3) by (auto simp: handler_entries_def Let_def filter_cast_defs empty_filter_def split: option.split)
  from datasources_loop_stops [OF assms(1,2) this] show ?thesis
    by (simp add: buildDictionaryQueryEntries_def)
qed

text \<open>
  C28: The query is bounded by the project: it has at most one entry for each handler, no two with the
  same entity and the same sorted conditions, and no entry has more than five conditions, the
  address and four topics.
\<close>

theorem dictionary_query_bounded:
  assumes "lodash_uniqBy uniqBy"
  shows "length (buildDictionaryQueryEntries uniqBy sortBy lim dss)
      \<le> sum_list (map (\<lambda>ds. length (m_handlers (ds_mapping ds))) dss) \<and>
    distinct (map (\<lambda>e. (entity e, sortBy (conditions e) cond_field)) (buildDictionaryQueryEntries uniqBy sortBy lim dss)) \<and>
    list_all (\<lambda>e. length (conditions e) \<le> 5) (buildDictionaryQueryEntries uniqBy sortBy lim dss)"
proof (cases "datasources_loop lim dss []")
  case (Some q)
  let ?es = "uniqBy q (entry_key sortBy)"
  have keys: "distinct (map (entry_key sortBy) ?es)" by (rule lodash_uniqBy.uniqBy_distinct [OF assms])
  have sub: "set ?es \<subseteq> set q" by (rule lodash_uniqBy.uniqBy_subset [OF assms])
  have "length ?es = card (set ?es)" using keys by (simp add: distinct_map distinct_card)
  also have "\<dots> \<le> length q" using card_mono [OF _ sub] card_length [of q] by simp
  finally have "length ?es \<le> sum_list (map (\<lambda>ds. length (m_handlers (ds_mapping ds))) dss)"
    using datasources_loop_bounded [OF Some] by simp
  moreover have "distinct (map (\<lambda>e. (entity e, sortBy (conditions e) cond_field)) ?es)"
    using keys by (auto simp: distinct_map inj_on_def entry_key_def)
  moreover have "list_all (\<lambda>e. length (conditions e) \<le> 5) ?es"
    using datasources_loop_bounded [OF Some] sub by (auto simp: list_all_iff)
  ultimately show ?thesis using Some by (simp add: buildDictionaryQueryEntries_def)
qed (simp add: buildDictionaryQueryEntries_def)

theorem dictionary_query_bounded_witness:
  "length (sample_query [sample_handler Transaction ''GA'', sample_handler Transaction ''ga'']) \<le> 2"
  unfolding sample_query_def
  using dictionary_query_bounded [OF reference_uniqBy.lodash_uniqBy_axioms, THEN conjunct1,
      of "\<lambda>cs f. sort_key f cs" 100 "[sample_ds [sample_handler Transaction ''GA'', sample_handler Transaction ''ga'']]"]
  by (simp add: sample_ds_def)

text \<open>
  C29: Handlers of Soroban transactions never put an entry into the query. If one of them has no
  filter, the query is empty and the dictionary is not used at all; otherwise the project has the
  query it would have without them.
\<close>

theorem soroban_transactions_ignored:
  "buildDictionaryQueryEntries uniqBy sortBy lim dss =
     (if \<exists>ds\<in>set dss. unfiltered_soroban_transactions ds then []
      else buildDictionaryQueryEntries uniqBy sortBy lim (map without_soroban_transactions dss))"
proof (cases "\<exists>ds\<in>set dss. unfiltered_soroban_transactions ds")
  case True
  then show ?thesis using datasources_loop_unfiltered by (auto simp: buildDictionaryQueryEntries_def)
next
  case False
  then show ?thesis using datasources_loop_without [OF False] by (simp add: buildDictionaryQueryEntries_def)
qed

theorem soroban_transactions_ignored_witness:
  "sample_query [sample_handler Transaction ''GA'', sample_handler SorobanTransaction ''GB'']
     = sample_query [sample_handler Transaction ''GA''] \<and>
   filterTransactionProcessor \<lparr>tx_hash = ''t'', tx_source_account = ''GB''\<rparr>
     (map_option as_transaction_filter (h_filter (sample_handler SorobanTransaction ''GB''))) None \<and>
   filter (\<lambda>e. asks_for id e (TxItem \<lparr>tx_hash = ''t'', tx_source_account = ''GB''\<rparr>))
     (sample_query [sample_handler Transaction ''GA'', sample_handler SorobanTransaction ''GB'']) = []"
proof (intro conjI)
  let ?ds = "sample_ds [sample_handler Transaction ''GA'', sample_handler SorobanTransaction ''GB'']"
  have "without_soroban_transactions ?ds = sample_ds [sample_handler Transaction ''GA'']"
    by (simp add: without_soroban_transactions_def sample_ds_def sample_handler_def)
  then show "sample_query [sample_handler Transaction ''GA'', sample_handler SorobanTransaction ''GB'']
      = sample_query [sample_handler Transaction ''GA'']"
    unfolding sample_query_def
    by (subst soroban_transactions_ignored) (simp add: sample_ds_def sample_handler_def unfiltered_soroban_transactions_def)
qed code_simp+

end
