(* ===== verification/Indexer_Manager.thy ===== *)
theory Indexer_Manager
  imports Block_Filter Project_Utils Stellar_Api
begin

text \<open>
  \<open>packages/node/src/indexer/indexer.manager.ts\<close>: how a block is handed to the handlers of the
  datasources, and the dispatch tables.

  \<open>indexData\<close> (of \<open>BaseIndexerManager\<close> in \<open>@subql/node-core\<close>) runs the handlers of one datasource
  on one item. It is a parameter: an action on a state \<open>'s\<close> that may throw. So are
  \<open>internalIndexBlock\<close> and the sandbox service.
\<close>

section \<open>Items handed to handlers\<close>

datatype 'v data =
    BlockData "'v StellarBlock"
  | TransactionData "'v StellarTransaction"
  | OperationData "'v StellarOperation"
  | EffectData "'v StellarEffect"
  | EventData "'v SorobanEvent"

text \<open>The type of the data a kind of handler takes, and the type of an item.\<close>

datatype input_type = BlockInput | TransactionInput | OperationInput | EffectInput | EventInput

fun StellarRuntimeHandlerInputMap :: "StellarHandlerKind \<Rightarrow> input_type" where
  "StellarRuntimeHandlerInputMap Block = BlockInput"
| "StellarRuntimeHandlerInputMap Transaction = TransactionInput"
| "StellarRuntimeHandlerInputMap SorobanTransaction = TransactionInput"
| "StellarRuntimeHandlerInputMap Operation = OperationInput"
| "StellarRuntimeHandlerInputMap Effects = EffectInput"
| "StellarRuntimeHandlerInputMap Event = EventInput"

fun data_type :: "'v data \<Rightarrow> input_type" where
  "data_type (BlockData b) = BlockInput"
| "data_type (TransactionData t) = TransactionInput"
| "data_type (OperationData p) = OperationInput"
| "data_type (EffectData e) = EffectInput"
| "data_type (EventData v) = EventInput"

text \<open>The table \<open>FilterTypeMap\<close>; a kind is only ever paired with data of its own type.\<close>

fun FilterTypeMap ::
  "(int option \<Rightarrow> StellarBlockFilter \<Rightarrow> bool) \<Rightarrow> ('v \<Rightarrow> js_value) \<Rightarrow> StellarHandlerKind \<Rightarrow> 'v data \<Rightarrow>
   SubqlHandlerFilter option \<Rightarrow> SubqlDatasource \<Rightarrow> bool" where
  "FilterTypeMap tsf scv Block (BlockData b) flt ds =
     filterBlocksProcessor tsf (block_record b) (map_option as_block_filter flt) (ds_address ds)"
| "FilterTypeMap tsf scv Transaction (TransactionData t) flt ds =
     filterTransactionProcessor (transaction_record t) (map_option as_transaction_filter flt) (ds_address ds)"
| "FilterTypeMap tsf scv SorobanTransaction (TransactionData t) flt ds =
     filterTransactionProcessor (transaction_record t) (map_option as_transaction_filter flt) (ds_address ds)"
| "FilterTypeMap tsf scv Operation (OperationData p) flt ds =
     filterOperationProcessor (operation_record p) (map_option as_operation_filter flt) (ds_address ds)"
| "FilterTypeMap tsf scv Effects (EffectData e) flt ds =
     filterEffectProcessor (effect_record e) (map_option as_effect_filter flt) (ds_address ds)"
| "FilterTypeMap tsf scv Event (EventData v) flt ds =
     filterEventProcessor scv (event_record v) (map_option as_event_filter flt) (ds_address ds)"
| "FilterTypeMap tsf scv _ _ flt ds = False"

section \<open>Indexing a block\<close>

type_synonym ('s, 'v) indexData = "StellarHandlerKind \<Rightarrow> 'v data \<Rightarrow> SubqlDatasource \<Rightarrow> ('s, unit) action"

definition indexBlockContent ::
  "('s, 'v) indexData \<Rightarrow> 'v StellarBlock \<Rightarrow> SubqlDatasource list \<Rightarrow> ('s, unit) action" where
  "indexBlockContent indexData b dataSources =
     for_each dataSources (\<lambda>ds. indexData Block (BlockData b) ds)"

definition invokes_contract :: "'v StellarTransaction \<Rightarrow> bool" where
  "invokes_contract t =
     (\<exists>op \<in> set (transaction_operations t). op_type (operation_record op) = ''invoke_host_function'')"

definition indexTransaction ::
  "('s, 'v) indexData \<Rightarrow> 'v StellarTransaction \<Rightarrow> SubqlDatasource list \<Rightarrow> ('s, unit) action" where
  "indexTransaction indexData t dataSources =
     for_each dataSources (\<lambda>ds.
       andThen (indexData Transaction (TransactionData t) ds)
         (if invokes_contract t then indexData SorobanTransaction (TransactionData t) ds else skip))"

definition indexOperation ::
  "('s, 'v) indexData \<Rightarrow> 'v StellarOperation \<Rightarrow> SubqlDatasource list \<Rightarrow> ('s, unit) action" where
  "indexOperation indexData p dataSources =
     for_each dataSources (\<lambda>ds. indexData Operation (OperationData p) ds)"

definition indexEffect ::
  "('s, 'v) indexData \<Rightarrow> 'v StellarEffect \<Rightarrow> SubqlDatasource list \<Rightarrow> ('s, unit) action" where
  "indexEffect indexData e dataSources =
     for_each dataSources (\<lambda>ds. indexData Effects (EffectData e) ds)"

definition indexEvent ::
  "('s, 'v) indexData \<Rightarrow> 'v SorobanEvent \<Rightarrow> SubqlDatasource list \<Rightarrow> ('s, unit) action" where
  "indexEvent indexData v dataSources =
     for_each dataSources (\<lambda>ds. indexData Event (EventData v) ds)"

definition indexBlockData ::
  "('s, 'v) indexData \<Rightarrow> 'v StellarBlockWrapper \<Rightarrow> SubqlDatasource list \<Rightarrow> ('s, unit) action" where
  "indexBlockData indexData wrapper dataSources =
     andThen (indexBlockContent indexData (block wrapper) dataSources)
       (for_each (transactions wrapper) (\<lambda>t.
          andThen (indexTransaction indexData t dataSources)
            (for_each (transaction_operations t) (\<lambda>p.
               andThen (indexOperation indexData p dataSources)
                 (andThen (for_each (operation_effects p) (\<lambda>e. indexEffect indexData e dataSources))
                    (for_each (operation_events p) (\<lambda>v. indexEvent indexData v dataSources)))))))"

section \<open>The sandbox of a datasource\<close>

text \<open>No safe API is handed to the handlers.\<close>

definition getApi :: "'v StellarBlockWrapper \<Rightarrow> string option result" where
  "getApi wrapper = Inr None"

definition getDsProcessor ::
  "(SubqlDatasource \<Rightarrow> string option \<Rightarrow> string \<Rightarrow> string option \<Rightarrow> 'sandbox) \<Rightarrow> bool \<Rightarrow> StellarApi \<Rightarrow>
   SubqlDatasource \<Rightarrow> string option \<Rightarrow> 'sandbox result" where
  "getDsProcessor sandbox unsafe api ds safeApi =
     (if unsafe then
        (case sorobanClient api of
           Inl e \<Rightarrow> Inl e
         | Inr client \<Rightarrow> Inr (sandbox ds safeApi (api_endpoint api) (Some client)))
      else Inr (sandbox ds safeApi (api_endpoint api) None))"

definition indexBlock ::
  "('v IBlock \<Rightarrow> SubqlDatasource list \<Rightarrow> (unit \<Rightarrow> string option result) \<Rightarrow> ('s, 'r) action) \<Rightarrow>
   'v IBlock \<Rightarrow> SubqlDatasource list \<Rightarrow> ('s, 'r) action" where
  "indexBlock internalIndexBlock b dataSources =
     internalIndexBlock b dataSources (\<lambda>_. getApi (iblock b))"

definition prepareFilteredData :: "StellarHandlerKind \<Rightarrow> 'v data \<Rightarrow> SubqlDatasource \<Rightarrow> 'v data" where
  "prepareFilteredData kind d ds = d"

section \<open>The schedule of a block\<close>

text \<open>
  The calls \<open>indexBlockData\<close> makes, as a list: the block, then for each transaction the transaction
  (and again as a Soroban transaction when it invokes a contract), its operations, and after each
  operation its effects and then its events; each item for all datasources in turn.
\<close>

type_synonym 'v visit = "StellarHandlerKind \<times> 'v data \<times> SubqlDatasource"

definition visits :: "SubqlDatasource list \<Rightarrow> StellarHandlerKind \<Rightarrow> 'v data \<Rightarrow> 'v visit list" where
  "visits dss k d = map (\<lambda>ds. (k, d, ds)) dss"

definition transaction_visits :: "SubqlDatasource list \<Rightarrow> 'v StellarTransaction \<Rightarrow> 'v visit list" where
  "transaction_visits dss t =
     concat (map (\<lambda>ds. (Transaction, TransactionData t, ds) #
       (if invokes_contract t then [(SorobanTransaction, TransactionData t, ds)] else [])) dss)"

definition operation_visits :: "SubqlDatasource list \<Rightarrow> 'v StellarOperation \<Rightarrow> 'v visit list" where
  "operation_visits dss p =
     visits dss Operation (OperationData p) @
     concat (map (\<lambda>e. visits dss Effects (EffectData e)) (operation_effects p)) @
     concat (map (\<lambda>v. visits dss Event (EventData v)) (operation_events p))"

definition block_schedule :: "'v StellarBlockWrapper \<Rightarrow> SubqlDatasource list \<Rightarrow> 'v visit list" where
  "block_schedule wrapper dss =
     visits dss Block (BlockData (block wrapper)) @
     concat (map (\<lambda>t. transaction_visits dss t @
       concat (map (operation_visits dss) (transaction_operations t))) (transactions wrapper))"

definition run_visit :: "('s, 'v) indexData \<Rightarrow> 'v visit \<Rightarrow> ('s, unit) action" where
  "run_visit indexData = (\<lambda>(k, d, ds). indexData k d ds)"

lemma run_visits: "for_each (visits dss k d) (run_visit f) = for_each dss (f k d)"
  by (simp add: visits_def for_each_map run_visit_def)

lemma run_transaction_visits:
  "for_each (transaction_visits dss t) (run_visit f) = indexTransaction f t dss"
  by (cases "invokes_contract t")
    (simp_all add: transaction_visits_def indexTransaction_def for_each_simps run_visit_def)

lemma run_operation_visits:
  "for_each (operation_visits dss p) (run_visit f) =
     andThen (indexOperation f p dss)
       (andThen (for_each (operation_effects p) (\<lambda>e. indexEffect f e dss))
          (for_each (operation_events p) (\<lambda>v. indexEvent f v dss)))"
  by (simp add: operation_visits_def for_each_simps run_visits indexOperation_def indexEffect_def indexEvent_def)

lemma indexBlockData_eq:
  "indexBlockData f wrapper dss = for_each (block_schedule wrapper dss) (run_visit f)"
  by (simp add: indexBlockData_def block_schedule_def for_each_simps run_visits run_transaction_visits
      run_operation_visits indexBlockContent_def)

section \<open>What is visited\<close>

definition visited :: "StellarHandlerKind \<Rightarrow> 'v visit list \<Rightarrow> ('v data \<times> SubqlDatasource) list" where
  "visited k vs = map snd (filter (\<lambda>v. fst v = k) vs)"

lemma visited_append [simp]: "visited k (xs @ ys) = visited k xs @ visited k ys"
  by (simp add: visited_def)

lemma visited_Nil [simp]: "visited k [] = []"
  by (simp add: visited_def)

lemma visited_Cons [simp]: "visited k (v # vs) = (if fst v = k then snd v # visited k vs else visited k vs)"
  by (simp add: visited_def)

lemma visited_concat: "visited k (concat vss) = concat (map (visited k) vss)"
  by (induction vss) simp_all

lemma visited_visits: "visited k (visits dss l d) = (if k = l then map (Pair d) dss else [])"
  by (induction dss) (auto simp: visits_def)

lemma visited_transaction_visits:
  "visited k (transaction_visits dss t) =
     (if k = Transaction \<or> k = SorobanTransaction \<and> invokes_contract t
      then map (Pair (TransactionData t)) dss else [])"
  by (induction dss) (auto simp: transaction_visits_def)

lemma visited_operation_visits:
  "visited k (operation_visits dss p) =
     (if k = Operation then map (Pair (OperationData p)) dss
      else if k = Effects then concat (map (\<lambda>e. map (Pair (EffectData e)) dss) (operation_effects p))
      else if k = Event then concat (map (\<lambda>v. map (Pair (EventData v)) dss) (operation_events p))
      else [])"
  by (cases k) (simp_all add: operation_visits_def visited_concat comp_def visited_visits)

end
