(* ===== verification/Indexer_Properties.thy ===== *)
theory Indexer_Properties
  imports Indexer_Manager Ledger_Properties
begin

text \<open>
  What the handlers of a project see of a block: the order of the calls, which items are handed
  over, and what a handler that throws does to the rest.
\<close>

section \<open>The events of the operations\<close>

lemma events_of_transaction:
  "mset (concat (map (events_of_op evs tx) [0..<length (ops_of ops tx)])) = filter_mset (\<lambda>e. owns ops e tx) (mset evs)"
proof -
  have "concat (map (events_of_op evs tx) [0..<n])
      = concat (map (\<lambda>i. filter (\<lambda>e. ev_operationIndex e = i) (filter (\<lambda>e. ev_txHash e = tx_hash tx) evs)) [0..<n])" for n
    by (simp add: events_of_op_def [abs_def] conj_commute)
  moreover have "distinct (map (\<lambda>i. i) [0..<n])" for n :: nat by simp
  ultimately show ?thesis
    using partition_mset [of "\<lambda>i. i" "[0..<length (ops_of ops tx)]" ev_operationIndex
        "filter (\<lambda>e. ev_txHash e = tx_hash tx) evs"]
    by (simp add: owns_def filter_filter_mset conj_commute)
qed

lemma block_event_records:
  "map event_record (concat (map operation_events (wrapped_operations l txs ops effs evs tx)))
     = concat (map (events_of_op evs tx) [0..<length (ops_of ops tx)])"
proof -
  have rec: "event_record (wrapped_event l txs ops e) = e" for e
    by (simp add: wrapped_event_def split: option.split)
  have "map event_record (operation_events (wrapped_operation l txs ops effs evs tx io)) = events_of_op evs tx (fst io)"
    for io by (simp add: wrapped_operation_def comp_def rec)
  moreover have "map fst (enumerate 0 (ops_of ops tx)) = [0..<length (ops_of ops tx)]"
    by (simp add: enumerate_eq_zip)
  then have "map (\<lambda>io. events_of_op evs tx (fst io)) (enumerate 0 (ops_of ops tx))
      = map (events_of_op evs tx) [0..<length (ops_of ops tx)]"
    by (simp only: map_map comp_def flip: map_map [of "events_of_op evs tx" fst, unfolded comp_def])
  ultimately show ?thesis
    by (simp add: map_concat wrapped_operations_def comp_def)
qed

lemma filter_mset_disjoint:
  "(\<And>x. \<not> (P x \<and> Q x)) \<Longrightarrow>
   filter_mset P M + filter_mset Q M = filter_mset (\<lambda>x. P x \<or> Q x) M"
  by (induction M) auto

lemma owned_events:
  "distinct (map tx_hash txs) \<Longrightarrow>
   mset (concat (map (\<lambda>tx. concat (map (events_of_op evs tx) [0..<length (ops_of ops tx)])) txs))
     = filter_mset (\<lambda>e. owner txs ops e \<noteq> None) (mset evs)"
proof (induction txs)
  case (Cons tx txs)
  have disj: "\<not> (owns ops e tx \<and> owner txs ops e \<noteq> None)" for e
  proof
    assume "owns ops e tx \<and> owner txs ops e \<noteq> None"
    then obtain t where t: "t \<in> set txs" "owns ops e t" "owns ops e tx"
      by (auto simp: owner_def find_Some_iff intro: nth_mem)
    then have "tx_hash tx = tx_hash t" by (simp add: owns_def)
    with t(1) Cons.prems show False by (metis distinct.simps(2) image_eqI list.set_map list.simps(9))
  qed
  have "filter_mset (\<lambda>e. owner (tx # txs) ops e \<noteq> None) (mset evs)
      = filter_mset (\<lambda>e. owns ops e tx \<or> owner txs ops e \<noteq> None) (mset evs)"
    by (rule filter_mset_cong) (simp_all add: owner_def)
  also have "\<dots> = filter_mset (\<lambda>e. owns ops e tx) (mset evs) + filter_mset (\<lambda>e. owner txs ops e \<noteq> None) (mset evs)"
    by (rule filter_mset_disjoint [symmetric]) (rule disj)
  also have "\<dots> = mset (concat (map (events_of_op evs tx) [0..<length (ops_of ops tx)])) +
      mset (concat (map (\<lambda>tx. concat (map (events_of_op evs tx) [0..<length (ops_of ops tx)])) txs))"
    using Cons.IH Cons.prems events_of_transaction [of evs tx ops] by simp
  finally show ?case by simp
qed (simp add: owner_def)

section \<open>The visits of a wrapped block\<close>

definition pairs :: "('a \<Rightarrow> 'v data) \<Rightarrow> 'a list \<Rightarrow> SubqlDatasource list \<Rightarrow> ('v data \<times> SubqlDatasource) list" where
  "pairs mk xs dss = concat (map (\<lambda>x. map (Pair (mk x)) dss) xs)"

lemma length_pairs: "length (pairs mk xs dss) = length xs * length dss"
  by (induction xs) (simp_all add: pairs_def)

lemma pairs_concat: "concat (map (\<lambda>x. pairs mk (f x) dss) xs) = pairs mk (concat (map f xs)) dss"
  by (induction xs) (simp_all add: pairs_def)

lemma visited_schedule:
  "visited k (block_schedule w dss) =
     (case k of
        Block \<Rightarrow> map (Pair (BlockData (block w))) dss
      | Transaction \<Rightarrow> pairs TransactionData (transactions w) dss
      | SorobanTransaction \<Rightarrow> pairs TransactionData (filter invokes_contract (transactions w)) dss
      | Operation \<Rightarrow> pairs OperationData (concat (map transaction_operations (transactions w))) dss
      | Effects \<Rightarrow> pairs EffectData (concat (map operation_effects
          (concat (map transaction_operations (transactions w))))) dss
      | Event \<Rightarrow> pairs EventData (concat (map operation_events
          (concat (map transaction_operations (transactions w))))) dss)"
proof -
  have soroban: "concat (map (\<lambda>t. if invokes_contract t then g t else []) ts) = concat (map g (filter invokes_contract ts))"
    for ts and g :: "'a StellarTransaction \<Rightarrow> 'b list" by (induction ts) simp_all
  have empties: "concat (map (\<lambda>x. []) xs) = ([] :: 'c list)" for xs :: "'d list" by (induction xs) simp_all
  show ?thesis
    by (cases k)
      (simp_all add: block_schedule_def visited_visits visited_concat comp_def visited_transaction_visits
        visited_operation_visits soroban pairs_def [symmetric] pairs_concat, simp_all add: pairs_def concat_map_concat empties soroban)
qed

lemma block_visits:
  "b = wrapped_ledger lg txs ops effs evs \<Longrightarrow> vs = block_schedule (wrap_block b) dss \<Longrightarrow>
   visited Block vs = map (Pair (BlockData b)) dss \<and>
   visited Transaction vs = pairs TransactionData (block_transactions b) dss \<and>
   visited SorobanTransaction vs = pairs TransactionData (filter invokes_contract (block_transactions b)) dss \<and>
   visited Operation vs = pairs OperationData (block_operations b) dss \<and>
   visited Effects vs = pairs EffectData (block_effects b) dss"
proof -
  assume b: "b = wrapped_ledger lg txs ops effs evs" and vs: "vs = block_schedule (wrap_block b) dss"
  have "block_operations b = concat (map transaction_operations (block_transactions b))"
    unfolding b wrapped_ledger_def wrapped_transaction_def Let_def by (simp add: comp_def)
  moreover have "block_effects b = concat (map operation_effects (block_operations b))"
    unfolding b wrapped_ledger_def Let_def by simp
  ultimately show ?thesis
    by (simp add: vs visited_schedule wrap_block_def new_StellarBlockWrapped_def)
qed

lemma event_visits:
  assumes "distinct (map tx_hash txs)"
  shows "\<exists>vs. visited Event (block_schedule (wrap_block (wrapped_ledger lg txs ops effs evs)) dss) = pairs EventData vs dss \<and>
    mset (map event_record vs) = filter_mset (\<lambda>e. owner txs ops e \<noteq> None) (mset evs)"
proof -
  let ?b = "wrapped_ledger lg txs ops effs evs" and ?l = "ledger_ref lg txs ops evs"
  have "concat (map transaction_operations (block_transactions ?b)) = concat (map (wrapped_operations ?l txs ops effs evs) txs)"
    by (simp add: wrapped_ledger_def wrapped_transaction_def Let_def comp_def)
  moreover have "map event_record (concat (map operation_events (concat (map (wrapped_operations ?l txs ops effs evs) txs))))
      = concat (map (\<lambda>tx. concat (map (events_of_op evs tx) [0..<length (ops_of ops tx)])) txs)"
    by (simp only: map_concat_nested block_event_records)
  ultimately show ?thesis
    using owned_events [OF assms, of evs ops]
    by (intro exI [of _ "concat (map operation_events (concat (map (wrapped_operations ?l txs ops effs evs) txs)))"])
      (simp only: visited_schedule wrap_block_def new_StellarBlockWrapped_def StellarHandlerKind.case
        StellarBlockWrapper.select_convs simp_thms)
qed

section \<open>Properties\<close>

definition type_checked :: "('s, 'v) indexData \<Rightarrow> ('s, 'v) indexData" where
  "type_checked f k d ds =
     (if data_type d = StellarRuntimeHandlerInputMap k then f k d ds
      else (\<lambda>s. (Inl (TypeError ''unexpected input''), s)))"

definition sample_ds :: SubqlDatasource where
  "sample_ds = \<lparr>ds_kind = StellarDatasourceKind_Runtime, ds_startBlock = Some 1,
     ds_mapping = \<lparr>m_file = ''dist/index.js'', m_handlers = []\<rparr>, ds_options = None, ds_processor = None\<rparr>"

text \<open>
  C19: Handlers get data of the type declared for their kind, whatever the block: an \<open>indexData\<close> that
  checks its argument against \<open>StellarRuntimeHandlerInputMap\<close> and throws when it has another type behaves
  like one that does not check, so the unchecked type assertions of the dispatch table are never
  wrong and its last clause is never used.
\<close>

theorem indexing_well_typed:
  "indexBlockData (type_checked f) w dss = indexBlockData f w dss"
  by (simp add: indexBlockData_def indexBlockContent_def indexTransaction_def indexOperation_def
      indexEffect_def indexEvent_def type_checked_def cong: if_cong)

text \<open>
  The nested loops of \<open>indexBlockData\<close> perform exactly the calls of \<open>block_schedule\<close>, in its
  order, stopping at the first that throws.
\<close>

lemma indexBlockData_schedule:
  "indexBlockData f wrapper dss = for_each (block_schedule wrapper dss) (run_visit f)"
  by (rule indexBlockData_eq)

text \<open>
  C20: A handler that throws ends the indexing of the block: the calls before it in the schedule have
  been made, its error is the result, the state is the one it left, and no later call is made.
\<close>

theorem indexing_stops_at_error:
  assumes "block_schedule wrapper dss = prev @ (k, d, ds) # rest"
    and "for_each prev (run_visit f) s = (Inr (), s1)"
    and "f k d ds s1 = (Inl e, s2)"
  shows "indexBlockData f wrapper dss s = (Inl e, s2)"
  using assms(2,3)
  by (simp add: indexBlockData_eq assms(1) for_each_append andThen_def run_visit_def)

theorem indexing_stops_at_error_witness:
  "indexBlockData (\<lambda>k d ds n. if k = Operation then (Inl (Error ''handler''), n) else (Inr (), Suc n))
     (wrap_block sample_block) [sample_ds] 0 = (Inl (Error ''handler''), (2 :: nat))"
proof -
  let ?f = "\<lambda>k d ds n. if k = Operation then (Inl (Error ''handler''), n) else (Inr (), Suc n)"
  let ?vs = "block_schedule (wrap_block sample_block) [sample_ds]"
  have "map fst ?vs ! 2 = Operation \<and> 2 < length ?vs" by code_simp
  then obtain d ds where vs: "?vs = take 2 ?vs @ (Operation, d, ds) # drop 3 ?vs"
    by (metis Cons_nth_drop_Suc Suc_1 append_take_drop_id eval_nat_numeral(3) nth_map prod.collapse)
  have "for_each (take 2 ?vs) (run_visit ?f) 0 = (Inr (), 2 :: nat)" by code_simp
  from indexing_stops_at_error [OF vs this] show ?thesis by simp
qed

end
