(* ===== verification/Dictionary_Indexing.thy ===== *)
theory Dictionary_Indexing
  imports Dictionary_Properties Indexer_Properties Api_Properties
begin

text \<open>
  The dictionary and the indexer together. The indexer skips every ledger the dictionary does not list
  for a non-empty query; the property at the end says that indexing such a ledger would have done
  nothing.

  \<^item> \<open>ledger_items\<close> are the items of a ledger; every item that indexing the block of the ledger visits
    is one of them, but for the block itself.
  \<^item> The locale \<open>dictionary_service\<close> is the contract of the dictionary the query is sent to.
  \<^item> The locale \<open>handler_runner\<close> is the contract of \<open>indexData\<close> of \<open>@subql/node-core\<close> the property relies on:
    for a runtime datasource only handlers whose filter accepts the item run.
\<close>

section \<open>What the filter table accepts\<close>

text \<open>The record of an item of a block, as the dictionary sees it; a block itself has no entry.\<close>

fun item_of :: "'v data \<Rightarrow> 'v item option" where
  "item_of (BlockData b) = None"
| "item_of (TransactionData t) = Some (TxItem (transaction_record t))"
| "item_of (OperationData p) = Some (OpItem (operation_record p))"
| "item_of (EffectData e) = Some (EffItem (effect_record e))"
| "item_of (EventData v) = Some (EvItem (event_record v))"

lemma FilterTypeMap_accepts:
  assumes "h_kind h = handler_kind_value k" "k \<noteq> Block" "k \<noteq> SorobanTransaction"
    and "FilterTypeMap tsf scv k d (h_filter h) ds"
  shows "\<exists>item. item_of d = Some item \<and> handler_accepts scv ds h item"
  using assms by (cases k; cases d) auto

text \<open>
  The dictionary and the indexer agree: when the query is not empty, every transaction, operation,
  effect or event of a block that the filter table of the indexer lets through to a handler of the
  project is asked for by an entry of the query.
\<close>

lemma dictionary_hides_nothing:
  assumes "lodash_uniqBy uniqBy" "lodash_sortBy sortBy"
    and "buildDictionaryQueryEntries uniqBy sortBy lim dss \<noteq> []"
    and "ds \<in> set dss" "h \<in> set (m_handlers (ds_mapping ds))"
    and "h_kind h = handler_kind_value k" "k \<noteq> Block" "k \<noteq> SorobanTransaction"
    and "FilterTypeMap tsf scv k d (h_filter h) ds"
  shows "\<exists>item. item_of d = Some item \<and>
    (\<exists>e\<in>set (buildDictionaryQueryEntries uniqBy sortBy lim dss). asks_for scv e item)"
  using FilterTypeMap_accepts [OF assms(6-9)] query_covers [OF assms(1,2) refl assms(3-5)] by blast

section \<open>The handlers that run\<close>

definition accepting_handlers ::
  "(int option \<Rightarrow> StellarBlockFilter \<Rightarrow> bool) \<Rightarrow> ('v \<Rightarrow> js_value) \<Rightarrow> StellarHandlerKind \<Rightarrow> 'v data \<Rightarrow>
   SubqlDatasource \<Rightarrow> SubqlHandler list" where
  "accepting_handlers tsf scv k d ds =
     filter (\<lambda>h. h_kind h = handler_kind_value k \<and> FilterTypeMap tsf scv k d (h_filter h) ds) (m_handlers (ds_mapping ds))"

locale handler_runner =
  fixes tsf :: "int option \<Rightarrow> StellarBlockFilter \<Rightarrow> bool" and scv :: "'v \<Rightarrow> js_value"
    and indexData :: "('s, 'v) indexData"
  assumes runs_accepting_handlers:
    "isRuntimeDs ds \<Longrightarrow> accepting_handlers tsf scv k d ds = [] \<Longrightarrow> indexData k d ds s = (Inr (), s)"
begin

lemma idle_visits:
  assumes "\<And>k d ds. (k, d, ds) \<in> set vs \<Longrightarrow> isRuntimeDs ds \<and> accepting_handlers tsf scv k d ds = []"
  shows "for_each vs (run_visit indexData) s = (Inr (), s)"
  using assms by (intro for_each_idle) (auto simp: run_visit_def runs_accepting_handlers)

end

text \<open>An \<open>indexData\<close> that logs the names of the handlers it runs.\<close>

definition logging_indexData ::
  "(int option \<Rightarrow> StellarBlockFilter \<Rightarrow> bool) \<Rightarrow> ('v \<Rightarrow> js_value) \<Rightarrow> (string list, 'v) indexData" where
  "logging_indexData tsf scv k d ds =
     for_each (accepting_handlers tsf scv k d ds) (\<lambda>h log. (Inr (), log @ [h_handler h]))"

interpretation logging_runner: handler_runner tsf scv "logging_indexData tsf scv" for tsf scv
  by unfold_locales (simp add: logging_indexData_def skip_def)

section \<open>The items of a ledger\<close>

definition ledger_items :: "'v chain \<Rightarrow> int \<Rightarrow> 'v item list" where
  "ledger_items c s =
     map TxItem (chain_txs c s) @ map OpItem (chain_ops c s) @ map EffItem (chain_effs c s) @
     map EvItem (events_of (chain_events c) s)"

text \<open>
  The dictionary for a chain: \<open>listed entries s\<close> says that the dictionary, asked with these entries,
  names ledger \<open>s\<close> among the blocks to index. The law is what the query relies on, and the only one:
  a ledger with an item that an entry asks for is listed. It holds of a dictionary that has a row for
  every transaction, operation, effect and event, with the accounts, types and contract addresses in
  lower case, the way the query writes them, and the topics as the SDK decodes them. (For events it is
  a promise still to be kept: a comment in the code says that the present dictionary has none.)
\<close>

locale dictionary_service =
  fixes scv :: "'v \<Rightarrow> js_value" and c :: "'v chain" and listed :: "DictionaryQueryEntry list \<Rightarrow> int \<Rightarrow> bool"
  assumes lists_ledger:
    "item \<in> set (ledger_items c s) \<Longrightarrow> e \<in> set entries \<Longrightarrow> asks_for scv e item \<Longrightarrow> listed entries s"
begin

lemma unlisted_asks_for_nothing:
  assumes "\<not> listed entries s" "item \<in> set (ledger_items c s)" "e \<in> set entries"
  shows "\<not> asks_for scv e item"
  using lists_ledger [OF assms(2,3)] assms(1) by blast

end

text \<open>A dictionary that looks at every row, and one that lists every ledger.\<close>

definition scanning_dictionary :: "('v \<Rightarrow> js_value) \<Rightarrow> 'v chain \<Rightarrow> DictionaryQueryEntry list \<Rightarrow> int \<Rightarrow> bool" where
  "scanning_dictionary scv c entries s \<longleftrightarrow> list_ex (\<lambda>item. list_ex (\<lambda>e. asks_for scv e item) entries) (ledger_items c s)"

interpretation scanning: dictionary_service scv c "scanning_dictionary scv c" for scv c
  by unfold_locales (auto simp: scanning_dictionary_def list_ex_iff)

interpretation listing_all: dictionary_service scv c "\<lambda>_ _. True" for scv c
  by unfold_locales simp

lemma set_pairs: "set (pairs mk xs dss) = {(mk x, ds) | x ds. x \<in> set xs \<and> ds \<in> set dss}"
  by (auto simp: pairs_def)

lemma visited_member: "(k, d, ds) \<in> set vs \<longleftrightarrow> (d, ds) \<in> set (visited k vs)"
  by (force simp: visited_def)

lemma wrapped_members:
  assumes "b = wrapped_ledger lg txs ops effs evs" "vs = block_schedule (wrap_block b) dss"
    and "(k, d, ds) \<in> set vs"
  shows "ds \<in> set dss \<and>
    (case d of
       BlockData b' \<Rightarrow> k = Block
     | TransactionData t \<Rightarrow> (k = Transaction \<or> k = SorobanTransaction) \<and> transaction_record t \<in> set txs
     | OperationData p \<Rightarrow> k = Operation \<and> operation_record p \<in> set ops
     | EffectData e \<Rightarrow> k = Effects \<and> effect_record e \<in> set effs
     | EventData v \<Rightarrow> k = Event \<and> event_record v \<in> set evs)"
proof -
  note visits = block_visits [OF assms(1,2)]
  have txs: "transaction_record ` set (block_transactions b) = set txs"
    using wrapped_ledger_sel(2) [of lg txs ops effs evs] assms(1) by (metis list.set_map)
  have "set (map operation_record (block_operations b)) = set (concat (map (ops_of ops) txs))"
    by (simp only: assms(1) block_operation_records)
  then have ops: "operation_record ` set (block_operations b) \<subseteq> set ops"
    by (auto simp: ops_of_def)
  have "set (map effect_record (block_effects b)) = set (concat (map (effects_of effs) (concat (map (ops_of ops) txs))))"
    by (simp only: assms(1) block_effect_records)
  then have effs: "effect_record ` set (block_effects b) \<subseteq> set effs"
    by (auto simp: effects_of_def)
  let ?l = "ledger_ref lg txs ops evs"
  have "visited Event vs = pairs EventData (concat (map operation_events (concat (map (wrapped_operations ?l txs ops effs evs) txs)))) dss"
    by (simp add: assms(1,2) visited_schedule wrap_block_def new_StellarBlockWrapped_def wrapped_ledger_def
        wrapped_transaction_def Let_def comp_def)
  moreover have "set (map event_record (concat (map operation_events (concat (map (wrapped_operations ?l txs ops effs evs) txs))))) \<subseteq> set evs"
    unfolding map_concat_nested block_event_records by (auto simp: events_of_op_def)
  ultimately have evs: "\<And>d ds. (d, ds) \<in> set (visited Event vs) \<Longrightarrow>
      ds \<in> set dss \<and> (\<exists>v. d = EventData v \<and> event_record v \<in> set evs)"
    by (simp only: set_pairs set_map) blast
  show ?thesis
    using assms(3) visits txs ops effs by (cases k) (auto simp: visited_member set_pairs dest: evs)
qed

lemma visited_items:
  assumes "(k, d, ds) \<in> set (block_schedule (iblock (chain_result c s)) dss)"
  shows "ds \<in> set dss \<and> (if item_of d = None then k = Block else the (item_of d) \<in> set (ledger_items c s))"
proof -
  have b: "iblock (chain_result c s) = wrap_block (chain_block c s)"
    by (simp add: chain_result_def formatBlockUtil_def)
  from wrapped_members [OF chain_block_def refl assms [unfolded b]] show ?thesis
    by (cases d) (auto simp: ledger_items_def split: if_splits)
qed

section \<open>Handlers of a skipped ledger\<close>

lemma no_block_handlers:
  assumes "buildDictionaryQueryEntries uniqBy sortBy lim dss \<noteq> []"
    and "ds \<in> set dss" "h \<in> set (m_handlers (ds_mapping ds))"
  shows "h_kind h \<noteq> handler_kind_value Block"
proof
  assume "h_kind h = handler_kind_value Block"
  then have "handler_entries lim ds h = None" by (simp add: handler_entries_def split: option.split)
  from datasources_loop_stops [OF assms(2,3) this] assms(1) show False
    by (simp add: buildDictionaryQueryEntries_def)
qed

lemma skipped_ledger_idle:
  assumes "lodash_uniqBy uniqBy" "lodash_sortBy sortBy" "dictionary_service scv c listed"
    and query: "buildDictionaryQueryEntries uniqBy sortBy lim dss \<noteq> []"
    and kinds: "\<forall>ds\<in>set dss. \<forall>h\<in>set (m_handlers (ds_mapping ds)). h_kind h \<noteq> handler_kind_value SorobanTransaction"
    and skip: "\<not> listed (buildDictionaryQueryEntries uniqBy sortBy lim dss) s"
    and visit: "(k, d, ds) \<in> set (block_schedule (iblock (chain_result c s)) dss)"
  shows "accepting_handlers tsf scv k d ds = []"
proof (rule ccontr)
  assume "accepting_handlers tsf scv k d ds \<noteq> []"
  then obtain h where h: "h \<in> set (m_handlers (ds_mapping ds))" "h_kind h = handler_kind_value k"
      and accept: "FilterTypeMap tsf scv k d (h_filter h) ds"
    by (auto simp: accepting_handlers_def filter_empty_conv)
  note v = visited_items [OF visit]
  then have ds: "ds \<in> set dss" by blast
  have "k \<noteq> Block" "k \<noteq> SorobanTransaction"
    using no_block_handlers [OF query ds h(1)] kinds ds h by auto
  from dictionary_hides_nothing [OF assms(1,2) query ds h this accept] obtain item where
    "item_of d = Some item" "\<exists>e\<in>set (buildDictionaryQueryEntries uniqBy sortBy lim dss). asks_for scv e item"
    by blast
  with v dictionary_service.unlisted_asks_for_nothing [OF assms(3) skip] show False by auto
qed

end
