(* ===== verification/Filter_Properties.thy ===== *)
theory Filter_Properties
  imports Block_Filter Project_Utils Horizon_Paging
begin

text \<open>
  What the static filters of a block accept, when a project needs Soroban events, and the
  completeness of the paged fetches from Horizon.
\<close>

section \<open>Properties\<close>

text \<open>
  C25: An event passes its filter exactly when the address of the datasource, if set, is its contract
  up to case, the contract of the filter, if set, is its contract exactly, and at each of the first
  four positions a set topic equals the decoded topic of the event; further topics are ignored.
\<close>

theorem event_filter_meaning:
  "filterEventProcessor scValToNative ev (Some f) address \<longleftrightarrow>
     (truthy_str address \<longrightarrow> map_option toLowerCase (ev_contractId ev) = Some (toLowerCase (the address))) \<and>
     (truthy_str (evf_contractId f) \<longrightarrow> ev_contractId ev = evf_contractId f) \<and>
     (case evf_topics f of
        None \<Rightarrow> True
      | Some topics \<Rightarrow> \<forall>i<min (length topics) 4. truthy_str (topics ! i) \<longrightarrow>
          i < length (ev_topic ev) \<and> scValToNative (ev_topic ev ! i) = JStr (the (topics ! i)))"
proof -
  have "stringNormalizedEq a b \<longleftrightarrow> map_option toLowerCase b = Some (toLowerCase a)" for a b
    by (cases b) (auto simp: stringNormalizedEq_def)
  then show ?thesis
    by (auto simp: filterEventProcessor_def topics_loop_iff topic_matches_def split: option.split)
qed

theorem event_filter_meaning_witness:
  "\<not> filterEventProcessor JStr \<lparr>ev_id = ''e'', ev_ledger = 7, ev_txHash = ''t'', ev_operationIndex = 0,
      ev_contractId = Some ''CA'', ev_topic = [''mint'']\<rparr> (Some \<lparr>evf_contractId = None, evf_topics = Some [None, Some ''x'']\<rparr>)
      (Some ''ca'')"
  by (subst event_filter_meaning) (auto intro!: exI [of _ 1])

text \<open>
  Transactions, operations and effects pass when every set field of the filter equals the field
  of the record exactly, fields that are unset or empty are ignored, a missing filter accepts
  everything, and the address of the datasource plays no role.
\<close>

lemma field_filters_meaning:
  "(filterTransactionProcessor tx (Some tf) address \<longleftrightarrow>
     (truthy_str (tf_account tf) \<longrightarrow> tf_account tf = Some (tx_source_account tx))) \<and>
   (filterOperationProcessor p (Some pf) address \<longleftrightarrow>
     (truthy_str (of_sourceAccount pf) \<longrightarrow> of_sourceAccount pf = Some (op_source_account p)) \<and>
     (truthy_str (of_type pf) \<longrightarrow> of_type pf = Some (op_type p))) \<and>
   (filterEffectProcessor e (Some ef) address \<longleftrightarrow>
     (truthy_str (ef_account ef) \<longrightarrow> ef_account ef = Some (eff_account e)) \<and>
     (truthy_str (ef_type ef) \<longrightarrow> ef_type ef = Some (eff_type e))) \<and>
   filterTransactionProcessor tx None address \<and> filterOperationProcessor p None address \<and>
   filterEffectProcessor e None address"
  by (simp add: transaction_filter.accepts_Some transaction_filter.accepts_None operation_filter.accepts_Some
      operation_filter.accepts_None effect_filter.accepts_Some effect_filter.accepts_None
      transaction_conds_def operation_conds_def effect_conds_def ball_Un field_cond_set)

text \<open>
  A block passes when its number is a multiple of the modulo of the filter, if that is set and not
  zero, and the timestamp filter accepts its closing time; a negative modulo counts as its absolute
  value.
\<close>

lemma block_filter_meaning:
  "filterBlocksProcessor filterBlockTimestamp b (Some f) address \<longleftrightarrow>
     (\<forall>m. bf_modulo f = Some m \<longrightarrow> m \<noteq> 0 \<longrightarrow> \<bar>m\<bar> dvd sequence b) \<and>
     filterBlockTimestamp (Date_getTime (closed_at b)) f"
  by (cases "bf_modulo f") (auto simp: block_filter.accepts_Some block_conds_def)

text \<open>
  C24: The paged fetches of a ledger end and return all its transactions, operations and effects in
  order, whatever the size of the pages, when Horizon serves each collection in non-empty pages that
  continue each other and end with an empty one.
\<close>

theorem paged_fetches_complete:
  assumes "serves_ledger h pageLimit seq txs ops effs"
  shows "fetchTransactionsForLedger h pageLimit seq = Some (Inr txs) \<and>
    fetchOperationsForLedger h pageLimit seq = Some (Inr ops) \<and>
    fetchEffectsForLedger h pageLimit seq = Some (Inr effs)"
  using fetch_collections [OF assms] by blast

definition list_horizon :: "TransactionRecord list \<Rightarrow> OperationRecord list \<Rightarrow> EffectRecord list \<Rightarrow> horizon" where
  "list_horizon txs ops effs =
     \<lparr>h_root = Inr ''Test'', h_latest_ledgers = Inr \<lparr>page_records = [], page_next = []\<rparr>,
      h_ledger = (\<lambda>s. Inl (Error ''Not Found'')),
      h_transactions = (\<lambda>s n. list_page 1 txs []), h_transactions_next = list_page 1 txs,
      h_operations = (\<lambda>s n. list_page 2 ops []), h_operations_next = list_page 2 ops,
      h_effects = (\<lambda>s n. list_page 3 effs []), h_effects_next = list_page 3 effs\<rparr>"

lemma list_horizon_serves: "serves_ledger (list_horizon txs ops effs) n s txs ops effs"
proof -
  have paged: "0 < k \<Longrightarrow> paged_collection (list_page k xs []) (list_page k xs) xs length" for k and xs :: "'x list"
    using list_pages.paged_collection_axioms [of "k - 1" xs] by simp
  show ?thesis
    unfolding serves_ledger_def list_horizon_def horizon.select_convs
    by (intro conjI exI [of _ length] paged) simp_all
qed

theorem paged_fetches_complete_witness:
  "fetchTransactionsForLedger (list_horizon [\<lparr>tx_hash = ''a'', tx_source_account = ''G''\<rparr>,
       \<lparr>tx_hash = ''b'', tx_source_account = ''G''\<rparr>] [] []) 150 7
     = Some (Inr [\<lparr>tx_hash = ''a'', tx_source_account = ''G''\<rparr>, \<lparr>tx_hash = ''b'', tx_source_account = ''G''\<rparr>])"
  using paged_fetches_complete [OF list_horizon_serves [of "[\<lparr>tx_hash = ''a'', tx_source_account = ''G''\<rparr>,
       \<lparr>tx_hash = ''b'', tx_source_account = ''G''\<rparr>]" "[]" "[]" 150 7]] by blast

end
