(* ===== verification/Api_Connection.thy ===== *)
theory Api_Connection
  imports Stellar_Api
begin

text \<open>
  \<open>packages/node/src/stellar/api.connection.ts\<close>: the connection to one endpoint, its network
  metadata, and the classification of errors that decides how the connection pool reacts.
\<close>

record NetworkMetadataPayload =
  meta_chain :: string
  meta_specName :: string
  meta_genesisHash :: string

text \<open>\<open>fetchBlocksBatches\<close> is the callback the connection was created with.\<close>

record ('w, 'v) StellarApiConnection =
  networkMeta :: NetworkMetadataPayload
  unsafeApi :: StellarApi
  fetchBlocksBatches :: "StellarApi \<Rightarrow> int list \<Rightarrow> 'v eventsCache \<Rightarrow> 'w \<Rightarrow>
    ('v IBlock list result \<times> 'v eventsCache \<times> 'w) option"

type_synonym ('w, 'v) FetchFunc =
  "StellarApi \<Rightarrow> int list \<Rightarrow> 'v eventsCache \<Rightarrow> 'w \<Rightarrow> ('v IBlock list result \<times> 'v eventsCache \<times> 'w) option"

definition new_StellarApiConnection ::
  "StellarApi \<Rightarrow> ('w, 'v) FetchFunc \<Rightarrow> ('w, 'v) StellarApiConnection result" where
  "new_StellarApiConnection api fetchBlockBatches =
     (case getChainId api of
        Inl e \<Rightarrow> Inl e
      | Inr chain \<Rightarrow>
          (case getGenesisHash api of
             Inl e \<Rightarrow> Inl e
           | Inr genesisHash \<Rightarrow>
               Inr \<lparr>networkMeta = \<lparr>meta_chain = chain, meta_specName = getSpecName, meta_genesisHash = genesisHash\<rparr>,
                    unsafeApi = api, fetchBlocksBatches = fetchBlockBatches\<rparr>))"

definition create_StellarApiConnection ::
  "('w, 'v) services \<Rightarrow> string \<Rightarrow> ('w, 'v) FetchFunc \<Rightarrow> string option \<Rightarrow> IStellarEndpointConfig option \<Rightarrow>
   ('w, 'v) StellarApiConnection result" where
  "create_StellarApiConnection env endpoint fetchBlockBatches soroban config =
     (case new_StellarApi env endpoint soroban config of
        Inl e \<Rightarrow> Inl e
      | Inr api \<Rightarrow>
          (case api_init env api of
             Inl e \<Rightarrow> Inl e
           | Inr api' \<Rightarrow> new_StellarApiConnection api' fetchBlockBatches))"

definition connection_safeApi :: "('w, 'v) StellarApiConnection \<Rightarrow> int \<Rightarrow> unit result" where
  "connection_safeApi conn height = Inl (Error ''Not Implemented'')"

definition apiConnect :: "('w, 'v) StellarApiConnection \<Rightarrow> unit result" where
  "apiConnect conn = api_connect"

definition apiDisconnect :: "('w, 'v) StellarApiConnection \<Rightarrow> unit result" where
  "apiDisconnect conn = api_disconnect"

definition connection_fetchBlocks ::
  "('w, 'v) StellarApiConnection \<Rightarrow> int list \<Rightarrow> 'v eventsCache \<Rightarrow> 'w \<Rightarrow>
   ('v IBlock list result \<times> 'v eventsCache \<times> 'w) option" where
  "connection_fetchBlocks conn heights cache w = fetchBlocksBatches conn (unsafeApi conn) heights cache w"

section \<open>Classification of errors\<close>

text \<open>The error classes of \<open>@subql/node-core\<close>, each made from the original error.\<close>

datatype connection_error =
    TimeoutError js_error
  | DisconnectionError js_error
  | RateLimitError js_error
  | LargeResponseError js_error
  | ApiConnectionError string string

definition connection_handleError :: "js_error \<Rightarrow> connection_error" where
  "connection_handleError e =
     (if str_includes (message e) ''Timeout'' then TimeoutError e
      else if str_startsWith (message e) ''disconnected from '' then DisconnectionError e
      else if str_includes (message e) ''Rate Limit Exceeded'' \<or> str_includes (message e) ''Too Many Requests''
        then RateLimitError e
      else if str_includes (message e) ''limit must not exceed'' then LargeResponseError e
      else ApiConnectionError (error_name e) (message e))"

end
