(* ===== verification/Safe_Api.thy ===== *)
theory Safe_Api
  imports Stellar_Api
begin

text \<open>
  \<open>packages/node/src/stellar/safe-api.ts\<close>: the API handed to sandboxed handlers, a Soroban server
  fixed to a block height, and \<open>getSafeApi\<close> of \<open>StellarApi\<close>, which creates it. The class overrides
  \<open>getEvents\<close> and eleven methods that it refuses; \<open>safe_invoke\<close> is the call of a method by its name, any
  other method being the one inherited from the SDK's server, a parameter.

  The constructor of the SDK's RPC server is a parameter: from a URL and the \<open>allowHttp\<close> option it
  succeeds or throws.
\<close>

record SafeStellarProvider =
  safe_blockHeight :: int
  safe_baseApi :: string

definition new_SafeStellarProvider ::
  "(string \<Rightarrow> bool \<Rightarrow> unit result) \<Rightarrow> string \<Rightarrow> int \<Rightarrow> SafeStellarProvider result" where
  "new_SafeStellarProvider new_rpc_Server baseApi height =
     (case new_rpc_Server baseApi False of
        Inl e \<Rightarrow> Inl e
      | Inr _ \<Rightarrow> Inr \<lparr>safe_blockHeight = height, safe_baseApi = baseApi\<rparr>)"

datatype safe_method =
    getAccount | getHealth | getContractData | getLedgerEntries | getTransaction | getNetwork
  | getLatestLedger | simulateTransaction | prepareTransaction | sendTransaction | requestAirdrop

fun safe_method_name :: "safe_method \<Rightarrow> string" where
  "safe_method_name getAccount = ''getAccount''"
| "safe_method_name getHealth = ''getHealth''"
| "safe_method_name getContractData = ''getContractData''"
| "safe_method_name getLedgerEntries = ''getLedgerEntries''"
| "safe_method_name getTransaction = ''getTransaction''"
| "safe_method_name getNetwork = ''getNetwork''"
| "safe_method_name getLatestLedger = ''getLatestLedger''"
| "safe_method_name simulateTransaction = ''simulateTransaction''"
| "safe_method_name prepareTransaction = ''prepareTransaction''"
| "safe_method_name sendTransaction = ''sendTransaction''"
| "safe_method_name requestAirdrop = ''requestAirdrop''"

definition call_safe_method :: "safe_method \<Rightarrow> 'a result" where
  "call_safe_method m = Inl (Error (''Method '' @ safe_method_name m @ '' is not implemented.''))"

text \<open>\<open>getEvents\<close> ignores its request and asks the base server for the events of its own height.\<close>

definition safe_getEvents ::
  "('w, 'v) services \<Rightarrow> SafeStellarProvider \<Rightarrow> GetEventsRequest \<Rightarrow> 'v eventsCache \<Rightarrow> 'w \<Rightarrow>
   ('v CachedEventsResponse result \<times> 'v eventsCache \<times> 'w) option" where
  "safe_getEvents env safe request cache w =
     getEvents (env_lodash env) (rpc_getEvents env)
       \<lparr>startLedger = Some (safe_blockHeight safe), endLedger = None, cursor = None, filters = [], limit = None\<rparr>
       cache w"

definition safe_methods :: "safe_method list" where
  "safe_methods = [getAccount, getHealth, getContractData, getLedgerEntries, getTransaction, getNetwork,
     getLatestLedger, simulateTransaction, prepareTransaction, sendTransaction, requestAirdrop]"

text \<open>
  \<open>safe[name](args)\<close>. The arguments are a parameter, with \<open>as_request\<close> reading them as the request of
  \<open>getEvents\<close>, and so are the methods of the SDK's server the class inherits, which do not use the
  event cache. The result is a response with events or what the inherited method returns.
\<close>

definition safe_invoke ::
  "('w, 'v) services \<Rightarrow> ('args \<Rightarrow> GetEventsRequest) \<Rightarrow> (SafeStellarProvider \<Rightarrow> string \<Rightarrow> 'args \<Rightarrow> ('w, 'r) action) \<Rightarrow>
   SafeStellarProvider \<Rightarrow> string \<Rightarrow> 'args \<Rightarrow> 'v eventsCache \<Rightarrow> 'w \<Rightarrow>
   (('v CachedEventsResponse + 'r) result \<times> 'v eventsCache \<times> 'w) option" where
  "safe_invoke env as_request inherited safe name args cache w =
     (if name = ''getEvents'' then
        map_option (\<lambda>(r, cache', w'). (map_sum id Inl r, cache', w')) (safe_getEvents env safe (as_request args) cache w)
      else
        (case List.find (\<lambda>m. safe_method_name m = name) safe_methods of
           Some m \<Rightarrow> Some (call_safe_method m, cache, w)
         | None \<Rightarrow> (case inherited safe name args w of (r, w') \<Rightarrow> Some (map_sum id Inr r, cache, w'))))"

lemma safe_method_not_getEvents: "safe_method_name m \<noteq> ''getEvents''"
  by (cases m) simp_all

lemma safe_invoke_getEvents:
  "safe_invoke env as_request inherited safe ''getEvents'' args cache w =
     map_option (\<lambda>(r, cache', w'). (map_sum id Inl r, cache', w')) (safe_getEvents env safe (as_request args) cache w)"
  by (simp add: safe_invoke_def)

lemma safe_invoke_refused:
  "safe_invoke env as_request inherited safe (safe_method_name m) args cache w = Some (call_safe_method m, cache, w)"
proof -
  have "List.find (\<lambda>m'. safe_method_name m' = safe_method_name m) safe_methods = Some m"
    by (cases m) (simp_all add: safe_methods_def)
  then show ?thesis using safe_method_not_getEvents [of m] by (simp add: safe_invoke_def)
qed

lemma safe_invoke_inherited:
  assumes "name \<notin> insert ''getEvents'' (range safe_method_name)"
  shows "safe_invoke env as_request inherited safe name args cache w =
    (case inherited safe name args w of (r, w') \<Rightarrow> Some (map_sum id Inr r, cache, w'))"
proof -
  have "List.find (\<lambda>m. safe_method_name m = name) safe_methods = None"
    using assms by (auto simp: find_None_iff)
  then show ?thesis using assms by (simp add: safe_invoke_def)
qed

definition getSafeApi ::
  "(string \<Rightarrow> bool \<Rightarrow> unit result) \<Rightarrow> StellarApi \<Rightarrow> int \<Rightarrow> SafeStellarProvider result" where
  "getSafeApi new_rpc_Server api height =
     (case sorobanClient api of
        Inl e \<Rightarrow> Inl e
      | Inr client \<Rightarrow> new_SafeStellarProvider new_rpc_Server client height)"

end
