(* ===== verification/Api_Service.thy ===== *)
theory Api_Service
  imports Api_Connection Safe_Api Project_Utils
begin

text \<open>
  \<open>packages/node/src/stellar/api.service.stellar.ts\<close>: creating the connections of a project, and
  the safe API whose methods are retried.

  \<open>createConnections\<close> of \<open>ApiService\<close> in \<open>@subql/node-core\<close> is a parameter; the program gives it the
  network and a factory of connections. The endpoints of a network are a map from URLs to their
  options.
\<close>

text \<open>\<open>network.dictionary\<close> is missing, one URL or a list of URLs.\<close>

datatype dictionary_config = NoDictionary | OneDictionary string | ManyDictionaries "string list"

record StellarProjectNetworkConfig =
  network_chainId :: string
  network_endpoint :: "string \<Rightarrow> IStellarEndpointConfig option"
  network_sorobanEndpoint :: "string option"
  network_dictionary :: dictionary_config

record SubqueryProject =
  project_network :: StellarProjectNetworkConfig
  project_dataSources :: "SubqlDatasource list"
  project_templates :: "SubqlDatasource list"

text \<open>\<open>(network.endpoint)[endpoint] = config\<close> for the primary endpoint of the node configuration.\<close>

definition with_primary ::
  "(string \<times> IStellarEndpointConfig) option \<Rightarrow> StellarProjectNetworkConfig \<Rightarrow> StellarProjectNetworkConfig" where
  "with_primary primaryNetworkEndpoint network =
     (case primaryNetworkEndpoint of
        None \<Rightarrow> network
      | Some (endpoint, config) \<Rightarrow> network\<lparr>network_endpoint := (network_endpoint network)(endpoint \<mapsto> config)\<rparr>)"

definition fetchBlockBatches ::
  "('w, 'v) services \<Rightarrow> StellarApi \<Rightarrow> int list \<Rightarrow> 'v eventsCache \<Rightarrow> 'w \<Rightarrow>
   ('v IBlock list result \<times> 'v eventsCache \<times> 'w) option" where
  "fetchBlockBatches env api batch cache w = fetchBlocks env api batch cache w"

definition js_string_of_option :: "string option \<Rightarrow> string" where
  "js_string_of_option s = (case s of None \<Rightarrow> ''undefined'' | Some t \<Rightarrow> t)"

text \<open>
  \<open>StellarApiService.create\<close>, from the project object to the result and the project object as it is
  afterwards: the primary endpoint is written into its network, also when creating fails later.
  The assignment guarded by \<open>!network.sorobanEndpoint && sorobanEndpoint\<close> is never reached, as both are
  the same value. \<open>new URL(undefined)\<close> parses the text \<open>undefined\<close>.
\<close>

definition create_StellarApiService ::
  "('w, 'v) services \<Rightarrow> (string \<Rightarrow> bool \<Rightarrow> unit result) \<Rightarrow>
   (StellarProjectNetworkConfig \<Rightarrow>
     (string \<Rightarrow> IStellarEndpointConfig option \<Rightarrow> ('w, 'v) StellarApiConnection result) \<Rightarrow> 'pool result) \<Rightarrow>
   (string \<times> IStellarEndpointConfig) option \<Rightarrow> (SubqueryProject, 'pool) action" where
  "create_StellarApiService env new_rpc_Server createConnections primaryNetworkEndpoint project =
     (let network = with_primary primaryNetworkEndpoint (project_network project);
          project' = project\<lparr>project_network := network\<rparr>;
          sorobanEndpoint = network_sorobanEndpoint network
      in (if dsHasSorobanEventHandler (project_dataSources project' @ project_templates project') \<and>
             \<not> truthy_str sorobanEndpoint
          then Inl (Error (''Soroban network endpoint must be provided for network. chainId='' @ [CHR 0x22] @
                      network_chainId (project_network project') @ [CHR 0x22]))
          else
            (case url_protocol env (js_string_of_option sorobanEndpoint) of
               Inl e \<Rightarrow> Inl e
             | Inr protocol \<Rightarrow>
                 (let protocolStr = remove_first_colon protocol;
                      connect = (\<lambda>client. createConnections network
                        (\<lambda>endpoint config. create_StellarApiConnection env endpoint (fetchBlockBatches env) client config))
                  in if truthy_str sorobanEndpoint then
                       (case new_rpc_Server (the sorobanEndpoint) (protocolStr = ''http'') of
                          Inl e \<Rightarrow> Inl e
                        | Inr _ \<Rightarrow> connect sorobanEndpoint)
                     else connect None)),
          project'))"

section \<open>The retried safe API\<close>

definition maxRetries :: nat where
  "maxRetries = 5"

text \<open>
  \<open>this.unsafeApi.getSafeApi(height)\<close>. The getter \<open>unsafeApi\<close> of \<open>ApiService\<close> takes the API of one of the
  connections in the pool: \<open>pick_api\<close>, which may choose another one each time, and throws when there is
  none.
\<close>

definition service_getSafeApi ::
  "(string \<Rightarrow> bool \<Rightarrow> unit result) \<Rightarrow> ('s, StellarApi) action \<Rightarrow> int \<Rightarrow> ('s, SafeStellarProvider) action" where
  "service_getSafeApi new_rpc_Server pick_api height s =
     (case pick_api s of
        (Inl e, s') \<Rightarrow> (Inl e, s')
      | (Inr api, s') \<Rightarrow> (getSafeApi new_rpc_Server api height, s'))"

text \<open>
  The proxy around a method: \<open>left\<close> attempts remain, \<open>currentApi\<close> is the API of the next attempt and
  \<open>throwingError\<close> the last error. After a failure the API is created anew, which may throw.
\<close>

fun retry_method ::
  "('s, SafeStellarProvider) action \<Rightarrow> (SafeStellarProvider \<Rightarrow> ('s, 'a) action) \<Rightarrow> nat \<Rightarrow> SafeStellarProvider \<Rightarrow>
   js_error option \<Rightarrow> ('s, 'a) action" where
  "retry_method newApi originalMethod 0 currentApi throwingError s =
     (Inl (case throwingError of None \<Rightarrow> Error ''Failed to make request, maximum retries failed'' | Some e \<Rightarrow> e), s)"
| "retry_method newApi originalMethod (Suc left) currentApi throwingError s =
     (case originalMethod currentApi s of
        (Inr x, s') \<Rightarrow> (Inr x, s')
      | (Inl e, s') \<Rightarrow>
          (case newApi s' of
             (Inl e', s'') \<Rightarrow> (Inl e', s'')
           | (Inr api', s'') \<Rightarrow> retry_method newApi originalMethod left api' (Some e) s''))"

text \<open>\<open>StellarApiService.safeApi(height)\<close> creates the target of the proxy; a call of one of its methods.\<close>

definition service_safeApi ::
  "(string \<Rightarrow> bool \<Rightarrow> unit result) \<Rightarrow> ('s, StellarApi) action \<Rightarrow> int \<Rightarrow> ('s, SafeStellarProvider) action" where
  "service_safeApi new_rpc_Server pick_api height = service_getSafeApi new_rpc_Server pick_api height"

definition service_safeApi_call ::
  "(string \<Rightarrow> bool \<Rightarrow> unit result) \<Rightarrow> ('s, StellarApi) action \<Rightarrow> int \<Rightarrow> SafeStellarProvider \<Rightarrow>
   (SafeStellarProvider \<Rightarrow> ('s, 'a) action) \<Rightarrow> ('s, 'a) action" where
  "service_safeApi_call new_rpc_Server pick_api height target originalMethod =
     retry_method (service_getSafeApi new_rpc_Server pick_api height) originalMethod maxRetries target None"

end
