(* ===== verification/Blockchain_Service.thy ===== *)
theory Blockchain_Service
  imports Api_Service Indexer_Manager Dictionary_V1
begin

text \<open>
  The services around the API: \<open>packages/node/src/blockchain.service.ts\<close> (headers, heights, dynamic
  datasources), \<open>packages/node/src/indexer/worker/worker.service.ts\<close>,
  \<open>packages/node/src/indexer/dictionary/stellarDictionary.service.ts\<close> and
  \<open>packages/node/src/configure/configure.module.ts\<close>.
\<close>

section \<open>Headers and heights\<close>

text \<open>\<open>api\<close> is \<open>this.apiService.api\<close>, the API of the connection that the pool chooses.\<close>

definition getFinalizedHeader :: "('w, 'v) services \<Rightarrow> StellarApi \<Rightarrow> Header result" where
  "getFinalizedHeader env api =
     (case getFinalizedBlock env api of
        Inl e \<Rightarrow> Inl e
      | Inr None \<Rightarrow> Inl (TypeError ''Cannot read properties of undefined (reading 'sequence')'')
      | Inr (Some b) \<Rightarrow> Inr (stellarBlockToHeader b))"

definition getBestHeight :: "('w, 'v) services \<Rightarrow> StellarApi \<Rightarrow> int result" where
  "getBestHeight env api = getBestBlockHeight env api"

definition BLOCK_TIME_VARIANCE :: int where
  "BLOCK_TIME_VARIANCE = 5000"

text \<open>\<open>INTERVAL_PERCENT\<close> is 0.9.\<close>

definition getChainInterval :: int where
  "getChainInterval = min BLOCK_TIME_VARIANCE (calcInterval * 9 div 10)"

definition getHeaderForHeight :: "('w, 'v) services \<Rightarrow> StellarApi \<Rightarrow> int \<Rightarrow> Header result" where
  "getHeaderForHeight env api height =
     (case h_ledger (stellarClient env api) height of Inl e \<Rightarrow> Inl e | Inr b \<Rightarrow> Inr (stellarBlockToHeader b))"

text \<open>\<open>nan_reply\<close> is the reply of Horizon to a request for the ledger \<open>NaN\<close>.\<close>

definition getHeaderForHash :: "('w, 'v) services \<Rightarrow> StellarApi \<Rightarrow> LedgerRecord result \<Rightarrow> string \<Rightarrow> Header result" where
  "getHeaderForHash env api nan_reply hash =
     (case parseInt hash of
        Some height \<Rightarrow> getHeaderForHeight env api height
      | None \<Rightarrow> map_sum id stellarBlockToHeader nan_reply)"

definition getBlockTimestamp :: "('w, 'v) services \<Rightarrow> StellarApi \<Rightarrow> int \<Rightarrow> int option result" where
  "getBlockTimestamp env api height =
     (case h_ledger (stellarClient env api) height of Inl e \<Rightarrow> Inl e | Inr b \<Rightarrow> Inr (Date_getTime (closed_at b)))"

definition service_getBlockSize :: "'v IBlock \<Rightarrow> int" where
  "service_getBlockSize b = getBlockSize (iblock b)"

text \<open>\<open>fetchBlock\<close> of the worker is code of \<open>@subql/node-core\<close>; its second argument is not used by Stellar.\<close>

definition fetchBlockWorker :: "(int \<Rightarrow> int \<Rightarrow> Header result) \<Rightarrow> int \<Rightarrow> Header result" where
  "fetchBlockWorker worker_fetchBlock blockNum = worker_fetchBlock blockNum 0"

definition blockchain_getSafeApi ::
  "(string \<Rightarrow> bool \<Rightarrow> unit result) \<Rightarrow> ('s, StellarApi) action \<Rightarrow> 'v StellarBlockWrapper \<Rightarrow>
   ('s, SafeStellarProvider) action" where
  "blockchain_getSafeApi new_rpc_Server pick_api wrapper =
     service_safeApi new_rpc_Server pick_api (sequence (block_record (block wrapper)))"

text \<open>
  \<open>BlockchainService.fetchBlocks\<close> hands the numbers to the API service, which picks a connection and
  calls its \<open>fetchBlocks\<close>; \<open>onProjectChange\<close> does nothing.
\<close>

definition blockchain_fetchBlocks ::
  "(int list \<Rightarrow> 's \<Rightarrow> ('b list result \<times> 's) option) \<Rightarrow> int list \<Rightarrow> 's \<Rightarrow> ('b list result \<times> 's) option" where
  "blockchain_fetchBlocks apiService_fetchBlocks blockNums = apiService_fetchBlocks blockNums"

definition onProjectChange :: "SubqueryProject \<Rightarrow> ('s, unit) action" where
  "onProjectChange project = skip"

section \<open>Dynamic datasources\<close>

text \<open>\<open>{ ...a, ...b }\<close>\<close>

definition js_spread :: "js_object option \<Rightarrow> js_object option \<Rightarrow> js_object" where
  "js_spread a b = (case a of None \<Rightarrow> Map.empty | Some x \<Rightarrow> x) ++ (case b of None \<Rightarrow> Map.empty | Some y \<Rightarrow> y)"

fun join_lines :: "string list \<Rightarrow> string" where
  "join_lines [] = []"
| "join_lines [l] = l"
| "join_lines (l # m # ls) = l @ newline @ join_lines (m # ls)"

text \<open>
  \<open>updateDynamicDs\<close> mutates the datasource it is given. \<open>plainToClass\<close> makes it an instance of
  \<open>StellarRuntimeDataSourceImpl\<close> (class-transformer, with the \<open>@Transform\<close> functions of the manifest
  classes, which may throw) and \<open>validateSync\<close> lists the errors of the instance (class-validator).
\<close>

definition updateDynamicDs ::
  "(SubqlDatasource \<Rightarrow> 'i result) \<Rightarrow> ('i \<Rightarrow> string list) \<Rightarrow> js_object option \<Rightarrow> (SubqlDatasource, unit) action" where
  "updateDynamicDs plainToClass validateSync args dsObj =
     (if isCustomDs dsObj then
        (let p = the (ds_processor dsObj)
         in (Inr (), dsObj\<lparr>ds_processor := Some (p\<lparr>p_options := Some (js_spread (p_options p) args)\<rparr>)\<rparr>))
      else if isRuntimeDs dsObj then
        (let dsObj' = dsObj\<lparr>ds_options := Some (js_spread (ds_options dsObj) args)\<rparr>
         in (case plainToClass dsObj' of
               Inl e \<Rightarrow> (Inl e, dsObj')
             | Inr parsedDs \<Rightarrow>
                 (let errors = validateSync parsedDs
                  in if errors \<noteq> [] then (Inl (Error (''Dynamic ds is invalid'' @ newline @ join_lines errors)), dsObj')
                     else (Inr (), dsObj'))))
      else (Inr (), dsObj))"

text \<open>The successful calls on runtime datasources.\<close>

lemma updateDynamicDs_accepts:
  assumes "isRuntimeDs ds" "updateDynamicDs plainToClass validateSync args ds = (Inr (), ds')"
  shows "\<exists>parsedDs. plainToClass ds' = Inr parsedDs \<and> validateSync parsedDs = []"
proof -
  have "\<not> isCustomDs ds" using assms(1) custom_runtime_disjoint by blast
  then show ?thesis
    using assms by (auto simp: updateDynamicDs_def Let_def split: sum.splits if_splits)
qed

section \<open>The worker\<close>

text \<open>\<open>const [block] = await this.apiService.fetchBlocks([height])\<close>\<close>

definition fetchChainBlock ::
  "(int list \<Rightarrow> 's \<Rightarrow> ('b list result \<times> 's) option) \<Rightarrow> int \<Rightarrow> 's \<Rightarrow> ('b option result \<times> 's) option" where
  "fetchChainBlock fetch height s =
     (case fetch [height] s of
        None \<Rightarrow> None
      | Some (Inl e, s') \<Rightarrow> Some (Inl e, s')
      | Some (Inr bs, s') \<Rightarrow> Some (Inr (case bs of [] \<Rightarrow> None | b # _ \<Rightarrow> Some b), s'))"

definition toBlockResponse :: "'v StellarBlockWrapper \<Rightarrow> Header" where
  "toBlockResponse w = stellarBlockToHeader (block_record (block w))"

definition processFetchedBlock ::
  "('v IBlock \<Rightarrow> SubqlDatasource list \<Rightarrow> (unit \<Rightarrow> string option result) \<Rightarrow> ('s, 'r) action) \<Rightarrow>
   'v IBlock \<Rightarrow> SubqlDatasource list \<Rightarrow> ('s, 'r) action" where
  "processFetchedBlock internalIndexBlock b dataSources = indexBlock internalIndexBlock b dataSources"

definition worker_getBlockSize :: "'v IBlock \<Rightarrow> int" where
  "worker_getBlockSize b = getBlockSize (iblock b)"

section \<open>Dictionaries of a project\<close>

record StellarDictionaryV1 =
  dictionary_url :: string
  dictionary_chainId :: string

definition new_StellarDictionaryV1 :: "SubqueryProject \<Rightarrow> string \<Rightarrow> string option \<Rightarrow> StellarDictionaryV1" where
  "new_StellarDictionaryV1 project url chainId =
     \<lparr>dictionary_url = url,
      dictionary_chainId = (case chainId of None \<Rightarrow> network_chainId (project_network project) | Some c \<Rightarrow> c)\<rparr>"

text \<open>\<open>init\<close> of \<open>DictionaryV1\<close> is a parameter: it contacts the dictionary and may throw.\<close>

definition create_StellarDictionaryV1 ::
  "(StellarDictionaryV1 \<Rightarrow> unit result) \<Rightarrow> SubqueryProject \<Rightarrow> string \<Rightarrow> string option \<Rightarrow> StellarDictionaryV1 result" where
  "create_StellarDictionaryV1 init project url chainId =
     (let dictionary = new_StellarDictionaryV1 project url chainId
      in case init dictionary of Inl e \<Rightarrow> Inl e | Inr _ \<Rightarrow> Inr dictionary)"

text \<open>The method \<open>buildDictionaryQueryEntries\<close> of the class is the function of the same name.\<close>

definition StellarDictionaryV1_buildDictionaryQueryEntries ::
  "(DictionaryQueryEntry list \<Rightarrow> (DictionaryQueryEntry \<Rightarrow> string) \<Rightarrow> DictionaryQueryEntry list) \<Rightarrow>
   (DictionaryQueryCondition list \<Rightarrow> (DictionaryQueryCondition \<Rightarrow> string) \<Rightarrow> DictionaryQueryCondition list) \<Rightarrow>
   nat \<Rightarrow> StellarDictionaryV1 \<Rightarrow> SubqlDatasource list \<Rightarrow> DictionaryQueryEntry list" where
  "StellarDictionaryV1_buildDictionaryQueryEntries uniqBy sortBy lim this dataSources =
     buildDictionaryQueryEntries uniqBy sortBy lim dataSources"

definition configured_dictionaries :: "dictionary_config \<Rightarrow> string list" where
  "configured_dictionaries d =
     (case d of
        NoDictionary \<Rightarrow> []
      | OneDictionary u \<Rightarrow> if u = [] then [] else [u]
      | ManyDictionaries us \<Rightarrow> us)"

text \<open>The loop over the endpoints; an endpoint that throws is skipped.\<close>

fun try_dictionaries ::
  "(string \<Rightarrow> StellarDictionaryV1 result) \<Rightarrow> string list \<Rightarrow> StellarDictionaryV1 list \<Rightarrow> StellarDictionaryV1 list" where
  "try_dictionaries create [] dictionariesV1 = dictionariesV1"
| "try_dictionaries create (endpoint # endpoints) dictionariesV1 =
     (case create endpoint of
        Inl e \<Rightarrow> try_dictionaries create endpoints dictionariesV1
      | Inr d \<Rightarrow> try_dictionaries create endpoints (dictionariesV1 @ [d]))"

text \<open>The dictionaries handed to \<open>this.init\<close>. \<open>resolveDictionary\<close> looks up the registry.\<close>

definition initDictionaries ::
  "(StellarDictionaryV1 \<Rightarrow> unit result) \<Rightarrow> (string \<Rightarrow> string list result) \<Rightarrow> SubqueryProject option \<Rightarrow>
   StellarDictionaryV1 list result" where
  "initDictionaries init resolveDictionary project =
     (case project of
        None \<Rightarrow> Inl (Error ''Project in Dictionary service not initialized '')
      | Some p \<Rightarrow>
          (case resolveDictionary (network_chainId (project_network p)) of
             Inl e \<Rightarrow> Inl e
           | Inr registryDictionaries \<Rightarrow>
               (let dictionaryEndpoints =
                      configured_dictionaries (network_dictionary (project_network p)) @ registryDictionaries
                in Inr (try_dictionaries (\<lambda>endpoint. create_StellarDictionaryV1 init p endpoint None)
                          dictionaryEndpoints []))))"

section \<open>Configuration\<close>

text \<open>\<open>ConfigureModule.getInstance\<close>, after \<open>registerApp\<close>: the command line may override the endpoint.\<close>

definition override_soroban :: "string option \<Rightarrow> SubqueryProject \<Rightarrow> SubqueryProject" where
  "override_soroban argv_endpoint project =
     (if truthy_str argv_endpoint
      then project\<lparr>project_network := (project_network project)\<lparr>network_sorobanEndpoint := argv_endpoint\<rparr>\<rparr>
      else project)"

definition configure_getInstance ::
  "('n \<times> SubqueryProject) result \<Rightarrow> string option \<Rightarrow> ('n \<times> SubqueryProject) result" where
  "configure_getInstance registered argv_endpoint =
     (case registered of
        Inl e \<Rightarrow> Inl e
      | Inr (nodeConfig, project) \<Rightarrow> Inr (nodeConfig, override_soroban argv_endpoint project))"

end
