(* ===== verification/Service_Properties.thy ===== *)
theory Service_Properties
  imports Api_Service Api_Properties
begin

text \<open>
  Creating the service and its connections, the classification of errors, the retried safe API, whose
  pool may pick another connection for each attempt, and what the safe API can see.
\<close>

section \<open>Retrying\<close>

text \<open>
  A state with a log of the calls: a method that records with which API it was called and what it
  returned, and an action of the pool that leaves the log alone.
\<close>

definition traced ::
  "(SafeStellarProvider \<Rightarrow> ('s, 'a) action) \<Rightarrow> SafeStellarProvider \<Rightarrow>
   ('s \<times> (SafeStellarProvider \<times> 'a result) list, 'a) action" where
  "traced m api = (\<lambda>(s, log). case m api s of (r, s') \<Rightarrow> (r, (s', log @ [(api, r)])))"

definition untraced :: "('s, 'b) action \<Rightarrow> ('s \<times> 'l, 'b) action" where
  "untraced a = (\<lambda>(s, log). case a s of (r, s') \<Rightarrow> (r, (s', log)))"

lemma traced_call: "m a s = (r, s') \<Longrightarrow> traced m a (s, log) = (r, (s', log @ [(a, r)]))"
  by (simp add: traced_def)

lemma untraced_call: "f s = (r, s') \<Longrightarrow> untraced f (s, log) = (r, (s', log))"
  by (simp add: untraced_def)

text \<open>
  The log of a method that may be called \<open>left\<close> times: the APIs are good, all calls but the last failed,
  and the outcome is that of the last call, which fails only when no attempt is left, unless an API
  for another attempt could not be made.
\<close>

definition retry_log ::
  "('s, SafeStellarProvider) action \<Rightarrow> nat \<Rightarrow> (SafeStellarProvider \<Rightarrow> bool) \<Rightarrow> 'a result \<Rightarrow>
   (SafeStellarProvider \<times> 'a result) list \<Rightarrow> bool" where
  "retry_log newApi left good r log \<longleftrightarrow>
     log \<noteq> [] \<and> length log \<le> left \<and> list_all (good \<circ> fst) log \<and> list_all (isl \<circ> snd) (butlast log) \<and>
     (r = snd (last log) \<and> (isl r \<longrightarrow> length log = left) \<or>
      isl (snd (last log)) \<and> (\<exists>e s s'. r = Inl e \<and> newApi s = (Inl e, s')))"

lemma retry_log_Cons:
  "good a \<Longrightarrow> isl x \<Longrightarrow> retry_log newApi left good r log \<Longrightarrow> retry_log newApi (Suc left) good r ((a, x) # log)"
  by (auto simp: retry_log_def)

lemma retry_method_log:
  assumes "\<And>s a s'. newApi s = (Inr a, s') \<Longrightarrow> good a" "good target" "0 < left"
    and "retry_method (untraced newApi) (traced m) left target err (s, log0) = (r, (s', log))"
  shows "\<exists>log1. log = log0 @ log1 \<and> retry_log newApi left good r log1"
  using assms(2-4)
proof (induction left arbitrary: target err s log0)
  case (Suc left)
  obtain r1 s1 where m: "m target s = (r1, s1)" by fastforce
  show ?case
  proof (cases r1)
    case (Inr x)
    then show ?thesis using Suc.prems m by (auto simp: traced_def retry_log_def)
  next
    case (Inl e)
    obtain a s2 where new: "newApi s1 = (a, s2)" by fastforce
    show ?thesis
    proof (cases a)
      case (Inl e')
      then show ?thesis
        using Suc.prems m \<open>r1 = Inl e\<close> new by (auto simp: traced_def untraced_def retry_log_def)
    next
      case (Inr api)
      have rest: "retry_method (untraced newApi) (traced m) left api (Some e) (s2, log0 @ [(target, Inl e)]) = (r, (s', log))"
        using Suc.prems \<open>r1 = Inl e\<close> Inr by (simp add: traced_call [of m, OF m] untraced_call [of newApi, OF new])
      show ?thesis
      proof (cases left)
        case 0
        then show ?thesis using rest Suc.prems(1) by (auto simp: retry_log_def)
      next
        case (Suc k)
        then obtain log1 where "log = (log0 @ [(target, Inl e)]) @ log1" "retry_log newApi left good r log1"
          using Suc.IH [OF _ _ rest] assms(1) new Inr by blast
        then show ?thesis using retry_log_Cons [of good target "Inl e"] Suc.prems(1) by auto
      qed
    qed
  qed
qed simp

section \<open>Properties\<close>

definition sample_project :: "SubqlHandler list \<Rightarrow> string option \<Rightarrow> SubqueryProject" where
  "sample_project hs endpoint =
     \<lparr>project_network = \<lparr>network_chainId = ''Test'', network_endpoint = (\<lambda>_. None),
        network_sorobanEndpoint = endpoint, network_dictionary = NoDictionary\<rparr>,
      project_dataSources = [\<lparr>ds_kind = StellarDatasourceKind_Runtime, ds_startBlock = Some 1,
        ds_mapping = \<lparr>m_file = ''dist/index.js'', m_handlers = hs\<rparr>, ds_options = None, ds_processor = None\<rparr>],
      project_templates = []\<rparr>"

lemma with_primary_simps [simp]:
  "network_sorobanEndpoint (with_primary primary network) = network_sorobanEndpoint network"
  "network_chainId (with_primary primary network) = network_chainId network"
  by (simp_all add: with_primary_def split: option.split prod.split)

text \<open>What every connection has: the client it was made with and a positive page limit.\<close>

lemma created_connection:
  assumes "create_StellarApiConnection env endpoint fetch soroban config = Inr conn"
  shows "api_sorobanClient (unsafeApi conn) = soroban \<and> 0 < api_pageLimit (unsafeApi conn) \<and>
    api_endpoint (unsafeApi conn) = endpoint \<and> fetchBlocksBatches conn = fetch"
  using assms
  by (auto simp: create_StellarApiConnection_def new_StellarApi_def api_init_def new_StellarApiConnection_def
      DEFAULT_PAGE_SIZE_def Let_def split: sum.splits if_splits option.splits)

text \<open>
  A project without a Soroban endpoint never starts: if a datasource or template has a Soroban
  event handler the service reports the missing endpoint, and otherwise it fails with the error of
  parsing the text \<open>undefined\<close> as a URL, although it has a branch for running without the client.
\<close>

lemma create_needs_endpoint:
  assumes "network_sorobanEndpoint (project_network project) = None"
    and "url_protocol env ''undefined'' = Inl e"
  shows "fst (create_StellarApiService env new_rpc_Server createConnections primary project) =
    Inl (if dsHasSorobanEventHandler (project_dataSources project @ project_templates project)
         then Error (''Soroban network endpoint must be provided for network. chainId='' @ [CHR 0x22] @
                network_chainId (project_network project) @ [CHR 0x22])
         else e)"
  by (simp add: create_StellarApiService_def Let_def js_string_of_option_def assms)

text \<open>
  With a Soroban endpoint the service connects to every endpoint of the network, the primary one
  with its own options added, and every connection shares the one Soroban client.
\<close>

lemma create_connects:
  assumes "network_sorobanEndpoint (project_network project) = Some u" "u \<noteq> []"
    and "url_protocol env u = Inr protocol"
    and "new_rpc_Server u (remove_first_colon protocol = ''http'') = Inr ()"
  shows "fst (create_StellarApiService env new_rpc_Server createConnections primary project) =
    createConnections (with_primary primary (project_network project))
      (\<lambda>endpoint config. create_StellarApiConnection env endpoint (fetchBlockBatches env) (Some u) config)"
  using assms by (simp add: create_StellarApiService_def Let_def js_string_of_option_def)

text \<open>
  C36: A service that starts can fetch events. When the URL parser refuses \<open>undefined\<close> and the empty text,
  creating the service succeeds only for a project with a Soroban endpoint, and every connection it
  makes has a Soroban client for that endpoint, so the assertion that there is one never fails, and
  a positive page limit. The project is changed only in the options of the primary endpoint. In particular a project without a Soroban endpoint never starts, although
  the code has a branch for running without the client.
\<close>

theorem started_service_has_soroban:
  assumes "url_protocol env ''undefined'' = Inl e" "url_protocol env [] = Inl e'"
    and "create_StellarApiService env new_rpc_Server createConnections primary project = (Inr pool, project')"
  shows "project' = project\<lparr>project_network := with_primary primary (project_network project)\<rparr> \<and>
    (\<exists>u. network_sorobanEndpoint (project_network project) = Some u \<and>
    createConnections (with_primary primary (project_network project))
      (\<lambda>endpoint config. create_StellarApiConnection env endpoint (fetchBlockBatches env) (Some u) config) = Inr pool \<and>
    (\<forall>endpoint config conn.
      create_StellarApiConnection env endpoint (fetchBlockBatches env) (Some u) config = Inr conn \<longrightarrow>
      sorobanClient (unsafeApi conn) = Inr u \<and> 0 < api_pageLimit (unsafeApi conn)))"
proof -
  have project: "project' = project\<lparr>project_network := with_primary primary (project_network project)\<rparr>"
    using assms(3) by (simp add: create_StellarApiService_def Let_def)
  obtain u where u: "network_sorobanEndpoint (project_network project) = Some u"
    using assms(3) create_needs_endpoint [OF _ assms(1), of project new_rpc_Server createConnections primary]
    by (cases "network_sorobanEndpoint (project_network project)") simp_all
  moreover have "u \<noteq> []"
    using assms(2,3) u by (auto simp: create_StellarApiService_def Let_def js_string_of_option_def split: if_splits)
  moreover from this have "createConnections (with_primary primary (project_network project))
      (\<lambda>endpoint config. create_StellarApiConnection env endpoint (fetchBlockBatches env) (Some u) config) = Inr pool"
    using assms(3) u
    by (auto simp: create_StellarApiService_def Let_def js_string_of_option_def split: if_splits sum.splits)
  moreover have "sorobanClient (unsafeApi conn) = Inr u \<and> 0 < api_pageLimit (unsafeApi conn)"
    if "create_StellarApiConnection env endpoint (fetchBlockBatches env) (Some u) config = Inr conn"
    for endpoint config conn
    using created_connection [OF that] by (simp add: sorobanClient_def)
  ultimately show ?thesis using project by blast
qed

text \<open>A pool with one connection, to the endpoint of the sample services.\<close>

definition one_connection ::
  "StellarProjectNetworkConfig \<Rightarrow> (string \<Rightarrow> IStellarEndpointConfig option \<Rightarrow> 'c result) \<Rightarrow> 'c result" where
  "one_connection network connect = connect ''https://h'' (network_endpoint network ''https://h'')"

theorem started_service_has_soroban_witness:
  "\<exists>conn. create_StellarApiService sample_services (\<lambda>u h. Inr ()) one_connection None (sample_project [] (Some ''https://h''))
      = (Inr conn, sample_project [] (Some ''https://h'')) \<and> sorobanClient (unsafeApi conn) = Inr ''https://h''"
proof -
  let ?create = "create_StellarApiService sample_services (\<lambda>u h. Inr ()) one_connection None (sample_project [] (Some ''https://h''))"
  have "\<not> isl (fst ?create)" by code_simp
  then obtain conn project where create: "?create = (Inr conn, project)"
    by (cases ?create; cases "fst ?create") auto
  have "url_protocol sample_services ''undefined'' = Inl (TypeError ''Invalid URL'')"
    "url_protocol sample_services [] = Inl (TypeError ''Invalid URL'')"
    by (simp_all add: sample_services_def)
  from started_service_has_soroban [OF this create] create show ?thesis
    by (auto simp: one_connection_def sample_project_def with_primary_def)
qed

text \<open>
  A connection is made for HTTP and HTTPS endpoints only and reports the network passphrase of the
  endpoint as chain and as genesis hash; other protocols, a failing endpoint and an empty passphrase
  are errors.
\<close>

lemma connection_metadata:
  assumes "url_protocol env endpoint = Inr protocol"
  shows "map_sum id networkMeta (create_StellarApiConnection env endpoint fetch soroban config) =
    (if remove_first_colon protocol \<notin> {''https'', ''http''} then Inl (Error (''Unsupported protocol: '' @ protocol))
     else case h_root (horizon_server env endpoint (remove_first_colon protocol = ''http'')
         (case config of None \<Rightarrow> [] | Some c \<Rightarrow> config_headers c)) of
       Inl e \<Rightarrow> Inl e
     | Inr passphrase \<Rightarrow>
         if passphrase = [] then Inl (AssertionError ''Api has not been initialised'')
         else Inr \<lparr>meta_chain = passphrase, meta_specName = ''Stellar'', meta_genesisHash = passphrase\<rparr>)"
  using assms
  by (auto simp: create_StellarApiConnection_def new_StellarApi_def api_init_def new_StellarApiConnection_def
      getChainId_def getGenesisHash_def getSpecName_def stellarClient_def Let_def split: sum.split)

text \<open>
  From an endpoint of the project to the blocks of the chain: a connection that was made fetches what
  the servers hold.
\<close>

lemma connection_fetches_chain:
  assumes "create_StellarApiConnection env endpoint (fetchBlockBatches env) (Some u) config = Inr conn"
    and "lodash_events (env_lodash env)"
    and "full_page_rpc (rpc_getEvents env) (chain_events c) pos maxLimit"
    and "api_pageLimit (unsafeApi conn) \<le> maxLimit"
    and "cache_sound (chain_events c) cache"
    and "list_all (serves_chain (stellarClient env (unsafeApi conn)) (api_pageLimit (unsafeApi conn)) c) ss"
  shows "\<exists>cache' w'. connection_fetchBlocks conn ss cache w = Some (Inr (map (chain_result c) ss), cache', w')"
proof -
  note conn = created_connection [OF assms(1)]
  obtain cache' w' where "fetch_all env (unsafeApi conn) ss cache w = Some (map (Inr \<circ> chain_result c) ss, cache', w')"
    using fetch_all_chain [OF assms(2,3) _ assms(4) _ assms(5,6)] conn by blast
  then have "fetch_all env (unsafeApi conn) ss cache w = Some (map Inr (map (chain_result c) ss), cache', w')"
    by simp
  then show ?thesis
    using conn by (simp add: connection_fetchBlocks_def fetchBlockBatches_def fetchBlocks_def del: map_map)
qed

text \<open>
  The error classes are decided by the message, in order of precedence: timeouts, disconnections,
  rate limits and oversized responses are recognised by their phrase, and every other error keeps its
  name and message.
\<close>

lemma error_classification:
  "connection_handleError e =
    (if \<exists>a b. message e = a @ ''Timeout'' @ b then TimeoutError e
     else if \<exists>b. message e = ''disconnected from '' @ b then DisconnectionError e
     else if (\<exists>a b. message e = a @ ''Rate Limit Exceeded'' @ b) \<or> (\<exists>a b. message e = a @ ''Too Many Requests'' @ b)
       then RateLimitError e
     else if \<exists>a b. message e = a @ ''limit must not exceed'' @ b then LargeResponseError e
     else ApiConnectionError (error_name e) (message e))"
  unfolding connection_handleError_def str_includes_iff str_startsWith_iff by (rule refl)

text \<open>
  C35: The retried safe API. Whatever connection the pool picks for each attempt, a method is called at
  least once and at most five times, always with an API of the block height that was asked for; every
  call but the last failed, and the caller gets the result of the last one, an error only after five
  calls, unless no new API can be made after a failure, whose error it then gets.
\<close>

theorem safe_api_retries:
  assumes "service_safeApi new_rpc_Server pick_api height s0 = (Inr target, s)"
    and "service_safeApi_call new_rpc_Server (untraced pick_api) height target (traced m) (s, []) = (r, (s', log))"
  shows "retry_log (service_getSafeApi new_rpc_Server pick_api height) 5 (\<lambda>a. safe_blockHeight a = height) r log"
proof -
  let ?new = "service_getSafeApi new_rpc_Server pick_api height"
  have made: "safe_blockHeight a = height" if "?new t = (Inr a, t')" for t a t'
    using that by (auto simp: service_getSafeApi_def getSafeApi_def new_SafeStellarProvider_def split: prod.splits sum.splits)
  have lift: "service_getSafeApi new_rpc_Server (untraced pick_api) height = untraced ?new"
    by (auto simp: service_getSafeApi_def untraced_def fun_eq_iff split: prod.split sum.split)
  have run: "retry_method (untraced ?new) (traced m) 5 target None (s, []) = (r, (s', log))"
    using assms(2) by (simp add: service_safeApi_call_def maxRetries_def lift)
  have "safe_blockHeight target = height" using made assms(1) by (simp add: service_safeApi_def)
  from retry_method_log [of ?new "\<lambda>a. safe_blockHeight a = height", OF made this _ run] show ?thesis by simp
qed

text \<open>A pool with two connections, of which the second is picked once; and a method that always fails.\<close>

definition two_apis :: "(nat, StellarApi) action" where
  "two_apis n = (Inr (if n = 1 then sample_api\<lparr>api_sorobanClient := Some ''https://t''\<rparr> else sample_api), Suc n)"

theorem safe_api_retries_witness:
  "\<exists>log. service_safeApi_call (\<lambda>u h. Inr ()) (untraced two_apis) 7 \<lparr>safe_blockHeight = 7, safe_baseApi = ''https://s''\<rparr>
      (traced (\<lambda>a s. (call_safe_method getHealth :: unit result, s))) (1, [])
     = (Inl (Error ''Method getHealth is not implemented.''), (6, log)) \<and>
    retry_log (service_getSafeApi (\<lambda>u h. Inr ()) two_apis 7) 5 (\<lambda>a. safe_blockHeight a = 7)
      (Inl (Error ''Method getHealth is not implemented.'') :: unit result) log"
proof -
  let ?target = "\<lparr>safe_blockHeight = 7, safe_baseApi = ''https://s''\<rparr>"
  let ?m = "\<lambda>(a :: SafeStellarProvider) s. (call_safe_method getHealth :: unit result, s)"
  obtain r n log where run: "service_safeApi_call (\<lambda>u h. Inr ()) (untraced two_apis) 7 ?target (traced ?m) (1, []) = (r, (n, log))"
    by (metis prod_cases3)
  have target: "service_safeApi (\<lambda>u h. Inr ()) two_apis 7 0 = (Inr ?target, 1)"
    by (simp add: service_safeApi_def service_getSafeApi_def two_apis_def getSafeApi_def sample_api_def
        sorobanClient_def new_SafeStellarProvider_def)
  have "fst (service_safeApi_call (\<lambda>u h. Inr ()) (untraced two_apis) 7 ?target (traced ?m) (1, []))
      = Inl (Error ''Method getHealth is not implemented.'')"
    "fst (snd (service_safeApi_call (\<lambda>u h. Inr ()) (untraced two_apis) 7 ?target (traced ?m) (1, []))) = 6"
    by code_simp+
  with safe_api_retries [OF target run] run show ?thesis by auto
qed

text \<open>
  C34: The safe API shows its user events of one ledger only. Whatever the RPC server answers and whatever
  the arguments, \<open>getEvents\<close> returns, as it does for any other arguments, events of the block height
  of the API only, and leaves the cache it shares with the indexer well formed. Each of the eleven
  methods the class overrides to refuse is refused by name, without a call to the server. That is
  all the class does: a method it does not override is the inherited one, run as it is.
\<close>

theorem safe_api_sees_own_ledger:
  assumes "lodash_events (env_lodash env)" "cache_wf cache"
    and "safe_invoke env as_request inherited safe ''getEvents'' args cache w = Some (r, cache', w')"
    and "name \<notin> insert ''getEvents'' (range safe_method_name)"
  shows "safe_invoke env as_request inherited safe ''getEvents'' args' cache w = Some (r, cache', w') \<and>
    cache_wf cache' \<and>
    (case r of Inl _ \<Rightarrow> True
     | Inr (Inl c) \<Rightarrow> list_all (\<lambda>e. ev_ledger e = safe_blockHeight safe) (cached_events c)
     | Inr (Inr _) \<Rightarrow> False) \<and>
    safe_invoke env as_request inherited safe (safe_method_name m) args cache w =
      Some (Inl (Error (''Method '' @ safe_method_name m @ '' is not implemented.'')), cache, w) \<and>
    safe_invoke env as_request inherited safe name args cache w =
      (case inherited safe name args w of (v, w1) \<Rightarrow> Some (map_sum id Inr v, cache, w1))"
proof -
  obtain r0 where run: "safe_getEvents env safe (as_request args) cache w = Some (r0, cache', w')"
      and r: "r = map_sum id Inl r0"
    using assms(3) by (auto simp: safe_invoke_getEvents)
  have same: "safe_getEvents env safe (as_request args') cache w = Some (r0, cache', w')"
    using run by (simp add: safe_getEvents_def)
  note own = getEvents_only_own_ledger [OF assms(1,2) run [unfolded safe_getEvents_def]]
  have "safe_invoke env as_request inherited safe ''getEvents'' args' cache w = Some (r, cache', w')"
    by (simp add: safe_invoke_getEvents same r)
  moreover have "case r of Inl _ \<Rightarrow> True
     | Inr (Inl c) \<Rightarrow> list_all (\<lambda>e. ev_ledger e = safe_blockHeight safe) (cached_events c)
     | Inr (Inr _) \<Rightarrow> False"
    using own by (cases r0) (auto simp: r list_all_iff)
  ultimately show ?thesis
    using own safe_invoke_inherited [OF assms(4)] by (simp add: safe_invoke_refused call_safe_method_def)
qed

text \<open>Asked for the events of ledger 8, the safe API of block 7 returns those of ledger 7; it refuses
  \<open>getHealth\<close>, and passes on \<open>getFeeStats\<close>.\<close>

theorem safe_api_sees_own_ledger_witness:
  "\<exists>c cache' w'. safe_invoke sample_services id (\<lambda>safe name args w. (Inr name, w))
      \<lparr>safe_blockHeight = 7, safe_baseApi = ''https://s''\<rparr> ''getEvents'' (ledger_request 8 10) (\<lambda>_. None) 0
        = Some (Inr (Inl c), cache', w') \<and>
    cached_events c \<noteq> [] \<and> list_all (\<lambda>e. ev_ledger e = 7) (cached_events c) \<and> cache_wf cache' \<and>
    safe_invoke sample_services id (\<lambda>safe name args w. (Inr name, w))
      \<lparr>safe_blockHeight = 7, safe_baseApi = ''https://s''\<rparr> ''getFeeStats'' (ledger_request 8 10) (\<lambda>_. None) 0
        = Some (Inr (Inr ''getFeeStats''), \<lambda>_. None, 0)"
proof -
  let ?safe = "\<lparr>safe_blockHeight = 7, safe_baseApi = ''https://s''\<rparr>"
  let ?inherited = "\<lambda>(safe :: SafeStellarProvider) (name :: string) (args :: GetEventsRequest) (w :: nat). (Inr name :: string result, w)"
  let ?run = "safe_invoke sample_services id ?inherited ?safe ''getEvents'' (ledger_request 8 10) (\<lambda>_. None) 0"
  have other: "''getFeeStats'' \<notin> insert ''getEvents'' (range safe_method_name)"
  proof -
    have "safe_method_name m \<noteq> ''getFeeStats''" for m by (cases m) simp_all
    then show ?thesis by (auto dest: sym)
  qed
  have "case ?run of Some (Inr (Inl c), cache', w') \<Rightarrow> cached_events c \<noteq> [] | _ \<Rightarrow> False" by code_simp
  then obtain c cache' w' where run: "?run = Some (Inr (Inl c), cache', w')" and "cached_events c \<noteq> []"
    by (auto split: option.splits prod.splits sum.splits)
  with safe_api_sees_own_ledger [OF sample_setup(1) cache_wf_empty run other, of _ getHealth] show ?thesis
    by auto
qed

text \<open>
  The safe API needs a Soroban server reachable over HTTPS: it is made without allowing plain HTTP,
  so a server URL the SDK refuses for that reason, which the service itself had accepted, makes the
  safe API throw that refusal when it is created.
\<close>

lemma safe_api_insecure:
  assumes "pick_api s = (Inr api, s')" "api_sorobanClient api = Some u" "new_rpc_Server u False = Inl e"
  shows "service_safeApi new_rpc_Server pick_api height s = (Inl e, s')"
  using assms by (simp add: service_safeApi_def service_getSafeApi_def getSafeApi_def sorobanClient_def
      new_SafeStellarProvider_def)

end
