(* ===== verification/Blockchain_Properties.thy ===== *)
theory Blockchain_Properties
  imports Blockchain_Service Service_Properties
begin

text \<open>
  Headers identify ledgers by their number, the worker fetches the block of the chain, dynamic
  datasources keep what they are not given, and dictionaries that fail are skipped.
\<close>

lemma int_string_inject [simp]: "int_string i = int_string j \<longleftrightarrow> i = j"
  by (metis option.inject parseInt_int_string)

lemma try_dictionaries_eq:
  "try_dictionaries create es ds = ds @ map (projr \<circ> create) (filter (\<lambda>e. \<not> isl (create e)) es)"
  by (induction es arbitrary: ds) (auto split: sum.split)

lemma isl_create_dictionary:
  "isl (create_StellarDictionaryV1 init p u c) \<longleftrightarrow> isl (init (new_StellarDictionaryV1 p u c))"
  by (simp add: create_StellarDictionaryV1_def Let_def split: sum.split)

lemma projr_create_dictionary:
  "\<not> isl (init (new_StellarDictionaryV1 p u c)) \<Longrightarrow>
   projr (create_StellarDictionaryV1 init p u c) = new_StellarDictionaryV1 p u c"
  by (auto simp: create_StellarDictionaryV1_def Let_def split: sum.split)

section \<open>Properties\<close>

text \<open>
  C38: Headers form a chain exactly like the ledgers: the parent hash of one header is the block hash of
  another just when the ledgers are consecutive, and looking a header up by the hash of a ledger, or
  by its parent hash, asks for that ledger, or for the one before it.
\<close>

theorem headers_identify_ledgers:
  "(parentHash (stellarBlockToHeader b') = blockHash (stellarBlockToHeader b) \<longleftrightarrow> sequence b' = sequence b + 1) \<and>
   getHeaderForHash env api nan_reply (blockHash (stellarBlockToHeader b)) = getHeaderForHeight env api (sequence b) \<and>
   getHeaderForHash env api nan_reply (parentHash (stellarBlockToHeader b)) = getHeaderForHeight env api (sequence b - 1)"
proof -
  have "sequence b' - 1 = sequence b \<longleftrightarrow> sequence b' = sequence b + 1" by arith
  then show ?thesis
    by (simp add: getHeaderForHash_def header_hash_height header_parent_height)
      (simp add: stellarBlockToHeader_def)
qed

text \<open>
  C4: Workers and the main thread agree. Each has a connection, to an endpoint and with a Horizon server
  of its own, its own event cache and its own view of the RPC server. When both caches are sound and
  both Horizon servers serve the ledger of the chain, a worker's \<open>fetchChainBlock\<close> and the
  blockchain service's \<open>fetchBlocks\<close> give the same block of the chain, and the header that the worker
  sends back is the header of that block, the one the service looks up by height, and the one it
  looks up by the hash in it.
\<close>

theorem worker_agrees_with_main_thread:
  assumes "create_StellarApiConnection env endpoint (fetchBlockBatches env) (Some u) config = Inr worker"
    and "create_StellarApiConnection env endpoint' (fetchBlockBatches env) (Some u') config' = Inr main"
    and "lodash_events (env_lodash env)"
    and "full_page_rpc (rpc_getEvents env) (chain_events c) pos maxLimit"
    and "api_pageLimit (unsafeApi worker) \<le> maxLimit" "api_pageLimit (unsafeApi main) \<le> maxLimit"
    and "cache_sound (chain_events c) cache" "cache_sound (chain_events c) cache'"
    and "serves_chain (stellarClient env (unsafeApi worker)) (api_pageLimit (unsafeApi worker)) c s"
    and "serves_chain (stellarClient env (unsafeApi main)) (api_pageLimit (unsafeApi main)) c s"
  shows "\<exists>b t t'.
    fetchChainBlock (\<lambda>hs (cache, w). connection_fetchBlocks worker hs cache w) s (cache, w) = Some (Inr (Some b), t) \<and>
    blockchain_fetchBlocks (\<lambda>hs (cache, w). connection_fetchBlocks main hs cache w) [s] (cache', w') = Some (Inr [b], t') \<and>
    iblock b = wrap_block (chain_block c s) \<and>
    getHeader b () = toBlockResponse (iblock b) \<and>
    getHeaderForHeight env (unsafeApi main) s = Inr (toBlockResponse (iblock b)) \<and>
    getHeaderForHash env (unsafeApi main) nan_reply (blockHash (toBlockResponse (iblock b))) = Inr (toBlockResponse (iblock b))"
proof -
  obtain cache1 w1 where "connection_fetchBlocks worker [s] cache w = Some (Inr [chain_result c s], cache1, w1)"
    using connection_fetches_chain [OF assms(1,3,4,5,7), where ss = "[s]" and w = w] assms(9) by auto
  moreover obtain cache2 w2 where "connection_fetchBlocks main [s] cache' w' = Some (Inr [chain_result c s], cache2, w2)"
    using connection_fetches_chain [OF assms(2,3,4,6,8), where ss = "[s]" and w = w'] assms(10) by auto
  moreover have "block_record (chain_block c s) = chain_ledger c s"
    by (simp add: chain_block_def wrapped_ledger_sel)
  moreover have "h_ledger (stellarClient env (unsafeApi main)) s = Inr (chain_ledger c s)" "sequence (chain_ledger c s) = s"
    using assms(10) by (simp_all add: serves_chain_def)
  ultimately show ?thesis
    by (simp add: fetchChainBlock_def blockchain_fetchBlocks_def chain_result_def formatBlockUtil_def wrap_block_def
        new_StellarBlockWrapped_def toBlockResponse_def getHeaderForHeight_def getHeaderForHash_def header_hash_height)
qed

theorem worker_agrees_with_main_thread_witness:
  "\<exists>conn b t t'. create_StellarApiConnection sample_services ''https://h'' (fetchBlockBatches sample_services)
      (Some ''https://s'') None = Inr conn \<and>
    fetchChainBlock (\<lambda>hs (cache, w). connection_fetchBlocks conn hs cache w) 7 (\<lambda>_. None, 0) = Some (Inr (Some b), t) \<and>
    blockchain_fetchBlocks (\<lambda>hs (cache, w). connection_fetchBlocks conn hs cache w) [7] (\<lambda>_. None, 1) = Some (Inr [b], t') \<and>
    getHeaderForHash sample_services (unsafeApi conn) (Inl (Error [])) ''7'' = Inr (toBlockResponse (iblock b))"
proof -
  let ?create = "create_StellarApiConnection sample_services ''https://h'' (fetchBlockBatches sample_services) (Some ''https://s'') None"
  have "\<not> isl ?create" "api_pageLimit (unsafeApi (projr ?create)) = 150" by code_simp+
  then obtain conn where conn: "?create = Inr conn" and limit: "api_pageLimit (unsafeApi conn) = 150"
    by (cases ?create) auto
  have served: "serves_chain (stellarClient sample_services (unsafeApi conn)) (api_pageLimit (unsafeApi conn)) sample_chain 7"
    using sample_setup(7) by (simp add: limit)
  have le: "api_pageLimit (unsafeApi conn) \<le> 200" by (simp add: limit)
  from worker_agrees_with_main_thread
    [OF conn conn sample_setup(1,2) le le sample_setup(6) sample_setup(6) served served,
      where w = 0 and w' = 1 and nan_reply = "Inl (Error [])"]
  obtain b t t' where
    "fetchChainBlock (\<lambda>hs (cache, w). connection_fetchBlocks conn hs cache w) 7 (\<lambda>_. None, 0) = Some (Inr (Some b), t)"
    "blockchain_fetchBlocks (\<lambda>hs (cache, w). connection_fetchBlocks conn hs cache w) [7] (\<lambda>_. None, 1) = Some (Inr [b], t')"
    "getHeaderForHeight sample_services (unsafeApi conn) 7 = Inr (toBlockResponse (iblock b))"
    by blast
  moreover have "parseInt ''7'' = Some 7" by code_simp
  ultimately show ?thesis using conn by (auto simp: getHeaderForHash_def)
qed

text \<open>
  Updating a dynamic runtime datasource changes its options only: every option given by the
  arguments has the given value and every other one keeps its value. The call throws exactly when
  the updated datasource cannot be made an instance, with the error of that, or does not validate,
  with an error listing what is wrong; the update stays in place even then.
\<close>

lemma dynamic_runtime_ds:
  assumes "isRuntimeDs ds"
  shows "\<exists>opts. snd (updateDynamicDs plainToClass validateSync args ds) = ds\<lparr>ds_options := Some opts\<rparr> \<and>
    (\<forall>k. opts k = (case Option.bind args (\<lambda>a. a k) of Some v \<Rightarrow> Some v | None \<Rightarrow> Option.bind (ds_options ds) (\<lambda>a. a k))) \<and>
    fst (updateDynamicDs plainToClass validateSync args ds) =
      bind_result (plainToClass (ds\<lparr>ds_options := Some opts\<rparr>)) (\<lambda>i.
        if validateSync i = [] then Inr ()
        else Inl (Error (''Dynamic ds is invalid'' @ newline @ join_lines (validateSync i))))"
proof -
  have "\<not> isCustomDs ds" using assms custom_runtime_disjoint by blast
  moreover have "js_spread a b k = (case Option.bind b (\<lambda>a. a k) of Some v \<Rightarrow> Some v | None \<Rightarrow> Option.bind a (\<lambda>a. a k))"
    for a b k by (auto simp: js_spread_def map_add_def split: option.split)
  ultimately show ?thesis
    using assms
    by (intro exI [of _ "js_spread (ds_options ds) args"])
      (simp add: updateDynamicDs_def Let_def bind_result_def split: sum.split)
qed

text \<open>
  The dictionaries of a project are those of its configured endpoints, then of the registry, that
  can be initialised, in this order; an endpoint that cannot is skipped and does not fail the project.
\<close>

lemma dictionaries_initialised:
  "initDictionaries init resolveDictionary (Some p) =
    (case resolveDictionary (network_chainId (project_network p)) of
       Inl e \<Rightarrow> Inl e
     | Inr registry \<Rightarrow>
         Inr (map (\<lambda>u. new_StellarDictionaryV1 p u None)
           (filter (\<lambda>u. \<not> isl (init (new_StellarDictionaryV1 p u None)))
             (configured_dictionaries (network_dictionary (project_network p)) @ registry))))"
  by (simp add: initDictionaries_def Let_def try_dictionaries_eq isl_create_dictionary projr_create_dictionary
      split: sum.split)

end
