(* ===== verification/Manifest_Classes.thy ===== *)
theory Manifest_Classes
  imports Stellar_Types
begin

text \<open>
  The classes of a project manifest: \<open>packages/common-stellar/src/project/models.ts\<close> and
  \<open>packages/common-stellar/src/project/versioned/v1_0_0/model.ts\<close>.

  These classes are declarations: a list of properties, each with the decorators that two
  packages read, class-transformer (\<open>@Type\<close>, \<open>@Transform\<close>) and class-validator (the others). A class
  is modelled as what it declares: \<open>own_properties\<close> gives the properties in source order with
  their decorators and initial values, \<open>super_class\<close> the class extended. What the packages do
  with the declarations is in \<open>Manifest_Packages\<close>; the functions given to \<open>@Transform\<close> are code and
  are modelled there too. Base classes of other packages (\<open>BaseDataSource\<close>,
  \<open>ProjectManifestBaseImpl\<close>, \<open>RunnerNodeImpl\<close>) may declare further properties, which the model does not
  mention.
\<close>

section \<open>Classes and values\<close>

datatype manifest_class =
    BlockFilter | TransactionFilter | OperationFilter | EffectFilter | EventFilter
  | BlockHandler | TransactionHandler | SorobanTransactionHandler | OperationHandler
  | EffectHandler | EventHandler | CustomHandler
  | StellarMapping | CustomMapping | StellarProcessorOptions | FileReferenceImpl
  | RuntimeDataSourceBase | CustomDataSourceBase
  | StellarRunnerNodeImpl | StellarRunnerSpecsImpl
  | StellarRuntimeDataSourceImpl | StellarCustomDataSourceImpl
  | RuntimeDatasourceTemplateImpl | CustomDatasourceTemplateImpl
  | ProjectNetworkDeploymentV1_0_0 | StellarProjectNetwork
  | DeploymentV1_0_0 | ProjectManifestV1_0_0Impl
  | PackageClass string

text \<open>
  A value of a manifest: what a YAML or JSON document holds, and the instances made from it. An
  object carries the class it is an instance of, \<open>None\<close> for a plain object. \<open>VFrac\<close> is a number
  that is not an integer, given by its text.
\<close>

datatype manifest_value =
    VUndefined
  | VNull
  | VBool bool
  | VNum int
  | VFrac string
  | VStr string
  | VArr "manifest_value list"
  | VObj "manifest_class option" "(string \<times> manifest_value) list"

text \<open>Reading a property of an object: an absent one is \<open>undefined\<close>.\<close>

definition field :: "(string \<times> manifest_value) list \<Rightarrow> string \<Rightarrow> manifest_value" where
  "field fs n = (case map_of fs n of None \<Rightarrow> VUndefined | Some v \<Rightarrow> v)"

section \<open>Decorators\<close>

text \<open>The functions given to \<open>@Transform\<close>, by the property they decorate.\<close>

datatype transform_function = mapping_handlers | trim_chainId | deployment_network

datatype decorator =
    IsOptional | IsString | IsInt | IsArray | IsObject | IsNotEmpty
  | IsEnum "string list" "string list"
  | IsIn "manifest_value list" string
  | Equals manifest_value
  | ValidateNested bool
  | forbidNonWhitelisted "string list"
  | Type manifest_class
  | TypeBy manifest_class string "(string \<times> manifest_class) list" bool
  | Transform transform_function

text \<open>
  \<open>IsEnum values groups\<close>, \<open>IsIn values message\<close>, \<open>ValidateNested each\<close>; \<open>TypeBy\<close> is \<open>@Type\<close> with a
  discriminator: the default class, the discriminating property, the sub-types by name, and
  \<open>keepDiscriminatorProperty\<close>. A property declared as a \<open>Map\<close> is marked, because class-transformer
  builds a \<open>Map\<close> for it instead of an object.
\<close>

record manifest_property =
  prop_name :: string
  prop_decorators :: "decorator list"
  prop_default :: manifest_value
  prop_is_map :: bool

definition decorated :: "string \<Rightarrow> decorator list \<Rightarrow> manifest_property" where
  "decorated n ds = \<lparr>prop_name = n, prop_decorators = ds, prop_default = VUndefined, prop_is_map = False\<rparr>"

definition with_default :: "manifest_value \<Rightarrow> manifest_property \<Rightarrow> manifest_property" where
  "with_default v p = p\<lparr>prop_default := v\<rparr>"

definition as_map :: "manifest_property \<Rightarrow> manifest_property" where
  "as_map p = p\<lparr>prop_is_map := True\<rparr>"

section \<open>Filters\<close>

definition BlockFilter_properties :: "manifest_property list" where
  "BlockFilter_properties =
    [decorated ''modulo'' [IsOptional, IsInt],
     decorated ''timestamp'' [IsOptional, IsString]]"

definition TransactionFilter_properties :: "manifest_property list" where
  "TransactionFilter_properties = [decorated ''account'' [IsOptional, IsString]]"

definition OperationFilter_properties :: "manifest_property list" where
  "OperationFilter_properties =
    [decorated ''type'' [IsOptional],
     decorated ''sourceAccount'' [IsOptional, IsString]]"

definition EffectFilter_properties :: "manifest_property list" where
  "EffectFilter_properties =
    [decorated ''type'' [IsOptional, IsString],
     decorated ''account'' [IsOptional, IsString]]"

definition EventFilter_properties :: "manifest_property list" where
  "EventFilter_properties =
    [decorated ''contractId'' [IsOptional, IsString],
     decorated ''topics'' [IsOptional, IsArray]]"

section \<open>Handlers\<close>

definition BlockHandler_properties :: "manifest_property list" where
  "BlockHandler_properties =
    [decorated ''filter'' [IsObject, IsOptional, Type BlockFilter],
     decorated ''kind'' [IsEnum handler_kind_values [handler_kind_value Block]],
     decorated ''handler'' [IsString]]"

definition TransactionHandler_properties :: "manifest_property list" where
  "TransactionHandler_properties =
    [decorated ''filter'' [forbidNonWhitelisted [''account''], IsObject, IsOptional, Type TransactionFilter],
     decorated ''kind'' [IsEnum handler_kind_values [handler_kind_value Transaction]],
     decorated ''handler'' [IsString]]"

definition SorobanTransactionHandler_properties :: "manifest_property list" where
  "SorobanTransactionHandler_properties =
    [decorated ''filter'' [forbidNonWhitelisted [''account''], IsObject, IsOptional, Type TransactionFilter],
     decorated ''kind'' [IsEnum handler_kind_values [handler_kind_value SorobanTransaction]],
     decorated ''handler'' [IsString]]"

definition OperationHandler_properties :: "manifest_property list" where
  "OperationHandler_properties =
    [decorated ''filter''
       [forbidNonWhitelisted [''type'', ''sourceAccount''], IsObject, IsOptional, Type OperationFilter],
     decorated ''kind'' [IsEnum handler_kind_values [handler_kind_value Operation]],
     decorated ''handler'' [IsString]]"

definition EffectHandler_properties :: "manifest_property list" where
  "EffectHandler_properties =
    [decorated ''filter''
       [forbidNonWhitelisted [''type'', ''account''], IsObject, IsOptional, Type EffectFilter],
     decorated ''kind'' [IsEnum handler_kind_values [handler_kind_value Effects]],
     decorated ''handler'' [IsString]]"

definition EventHandler_properties :: "manifest_property list" where
  "EventHandler_properties =
    [decorated ''filter''
       [forbidNonWhitelisted [''topics'', ''contractId''], IsOptional, ValidateNested False, Type EventFilter],
     decorated ''kind'' [IsEnum handler_kind_values [handler_kind_value Event]],
     decorated ''handler'' [IsString]]"

definition CustomHandler_properties :: "manifest_property list" where
  "CustomHandler_properties =
    [decorated ''kind'' [IsString],
     decorated ''handler'' [IsString],
     decorated ''filter'' [IsObject, IsOptional]]"

section \<open>Mappings and datasources\<close>

definition StellarMapping_properties :: "manifest_property list" where
  "StellarMapping_properties =
    [decorated ''handlers'' [Transform mapping_handlers, IsArray, ValidateNested False],
     decorated ''file'' [IsString]]"

definition CustomMapping_properties :: "manifest_property list" where
  "CustomMapping_properties =
    [decorated ''handlers'' [IsArray, Type CustomHandler, ValidateNested False],
     decorated ''file'' [IsString]]"

definition StellarProcessorOptions_properties :: "manifest_property list" where
  "StellarProcessorOptions_properties =
    [decorated ''abi'' [IsOptional, IsString],
     decorated ''address'' [IsOptional, IsString]]"

definition RuntimeDataSourceBase_properties :: "manifest_property list" where
  "RuntimeDataSourceBase_properties =
    [decorated ''kind'' [IsEnum [StellarDatasourceKind_Runtime] [StellarDatasourceKind_Runtime]],
     decorated ''mapping'' [Type StellarMapping, ValidateNested False],
     as_map (decorated ''assets'' [IsOptional]),
     decorated ''options'' [IsOptional, ValidateNested False, Type StellarProcessorOptions]]"

definition FileReferenceImpl_properties :: "manifest_property list" where
  "FileReferenceImpl_properties = [decorated ''file'' [IsString]]"

definition CustomDataSourceBase_properties :: "manifest_property list" where
  "CustomDataSourceBase_properties =
    [decorated ''kind'' [IsString],
     decorated ''mapping'' [Type CustomMapping, ValidateNested False],
     with_default VUndefined (decorated ''startBlock'' [IsOptional, IsInt]),
     as_map (decorated ''assets'' [Type FileReferenceImpl, ValidateNested True]),
     decorated ''processor'' [Type (PackageClass ''ProcessorImpl''), IsObject],
     decorated ''options'' [IsOptional, ValidateNested False]]"

section \<open>The manifest of version 1.0.0\<close>

definition Stellar_NODE_NAME :: string where
  "Stellar_NODE_NAME = ''@subql/node-stellar''"

definition StellarRunnerNodeImpl_properties :: "manifest_property list" where
  "StellarRunnerNodeImpl_properties =
    [with_default (VStr Stellar_NODE_NAME)
       (decorated ''name''
         [IsIn [VStr Stellar_NODE_NAME]
           (''Runner Substrate node name incorrect, suppose be '' @ [CHR 0x27] @ Stellar_NODE_NAME @ [CHR 0x27])])]"

definition template_properties :: "manifest_property list" where
  "template_properties = [decorated ''name'' [IsString]]"

definition StellarRunnerSpecsImpl_properties :: "manifest_property list" where
  "StellarRunnerSpecsImpl_properties =
    [decorated ''node'' [IsObject, ValidateNested False, Type StellarRunnerNodeImpl],
     decorated ''query'' [IsObject, ValidateNested False, Type (PackageClass ''RunnerQueryBaseModel'')]]"

definition ProjectNetworkDeploymentV1_0_0_properties :: "manifest_property list" where
  "ProjectNetworkDeploymentV1_0_0_properties =
    [decorated ''chainId'' [IsNotEmpty, Transform trim_chainId, IsString],
     decorated ''bypassBlocks'' [IsOptional, IsArray]]"

definition StellarProjectNetwork_properties :: "manifest_property list" where
  "StellarProjectNetwork_properties = [decorated ''soroban'' [IsString, IsOptional]]"

text \<open>The discriminated \<open>@Type\<close> of datasources and of templates.\<close>

definition datasource_type :: decorator where
  "datasource_type = TypeBy StellarCustomDataSourceImpl ''kind''
     [(''stellar/Runtime'', StellarRuntimeDataSourceImpl)] True"

definition template_type :: decorator where
  "template_type = TypeBy CustomDatasourceTemplateImpl ''kind''
     [(''stellar/Runtime'', RuntimeDatasourceTemplateImpl)] True"

definition DeploymentV1_0_0_properties :: "manifest_property list" where
  "DeploymentV1_0_0_properties =
    [decorated ''network''
       [Transform deployment_network, ValidateNested False, Type ProjectNetworkDeploymentV1_0_0],
     decorated ''runner'' [IsObject, ValidateNested False, Type StellarRunnerSpecsImpl],
     decorated ''dataSources'' [IsArray, ValidateNested False, datasource_type],
     decorated ''templates'' [IsOptional, IsArray, ValidateNested False, template_type]]"

definition ProjectManifestV1_0_0Impl_properties :: "manifest_property list" where
  "ProjectManifestV1_0_0Impl_properties =
    [with_default (VStr ''1.0.0'') (decorated ''specVersion'' [Equals (VStr ''1.0.0'')]),
     decorated ''dataSources'' [datasource_type],
     decorated ''network'' [Type StellarProjectNetwork],
     decorated ''name'' [IsString],
     decorated ''version'' [IsString],
     decorated ''schema'' [ValidateNested False, Type (PackageClass ''FileType'')],
     decorated ''templates'' [IsOptional, IsArray, ValidateNested False, template_type],
     decorated ''runner'' [IsObject, ValidateNested False, Type StellarRunnerSpecsImpl],
     decorated ''parent'' [IsOptional, IsObject, Type (PackageClass ''ParentProjectModel'')]]"

section \<open>Declarations and inheritance\<close>

fun own_properties :: "manifest_class \<Rightarrow> manifest_property list" where
  "own_properties BlockFilter = BlockFilter_properties"
| "own_properties TransactionFilter = TransactionFilter_properties"
| "own_properties OperationFilter = OperationFilter_properties"
| "own_properties EffectFilter = EffectFilter_properties"
| "own_properties EventFilter = EventFilter_properties"
| "own_properties BlockHandler = BlockHandler_properties"
| "own_properties TransactionHandler = TransactionHandler_properties"
| "own_properties SorobanTransactionHandler = SorobanTransactionHandler_properties"
| "own_properties OperationHandler = OperationHandler_properties"
| "own_properties EffectHandler = EffectHandler_properties"
| "own_properties EventHandler = EventHandler_properties"
| "own_properties CustomHandler = CustomHandler_properties"
| "own_properties StellarMapping = StellarMapping_properties"
| "own_properties CustomMapping = CustomMapping_properties"
| "own_properties StellarProcessorOptions = StellarProcessorOptions_properties"
| "own_properties FileReferenceImpl = FileReferenceImpl_properties"
| "own_properties RuntimeDataSourceBase = RuntimeDataSourceBase_properties"
| "own_properties CustomDataSourceBase = CustomDataSourceBase_properties"
| "own_properties StellarRunnerNodeImpl = StellarRunnerNodeImpl_properties"
| "own_properties StellarRunnerSpecsImpl = StellarRunnerSpecsImpl_properties"
| "own_properties StellarRuntimeDataSourceImpl = []"
| "own_properties StellarCustomDataSourceImpl = []"
| "own_properties RuntimeDatasourceTemplateImpl = template_properties"
| "own_properties CustomDatasourceTemplateImpl = template_properties"
| "own_properties ProjectNetworkDeploymentV1_0_0 = ProjectNetworkDeploymentV1_0_0_properties"
| "own_properties StellarProjectNetwork = StellarProjectNetwork_properties"
| "own_properties DeploymentV1_0_0 = DeploymentV1_0_0_properties"
| "own_properties ProjectManifestV1_0_0Impl = ProjectManifestV1_0_0Impl_properties"
| "own_properties (PackageClass n) = []"

text \<open>The \<open>extends\<close> clauses that name a class of the program.\<close>

fun super_class :: "manifest_class \<Rightarrow> manifest_class option" where
  "super_class StellarRuntimeDataSourceImpl = Some RuntimeDataSourceBase"
| "super_class StellarCustomDataSourceImpl = Some CustomDataSourceBase"
| "super_class RuntimeDatasourceTemplateImpl = Some StellarRuntimeDataSourceImpl"
| "super_class CustomDatasourceTemplateImpl = Some StellarCustomDataSourceImpl"
| "super_class _ = None"

text \<open>Classes whose ancestors include a class of another package\<close>

fun extends_package :: "manifest_class \<Rightarrow> bool" where
  "extends_package RuntimeDataSourceBase = True"
| "extends_package CustomDataSourceBase = True"
| "extends_package StellarRuntimeDataSourceImpl = True"
| "extends_package StellarCustomDataSourceImpl = True"
| "extends_package RuntimeDatasourceTemplateImpl = True"
| "extends_package CustomDatasourceTemplateImpl = True"
| "extends_package StellarRunnerNodeImpl = True"
| "extends_package StellarProjectNetwork = True"
| "extends_package DeploymentV1_0_0 = True"
| "extends_package ProjectManifestV1_0_0Impl = True"
| "extends_package (PackageClass n) = True"
| "extends_package _ = False"

fun inheritance_depth :: "manifest_class \<Rightarrow> nat" where
  "inheritance_depth StellarRuntimeDataSourceImpl = 1"
| "inheritance_depth StellarCustomDataSourceImpl = 1"
| "inheritance_depth RuntimeDatasourceTemplateImpl = 2"
| "inheritance_depth CustomDatasourceTemplateImpl = 2"
| "inheritance_depth _ = 0"

lemma super_class_depth: "super_class C = Some D \<Longrightarrow> inheritance_depth D < inheritance_depth C"
  by (cases C rule: super_class.cases) auto

text \<open>The properties of an instance: the class's own and those it inherits.\<close>

function class_properties :: "manifest_class \<Rightarrow> manifest_property list" where
  "class_properties C =
     own_properties C @ (case super_class C of None \<Rightarrow> [] | Some D \<Rightarrow> class_properties D)"
  by pat_completeness auto
termination
  by (relation "measure inheritance_depth") (auto dest: super_class_depth)

declare class_properties.simps [simp del]

lemmas class_property_defs = BlockFilter_properties_def TransactionFilter_properties_def
  OperationFilter_properties_def EffectFilter_properties_def EventFilter_properties_def
  BlockHandler_properties_def TransactionHandler_properties_def
  SorobanTransactionHandler_properties_def OperationHandler_properties_def
  EffectHandler_properties_def EventHandler_properties_def CustomHandler_properties_def
  StellarMapping_properties_def CustomMapping_properties_def StellarProcessorOptions_properties_def
  RuntimeDataSourceBase_properties_def FileReferenceImpl_properties_def
  CustomDataSourceBase_properties_def StellarRunnerNodeImpl_properties_def template_properties_def
  StellarRunnerSpecsImpl_properties_def ProjectNetworkDeploymentV1_0_0_properties_def
  StellarProjectNetwork_properties_def DeploymentV1_0_0_properties_def
  ProjectManifestV1_0_0Impl_properties_def datasource_type_def template_type_def

lemmas property_simps = decorated_def with_default_def as_map_def

text \<open>No class declares a property twice, nor redeclares an inherited one.\<close>

lemma distinct_class_properties: "distinct (map prop_name (class_properties C))"
  by (cases C) (simp_all add: class_properties.simps class_property_defs property_simps)

end
