(* ===== verification/Manifest_Packages.thy ===== *)
theory Manifest_Packages
  imports Manifest_Classes Js_Text
begin

text \<open>
  The code of the manifest classes, and what it relies on in the packages that read the
  declarations.

  \<^item> The functions given to \<open>@Transform\<close> in \<open>models.ts\<close> and \<open>v1_0_0/model.ts\<close>: the handlers of a
    mapping become instances of the class of their kind, the chain id of a network is trimmed, and
    a genesis hash stands in for a missing chain id.
  \<^item> The locale \<open>class_packages\<close>: the documented meaning of the decorators for class-transformer
    (\<open>plainToClass\<close>) and class-validator (\<open>validateSync\<close>), as laws of two functions that are
    parameters everywhere.
  \<^item> A pair of functions that obeys the laws, for the interpretation and the examples.
\<close>

section \<open>Values in expressions\<close>

text \<open>
  \<open>v.n\<close> for the names the code reads (\<open>kind\<close>, \<open>specVersion\<close>, \<open>chainId\<close>, \<open>genesisHash\<close>, \<open>schema\<close>,
  \<open>file\<close>, \<dots>); strings, numbers, booleans and arrays have no such property.
\<close>

definition no_property_of :: "string \<Rightarrow> string \<Rightarrow> js_error" where
  "no_property_of v n = TypeError (''Cannot read properties of '' @ v @ '' (reading '' @ [CHR 0x27] @ n @ [CHR 0x27] @ '')'')"

fun get_property :: "manifest_value \<Rightarrow> string \<Rightarrow> manifest_value result" where
  "get_property VUndefined n = Inl (no_property_of ''undefined'' n)"
| "get_property VNull n = Inl (no_property_of ''null'' n)"
| "get_property (VObj c fs) n = Inr (field fs n)"
| "get_property v n = Inr VUndefined"

text \<open>\<open>v.n = w\<close> on the properties of an object.\<close>

fun set_field :: "string \<Rightarrow> manifest_value \<Rightarrow> (string \<times> manifest_value) list \<Rightarrow> (string \<times> manifest_value) list" where
  "set_field n w [] = [(n, w)]"
| "set_field n w ((k, v) # fs) = (if k = n then (k, w) # fs else (k, v) # set_field n w fs)"

lemma map_of_set_field [simp]: "map_of (set_field n w fs) = (map_of fs)(n \<mapsto> w)"
  by (induction n w fs rule: set_field.induct) auto

lemma field_set_field [simp]: "field (set_field n w fs) m = (if m = n then w else field fs m)"
  by (simp add: field_def)

fun truthy :: "manifest_value \<Rightarrow> bool" where
  "truthy VUndefined = False"
| "truthy VNull = False"
| "truthy (VBool b) = b"
| "truthy (VNum i) = (i \<noteq> 0)"
| "truthy (VFrac t) = (t \<noteq> ''NaN'')"
| "truthy (VStr s) = (s \<noteq> [])"
| "truthy (VArr vs) = True"
| "truthy (VObj c fs) = True"

text \<open>
  A value as text, in a template literal and as a property key. An array joins its elements with
  commas, an object has the text of \<open>Object.prototype.toString\<close>, and a manifest that defines its
  own \<open>toString\<close>, which cannot be a function, makes the conversion throw.
\<close>

fun join_comma :: "string list \<Rightarrow> string" where
  "join_comma [] = []"
| "join_comma [s] = s"
| "join_comma (s # t # ss) = s @ '','' @ join_comma (t # ss)"

fun to_text :: "manifest_value \<Rightarrow> string result"
and element_text :: "manifest_value \<Rightarrow> string result"
where
  "to_text VUndefined = Inr ''undefined''"
| "to_text VNull = Inr ''null''"
| "to_text (VBool b) = Inr (if b then ''true'' else ''false'')"
| "to_text (VNum i) = Inr (int_string i)"
| "to_text (VFrac t) = Inr t"
| "to_text (VStr s) = Inr s"
| "to_text (VArr vs) = map_sum id join_comma (traverse element_text vs)"
| "to_text (VObj c fs) =
     (if map_of fs ''toString'' \<noteq> None then Inl (TypeError ''Cannot convert object to primitive value'')
      else Inr ''[object Object]'')"
| "element_text VUndefined = Inr []"
| "element_text VNull = Inr []"
| "element_text v = to_text v"

section \<open>The functions given to Transform\<close>

type_synonym plain_to_class = "manifest_class \<Rightarrow> manifest_value \<Rightarrow> manifest_value result"

text \<open>\<open>StellarMapping.handlers\<close>: one handler, and the whole array.\<close>

definition handler_to_class :: "plain_to_class \<Rightarrow> manifest_value \<Rightarrow> manifest_value result" where
  "handler_to_class plainToClass handler =
     bind_result (get_property handler ''kind'') (\<lambda>kind.
       if kind = VStr (handler_kind_value Block) then plainToClass BlockHandler handler
       else if kind = VStr (handler_kind_value Transaction) then plainToClass TransactionHandler handler
       else if kind = VStr (handler_kind_value SorobanTransaction)
         then plainToClass SorobanTransactionHandler handler
       else if kind = VStr (handler_kind_value Operation) then plainToClass OperationHandler handler
       else if kind = VStr (handler_kind_value Effects) then plainToClass EffectHandler handler
       else if kind = VStr (handler_kind_value Event) then plainToClass EventHandler handler
       else bind_result (to_text kind) (\<lambda>t. Inl (Error (''handler '' @ t @ '' not supported''))))"

fun transform_handlers :: "plain_to_class \<Rightarrow> manifest_value \<Rightarrow> manifest_value result" where
  "transform_handlers plainToClass VUndefined = Inl (no_property_of ''undefined'' ''map'')"
| "transform_handlers plainToClass VNull = Inl (no_property_of ''null'' ''map'')"
| "transform_handlers plainToClass (VArr handlers) =
     map_sum id VArr (traverse (handler_to_class plainToClass) handlers)"
| "transform_handlers plainToClass v = Inl (TypeError ''handlers.map is not a function'')"

text \<open>\<open>ProjectNetworkDeploymentV1_0_0.chainId\<close>\<close>

fun transform_chainId :: "manifest_value \<Rightarrow> manifest_value result" where
  "transform_chainId (VStr s) = Inr (VStr (trim s))"
| "transform_chainId VUndefined = Inl (no_property_of ''undefined'' ''trim'')"
| "transform_chainId VNull = Inl (no_property_of ''null'' ''trim'')"
| "transform_chainId v = Inl (TypeError ''value.trim is not a function'')"

text \<open>\<open>DeploymentV1_0_0.network\<close>: the object is updated, then made an instance.\<close>

definition adopt_genesisHash :: "manifest_value \<Rightarrow> manifest_value result" where
  "adopt_genesisHash value =
     bind_result (get_property value ''genesisHash'') (\<lambda>genesisHash.
     bind_result (get_property value ''chainId'') (\<lambda>chainId.
       Inr (if truthy genesisHash \<and> \<not> truthy chainId
            then (case value of VObj c fs \<Rightarrow> VObj c (set_field ''chainId'' genesisHash fs) | v \<Rightarrow> v)
            else value)))"

definition transform_network :: "plain_to_class \<Rightarrow> manifest_value \<Rightarrow> manifest_value result" where
  "transform_network plainToClass value =
     bind_result (adopt_genesisHash value) (plainToClass ProjectNetworkDeploymentV1_0_0)"

fun run_transform :: "plain_to_class \<Rightarrow> transform_function \<Rightarrow> manifest_value \<Rightarrow> manifest_value result" where
  "run_transform plainToClass mapping_handlers = transform_handlers plainToClass"
| "run_transform plainToClass trim_chainId = transform_chainId"
| "run_transform plainToClass deployment_network = transform_network plainToClass"

text \<open>The class of a handler is determined by its kind.\<close>

fun handler_class :: "StellarHandlerKind \<Rightarrow> manifest_class" where
  "handler_class Block = BlockHandler"
| "handler_class Transaction = TransactionHandler"
| "handler_class SorobanTransaction = SorobanTransactionHandler"
| "handler_class Operation = OperationHandler"
| "handler_class Effects = EffectHandler"
| "handler_class Event = EventHandler"

text \<open>
  The filter a kind of handler takes: the class that implements the interface of
  \<open>StellarRuntimeFilterMap\<close>. The handler classes of the manifest declare the same, and reject exactly
  the fields the filter does not have.
\<close>

fun StellarRuntimeFilterMap :: "StellarHandlerKind \<Rightarrow> manifest_class" where
  "StellarRuntimeFilterMap Block = BlockFilter"
| "StellarRuntimeFilterMap Transaction = TransactionFilter"
| "StellarRuntimeFilterMap SorobanTransaction = TransactionFilter"
| "StellarRuntimeFilterMap Effects = EffectFilter"
| "StellarRuntimeFilterMap Operation = OperationFilter"
| "StellarRuntimeFilterMap Event = EventFilter"

lemma handlers_declare_filters:
  "\<exists>p\<in>set (own_properties (handler_class k)). prop_name p = ''filter'' \<and>
     Type (StellarRuntimeFilterMap k) \<in> set (prop_decorators p) \<and>
     (\<forall>names. forbidNonWhitelisted names \<in> set (prop_decorators p) \<longrightarrow>
        set names = set (map prop_name (own_properties (StellarRuntimeFilterMap k))))"
  by (cases k)
    (auto simp: decorated_def BlockHandler_properties_def TransactionHandler_properties_def
      SorobanTransactionHandler_properties_def OperationHandler_properties_def EffectHandler_properties_def
      EventHandler_properties_def BlockFilter_properties_def TransactionFilter_properties_def
      OperationFilter_properties_def EffectFilter_properties_def EventFilter_properties_def)

lemma handler_to_class_kind [simp]:
  "field fs ''kind'' = VStr (handler_kind_value k) \<Longrightarrow>
   handler_to_class ptc (VObj c fs) = ptc (handler_class k) (VObj c fs)"
  by (cases k) (simp_all add: handler_to_class_def)

lemma handler_to_class_unsupported:
  assumes "\<And>k. field fs ''kind'' \<noteq> VStr (handler_kind_value k)"
  shows "handler_to_class ptc (VObj c fs) =
    bind_result (to_text (field fs ''kind'')) (\<lambda>t. Inl (Error (''handler '' @ t @ '' not supported'')))"
  using assms [of Block] assms [of Transaction] assms [of SorobanTransaction]
    assms [of Operation] assms [of Effects] assms [of Event]
  by (simp add: handler_to_class_def del: handler_kind_value.simps)

lemma handler_to_class_Inr:
  assumes "handler_to_class ptc h = Inr w"
  shows "\<exists>c fs k. h = VObj c fs \<and> field fs ''kind'' = VStr (handler_kind_value k) \<and>
    ptc (handler_class k) h = Inr w"
proof -
  obtain c fs where h: "h = VObj c fs"
    using assms by (cases h) (simp_all add: handler_to_class_def)
  obtain k where "field fs ''kind'' = VStr (handler_kind_value k)"
  proof (cases "\<exists>k. field fs ''kind'' = VStr (handler_kind_value k)")
    case False
    then have "handler_to_class ptc h =
      bind_result (to_text (field fs ''kind'')) (\<lambda>t. Inl (Error (''handler '' @ t @ '' not supported'')))"
      by (simp only: h) (rule handler_to_class_unsupported, blast)
    then show ?thesis using assms by (cases "to_text (field fs ''kind'')") simp_all
  qed blast
  then show ?thesis using assms h by auto
qed

section \<open>What the packages do with the declarations\<close>

text \<open>
  class-transformer. A property with \<open>@Type\<close> has its objects, also those in arrays, made instances
  of the class named, or of the sub-type whose name is the value of the discriminating property;
  a \<open>@Transform\<close> function is then applied to the value. A property without either keeps its value.
\<close>

definition sub_type :: "manifest_class \<Rightarrow> string \<Rightarrow> (string \<times> manifest_class) list \<Rightarrow> manifest_value \<Rightarrow> manifest_class" where
  "sub_type C discriminator subTypes v = (case v of
       VObj c fs \<Rightarrow> (case field fs discriminator of
           VStr s \<Rightarrow> (case map_of subTypes s of Some D \<Rightarrow> D | None \<Rightarrow> C)
         | _ \<Rightarrow> C)
     | _ \<Rightarrow> C)"

fun transform_typed :: "plain_to_class \<Rightarrow> (manifest_value \<Rightarrow> manifest_class) \<Rightarrow> manifest_value \<Rightarrow> manifest_value result" where
  "transform_typed ptc type (VArr vs) = map_sum id VArr (traverse (transform_typed ptc type) vs)"
| "transform_typed ptc type (VObj c fs) = ptc (type (VObj c fs)) (VObj c fs)"
| "transform_typed ptc type v = Inr v"

fun declared_type :: "decorator list \<Rightarrow> (manifest_value \<Rightarrow> manifest_class) option" where
  "declared_type [] = None"
| "declared_type (Type C # ds) = Some (\<lambda>v. C)"
| "declared_type (TypeBy C discriminator subTypes keep # ds) = Some (sub_type C discriminator subTypes)"
| "declared_type (d # ds) = declared_type ds"

fun declared_transform :: "decorator list \<Rightarrow> transform_function option" where
  "declared_transform [] = None"
| "declared_transform (Transform t # ds) = Some t"
| "declared_transform (d # ds) = declared_transform ds"

definition transform_property :: "plain_to_class \<Rightarrow> decorator list \<Rightarrow> manifest_value \<Rightarrow> manifest_value result" where
  "transform_property ptc ds v =
     bind_result (case declared_type ds of None \<Rightarrow> Inr v | Some type \<Rightarrow> transform_typed ptc type v) (\<lambda>w.
       case declared_transform ds of None \<Rightarrow> Inr w | Some t \<Rightarrow> run_transform ptc t w)"

text \<open>
  class-validator. \<open>validateSync\<close> returns the messages of the decorators that fail; \<open>@IsOptional\<close>
  ignores all of them on an absent value, and \<open>@ValidateNested\<close> validates an instance, or each
  instance of an array. Nothing is relied upon for the check of \<open>forbidNonWhitelisted\<close>, which is
  of the package \<open>@subql/common\<close>, nor for nested objects that are not instances.
\<close>

definition absent :: "manifest_value \<Rightarrow> bool" where
  "absent v = (v = VUndefined \<or> v = VNull)"

fun nested_element_ok :: "(manifest_value \<Rightarrow> bool) \<Rightarrow> manifest_value \<Rightarrow> bool" where
  "nested_element_ok valid (VObj (Some C) fs) = valid (VObj (Some C) fs)"
| "nested_element_ok valid (VObj None fs) = True"
| "nested_element_ok valid (VArr vs) = True"
| "nested_element_ok valid v = False"

fun nested_ok :: "(manifest_value \<Rightarrow> bool) \<Rightarrow> manifest_value \<Rightarrow> bool" where
  "nested_ok valid (VArr vs) = list_all (nested_element_ok valid) vs"
| "nested_ok valid VUndefined = True"
| "nested_ok valid VNull = True"
| "nested_ok valid v = nested_element_ok valid v"

fun decorator_ok :: "(manifest_value \<Rightarrow> bool) \<Rightarrow> decorator \<Rightarrow> manifest_value \<Rightarrow> bool" where
  "decorator_ok valid IsString v = (case v of VStr s \<Rightarrow> True | _ \<Rightarrow> False)"
| "decorator_ok valid IsInt v = (case v of VNum i \<Rightarrow> True | _ \<Rightarrow> False)"
| "decorator_ok valid IsArray v = (case v of VArr vs \<Rightarrow> True | _ \<Rightarrow> False)"
| "decorator_ok valid IsObject v = (case v of VObj c fs \<Rightarrow> True | _ \<Rightarrow> False)"
| "decorator_ok valid IsNotEmpty v = (\<not> absent v \<and> v \<noteq> VStr [])"
| "decorator_ok valid (IsEnum values groups) v = (v \<in> set (map VStr values))"
| "decorator_ok valid (IsIn values msg) v = (v \<in> set values)"
| "decorator_ok valid (Equals w) v = (v = w)"
| "decorator_ok valid (ValidateNested each) v = nested_ok valid v"
| "decorator_ok valid d v = True"

definition property_ok :: "(manifest_value \<Rightarrow> bool) \<Rightarrow> decorator list \<Rightarrow> manifest_value \<Rightarrow> bool" where
  "property_ok valid ds v =
     (IsOptional \<in> set ds \<and> absent v \<or> list_all (\<lambda>d. decorator_ok valid d v) ds)"

text \<open>
  The laws. An absent property of an instance has the initial value of its declaration, and
  properties that are not declared are copied.
\<close>

locale class_packages =
  fixes plainToClass :: plain_to_class
    and validateSync :: "manifest_value \<Rightarrow> string list"
  assumes instance_made: "plainToClass C (VObj c kvs) = Inr w \<Longrightarrow>
      \<exists>fs. w = VObj (Some C) fs \<and>
        (\<forall>p\<in>set (class_properties C). \<not> prop_is_map p \<longrightarrow>
           (case map_of kvs (prop_name p) of
              None \<Rightarrow> field fs (prop_name p) = prop_default p
            | Some v \<Rightarrow> transform_property plainToClass (prop_decorators p) v = Inr (field fs (prop_name p))))"
    and undeclared_copied: "plainToClass C (VObj c kvs) = Inr (VObj (Some C) fs) \<Longrightarrow> \<not> extends_package C \<Longrightarrow>
      n \<notin> prop_name ` set (class_properties C) \<Longrightarrow> field fs n = field kvs n"
    and validated: "validateSync (VObj (Some C) fs) = [] \<Longrightarrow>
      \<forall>p\<in>set (class_properties C). \<not> prop_is_map p \<longrightarrow>
        property_ok (\<lambda>v. validateSync v = []) (prop_decorators p) (field fs (prop_name p))"
begin

abbreviation valid :: "manifest_value \<Rightarrow> bool" where
  "valid v \<equiv> validateSync v = []"

lemma instance_class: "plainToClass C (VObj c kvs) = Inr w \<Longrightarrow> \<exists>fs. w = VObj (Some C) fs"
  using instance_made by blast

lemma instance_field:
  assumes "plainToClass C (VObj c kvs) = Inr (VObj (Some C) fs)"
    and "p \<in> set (class_properties C)" "\<not> prop_is_map p" "map_of kvs (prop_name p) = Some v"
  shows "transform_property plainToClass (prop_decorators p) v = Inr (field fs (prop_name p))"
  using instance_made [OF assms(1)] assms(2-4) by fastforce

lemma instance_default:
  assumes "plainToClass C (VObj c kvs) = Inr (VObj (Some C) fs)"
    and "p \<in> set (class_properties C)" "\<not> prop_is_map p" "map_of kvs (prop_name p) = None"
  shows "field fs (prop_name p) = prop_default p"
  using instance_made [OF assms(1)] assms(2-4) by fastforce

lemma valid_property:
  "valid (VObj (Some C) fs) \<Longrightarrow> p \<in> set (class_properties C) \<Longrightarrow> \<not> prop_is_map p \<Longrightarrow>
   property_ok valid (prop_decorators p) (field fs (prop_name p))"
  using validated by blast

end

section \<open>A pair of functions that obeys the laws\<close>

text \<open>
  Making an instance refers to classes below the one being made; \<open>class_rank\<close> bounds the depth,
  and five levels are enough.
\<close>

fun class_rank :: "manifest_class \<Rightarrow> nat" where
  "class_rank BlockHandler = 1"
| "class_rank TransactionHandler = 1"
| "class_rank SorobanTransactionHandler = 1"
| "class_rank OperationHandler = 1"
| "class_rank EffectHandler = 1"
| "class_rank EventHandler = 1"
| "class_rank StellarMapping = 2"
| "class_rank CustomMapping = 2"
| "class_rank RuntimeDataSourceBase = 3"
| "class_rank CustomDataSourceBase = 3"
| "class_rank StellarRunnerSpecsImpl = 1"
| "class_rank StellarRuntimeDataSourceImpl = 3"
| "class_rank StellarCustomDataSourceImpl = 3"
| "class_rank RuntimeDatasourceTemplateImpl = 3"
| "class_rank CustomDatasourceTemplateImpl = 3"
| "class_rank DeploymentV1_0_0 = 4"
| "class_rank ProjectManifestV1_0_0Impl = 4"
| "class_rank _ = 0"

definition transform_entry :: "plain_to_class \<Rightarrow> manifest_class \<Rightarrow> string \<Rightarrow> manifest_value \<Rightarrow> manifest_value result" where
  "transform_entry ptc C n v = (case find (\<lambda>p. prop_name p = n) (class_properties C) of
       None \<Rightarrow> Inr v
     | Some p \<Rightarrow> (if prop_is_map p then Inr v else transform_property ptc (prop_decorators p) v))"

text \<open>A class field is an own property of each instance, also when it is \<open>undefined\<close>.\<close>

definition missing_defaults :: "manifest_class \<Rightarrow> (string \<times> manifest_value) list \<Rightarrow> (string \<times> manifest_value) list" where
  "missing_defaults C kvs =
     map (\<lambda>p. (prop_name p, prop_default p)) (filter (\<lambda>p. map_of kvs (prop_name p) = None) (class_properties C))"

fun make_instance :: "plain_to_class \<Rightarrow> plain_to_class" where
  "make_instance ptc C (VObj c kvs) =
     map_sum id (\<lambda>fs. VObj (Some C) (fs @ missing_defaults C kvs)) (traverse (keyed (transform_entry ptc C)) kvs)"
| "make_instance ptc C v = Inr v"

primrec make_levels :: "nat \<Rightarrow> plain_to_class" where
  "make_levels 0 = (\<lambda>C v. Inr v)"
| "make_levels (Suc n) = make_instance (make_levels n)"

definition reference_plainToClass :: plain_to_class where
  "reference_plainToClass = make_levels 5"

text \<open>Classes a declaration refers to.\<close>

fun referred_classes :: "decorator \<Rightarrow> manifest_class list" where
  "referred_classes (Type C) = [C]"
| "referred_classes (TypeBy C discriminator subTypes keep) = C # map snd subTypes"
| "referred_classes (Transform mapping_handlers) = map handler_class Enum.enum"
| "referred_classes (Transform deployment_network) = [ProjectNetworkDeploymentV1_0_0]"
| "referred_classes d = []"

lemma referred_ranks:
  "p \<in> set (class_properties C) \<Longrightarrow> d \<in> set (prop_decorators p) \<Longrightarrow> D \<in> set (referred_classes d) \<Longrightarrow>
   class_rank D < class_rank C"
  by (cases C) (auto simp: class_properties.simps class_property_defs property_simps enum_StellarHandlerKind_def)

lemma transform_typed_cong:
  "(\<And>v. f (type v) = g (type v)) \<Longrightarrow> transform_typed f type v = transform_typed g type v"
  by (induction f type v rule: transform_typed.induct) (auto cong: traverse_cong)

lemma sub_type_in: "sub_type C discriminator subTypes v \<in> set (C # map snd subTypes)"
proof -
  have "D \<in> snd ` set subTypes" if "map_of subTypes s = Some D" for s D
    using map_of_SomeD [OF that] by force
  then show ?thesis by (auto simp: sub_type_def split: manifest_value.split option.split)
qed

lemma declared_type_classes:
  "declared_type ds = Some type \<Longrightarrow> \<exists>d\<in>set ds. type v \<in> set (referred_classes d)"
proof (induction ds rule: declared_type.induct)
  case (3 C discriminator subTypes keep ds)
  then show ?case using sub_type_in [of C discriminator subTypes v] by simp
qed auto

lemma declared_transform_in: "declared_transform ds = Some t \<Longrightarrow> Transform t \<in> set ds"
  by (induction ds rule: declared_transform.induct) auto

lemma handler_to_class_cong:
  assumes "\<And>k. f (handler_class k) = g (handler_class k)"
  shows "handler_to_class f h = handler_to_class g h"
proof -
  note fg = assms [of Block] assms [of Transaction] assms [of SorobanTransaction]
    assms [of Operation] assms [of Effects] assms [of Event]
  show ?thesis unfolding handler_to_class_def using fg [simplified handler_class.simps] by (simp only:)
qed

lemma run_transform_cong:
  assumes "\<And>D. D \<in> set (referred_classes (Transform t)) \<Longrightarrow> f D = g D"
  shows "run_transform f t v = run_transform g t v"
proof (cases t)
  case mapping_handlers
  have "handler_to_class f = handler_to_class g"
    using assms unfolding mapping_handlers
    by (intro ext handler_to_class_cong) (simp add: UNIV_enum [symmetric])
  then have "transform_handlers f v = transform_handlers g v" by (cases v) simp_all
  then show ?thesis using mapping_handlers by simp
next
  case deployment_network
  then show ?thesis using assms by (simp add: transform_network_def)
qed simp

lemma transform_property_cong:
  assumes "\<And>d D. d \<in> set ds \<Longrightarrow> D \<in> set (referred_classes d) \<Longrightarrow> f D = g D"
  shows "transform_property f ds v = transform_property g ds v"
proof -
  have "transform_typed f type w = transform_typed g type w" if "declared_type ds = Some type" for type w
    using declared_type_classes [OF that] assms by (intro transform_typed_cong) blast
  moreover have "run_transform f t w = run_transform g t w" if "declared_transform ds = Some t" for t w
    using declared_transform_in [OF that] assms by (intro run_transform_cong) blast
  ultimately show ?thesis
    by (auto simp: transform_property_def split: option.splits intro!: bind_result_cong)
qed

lemma make_instance_cong:
  assumes "\<And>D. class_rank D < class_rank C \<Longrightarrow> f D = g D"
  shows "make_instance f C = make_instance g C"
proof -
  have "transform_entry f C n v = transform_entry g C n v" for n v
  proof -
    have "transform_property f (prop_decorators p) v = transform_property g (prop_decorators p) v"
      if "p \<in> set (class_properties C)" for p
      using referred_ranks [OF that] assms by (intro transform_property_cong) blast
    moreover have "p \<in> set (class_properties C)" if "find (\<lambda>p. prop_name p = n) (class_properties C) = Some p" for p
      using that by (auto simp: find_Some_iff)
    ultimately show ?thesis by (auto simp: transform_entry_def split: option.split)
  qed
  then have "transform_entry f C = transform_entry g C" by blast
  then have "make_instance f C v = make_instance g C v" for v by (cases v) simp_all
  then show ?thesis by blast
qed

lemma make_levels_stable:
  "class_rank C < n \<Longrightarrow> make_levels (Suc n) C = make_levels n C"
proof (induction n arbitrary: C)
  case (Suc n)
  then have "make_instance (make_levels (Suc n)) C = make_instance (make_levels n) C"
    by (intro make_instance_cong) simp
  then show ?case by simp
qed simp

lemma class_rank_le: "class_rank C \<le> 4"
  by (cases C) simp_all

lemma reference_unfold: "reference_plainToClass C v = make_instance reference_plainToClass C v"
proof -
  have "make_levels (Suc 5) C = make_levels 5 C"
    using class_rank_le [of C] by (intro make_levels_stable) simp
  then show ?thesis by (simp only: reference_plainToClass_def make_levels.simps(2) [symmetric])
qed

text \<open>
  A validator that checks exactly the decorators, by recursion on the value: it is called on the
  instances that \<open>nested_parts\<close> of a property holds.
\<close>

fun nested_parts :: "manifest_value \<Rightarrow> manifest_value set" where
  "nested_parts (VArr vs) = set vs"
| "nested_parts v = {v}"

lemma property_ok_cong [fundef_cong]:
  assumes "ds = ds'" "v = v'" "\<And>C fs. VObj (Some C) fs \<in> nested_parts v' \<Longrightarrow> f (VObj (Some C) fs) = g (VObj (Some C) fs)"
  shows "property_ok f ds v = property_ok g ds' v'"
proof -
  have element: "nested_element_ok f w = nested_element_ok g w" if "w \<in> nested_parts v'" for w
    using that assms(3) by (cases "(f, w)" rule: nested_element_ok.cases) auto
  have "nested_ok f v' = nested_ok g v'"
    using element by (cases "(f, v')" rule: nested_ok.cases) (auto simp: list_all_iff)
  then have "decorator_ok f d v' = decorator_ok g d v'" for d
    by (cases d) simp_all
  then show ?thesis using assms(1,2) by (simp add: property_ok_def)
qed

lemma nested_parts_size:
  assumes "VObj (Some D) gs \<in> nested_parts (field fs n)"
  shows "size (VObj (Some D) gs) < size (VObj c fs)"
proof -
  obtain v where v: "map_of fs n = Some v" "VObj (Some D) gs \<in> nested_parts v"
    using assms by (auto simp: field_def split: option.splits)
  have "size (VObj (Some D) gs) \<le> size v"
    using v(2) by (cases v) (auto dest: size_list_estimation' [OF _ order_refl, where f = size])
  moreover have "size v \<le> size_list (size_prod (\<lambda>x. 0) size) fs"
    using map_of_SomeD [OF v(1)] by (intro size_list_estimation') auto
  ultimately show ?thesis by simp
qed

function reference_valid :: "manifest_value \<Rightarrow> bool" where
  "reference_valid v = (case v of
       VObj (Some C) fs \<Rightarrow> list_all (\<lambda>p. prop_is_map p \<or>
         property_ok reference_valid (prop_decorators p) (field fs (prop_name p))) (class_properties C)
     | _ \<Rightarrow> True)"
  by pat_completeness auto
termination
  by (relation "measure size") (use nested_parts_size in \<open>auto simp del: manifest_value.size\<close>)

declare reference_valid.simps [simp del]

definition reference_validateSync :: "manifest_value \<Rightarrow> string list" where
  "reference_validateSync v = (if reference_valid v then [] else [''validation failed''])"

lemma reference_validateSync_Nil [simp]: "(reference_validateSync v = []) = reference_valid v"
  by (simp add: reference_validateSync_def)

lemma find_key: "distinct (map f xs) \<Longrightarrow> x \<in> set xs \<Longrightarrow> find (\<lambda>y. f y = f x) xs = Some x"
  by (induction xs) auto

lemmas find_property = find_key [OF distinct_class_properties]

lemma map_of_keys: "distinct (map f xs) \<Longrightarrow> x \<in> set xs \<Longrightarrow> map_of (map (\<lambda>y. (f y, g y)) xs) (f x) = Some (g x)"
  by (induction xs) (auto simp: image_iff)

lemma map_of_missing_defaults:
  assumes "p \<in> set (class_properties C)" "map_of kvs (prop_name p) = None"
  shows "map_of (missing_defaults C kvs) (prop_name p) = Some (prop_default p)"
  unfolding missing_defaults_def
  using assms distinct_class_properties [of C] by (intro map_of_keys) (simp_all add: distinct_map_filter)

lemma reference_made:
  assumes "reference_plainToClass C (VObj c kvs) = Inr w"
  shows "\<exists>fs. traverse (keyed (transform_entry reference_plainToClass C)) kvs = Inr fs \<and>
    w = VObj (Some C) (fs @ missing_defaults C kvs)"
  using assms by (auto simp: reference_unfold [of C "VObj c kvs"] returns)

interpretation reference_packages: class_packages reference_plainToClass reference_validateSync
proof
  show "\<exists>fs. w = VObj (Some C) fs \<and>
        (\<forall>p\<in>set (class_properties C). \<not> prop_is_map p \<longrightarrow>
           (case map_of kvs (prop_name p) of
              None \<Rightarrow> field fs (prop_name p) = prop_default p
            | Some v \<Rightarrow> transform_property reference_plainToClass (prop_decorators p) v = Inr (field fs (prop_name p))))"
    if made: "reference_plainToClass C (VObj c kvs) = Inr w" for C c kvs w
  proof -
    obtain fs where fs: "traverse (keyed (transform_entry reference_plainToClass C)) kvs = Inr fs"
        and w: "w = VObj (Some C) (fs @ missing_defaults C kvs)"
      using reference_made [OF made] by blast
    have "case map_of kvs (prop_name p) of
        None \<Rightarrow> field (fs @ missing_defaults C kvs) (prop_name p) = prop_default p
      | Some v \<Rightarrow> transform_property reference_plainToClass (prop_decorators p) v =
          Inr (field (fs @ missing_defaults C kvs) (prop_name p))"
      if "p \<in> set (class_properties C)" "\<not> prop_is_map p" for p
      using map_of_traverse_keyed [OF fs, of "prop_name p"] that find_property [OF that(1)]
        map_of_missing_defaults [OF that(1)]
      by (auto simp: field_def transform_entry_def map_add_def split: option.splits)
    then show ?thesis using w by blast
  qed
  show "field fs n = field kvs n"
    if made: "reference_plainToClass C (VObj c kvs) = Inr (VObj (Some C) fs)"
      and n: "n \<notin> prop_name ` set (class_properties C)" for C c kvs fs n
  proof -
    obtain gs where gs: "traverse (keyed (transform_entry reference_plainToClass C)) kvs = Inr gs"
        "fs = gs @ missing_defaults C kvs"
      using reference_made [OF made] by blast
    have "find (\<lambda>p. prop_name p = n) (class_properties C) = None" using n by (auto simp: find_None_iff)
    moreover have "map_of (missing_defaults C kvs) n = None"
      using n by (auto simp: missing_defaults_def map_of_eq_None_iff)
    ultimately show ?thesis
      using map_of_traverse_keyed [OF gs(1), of n] gs(2)
      by (auto simp: field_def transform_entry_def map_add_def split: option.splits)
  qed
  show "\<forall>p\<in>set (class_properties C). \<not> prop_is_map p \<longrightarrow>
        property_ok (\<lambda>v. reference_validateSync v = []) (prop_decorators p) (field fs (prop_name p))"
    if "reference_validateSync (VObj (Some C) fs) = []" for C fs
    using that by (auto simp: reference_valid.simps [of "VObj (Some C) fs"] list_all_iff)
qed

end
