(* ===== verification/Project_Manifest.thy ===== *)
theory Project_Manifest
  imports Manifest_Packages Project_Utils
begin

text \<open>
  The project manifest as an object: \<open>StellarProjectManifestVersioned\<close>
  (\<open>packages/common-stellar/src/project/versioned/ProjectManifestVersioned.ts\<close>),
  \<open>parseStellarProjectManifest\<close> (\<open>load.ts\<close>), the \<open>validate\<close> methods of the datasource classes
  (\<open>v1_0_0/model.ts\<close>) and \<open>createSubQueryProject\<close> (\<open>packages/node/src/configure/SubqueryProject.ts\<close>).

  The functions of other packages are the fields of \<open>manifest_services\<close>: \<open>plainToClass\<close> on a class
  of the program and on a built-in function, \<open>validateObject\<close> of \<open>@subql/common\<close>, and the methods
  that a manifest inherits from \<open>ProjectManifestBaseImpl\<close>.
\<close>

record manifest_services =
  srv_plainToClass :: plain_to_class
  srv_plainToBuiltin :: "string \<Rightarrow> manifest_value \<Rightarrow> manifest_value result"
  srv_validateObject :: "manifest_value \<Rightarrow> string \<Rightarrow> unit result"
  srv_validateManifest :: "manifest_value \<Rightarrow> unit result"
  srv_deployment :: "manifest_value \<Rightarrow> manifest_value result"
  srv_toYaml :: "manifest_value \<Rightarrow> string result"

section \<open>Datasources validate themselves\<close>

definition validate_runtime_datasource :: "manifest_services \<Rightarrow> manifest_value \<Rightarrow> unit result" where
  "validate_runtime_datasource srv ds = srv_validateObject srv ds ''failed to validate runtime datasource.''"

definition validate_custom_datasource :: "manifest_services \<Rightarrow> manifest_value \<Rightarrow> unit result" where
  "validate_custom_datasource srv ds = srv_validateObject srv ds ''failed to validate custom datasource.''"

section \<open>Versions\<close>

text \<open>
  \<open>SOROBAN_SUPPORTED_VERSIONS[key]\<close>: a property of the object literal, or one it inherits from
  \<open>Object.prototype\<close>, all of which are truthy.
\<close>

datatype version_entry = VersionClass manifest_class | PrototypeMember string

definition SOROBAN_SUPPORTED_VERSIONS :: "(string \<times> manifest_class) list" where
  "SOROBAN_SUPPORTED_VERSIONS = [(''1.0.0'', ProjectManifestV1_0_0Impl)]"

definition Object_prototype :: "string list" where
  "Object_prototype =
    [''constructor'', ''__defineGetter__'', ''__defineSetter__'', ''hasOwnProperty'',
     ''__lookupGetter__'', ''__lookupSetter__'', ''isPrototypeOf'', ''propertyIsEnumerable'',
     ''toString'', ''valueOf'', ''__proto__'', ''toLocaleString'']"

definition lookup_version :: "string \<Rightarrow> version_entry option" where
  "lookup_version key = (case map_of SOROBAN_SUPPORTED_VERSIONS key of
       Some C \<Rightarrow> Some (VersionClass C)
     | None \<Rightarrow> (if key \<in> set Object_prototype then Some (PrototypeMember key) else None))"

text \<open>The function \<open>manifestIsV1_0_0\<close> on any manifest object\<close>

definition manifestIsV1_0_0 :: "manifest_value \<Rightarrow> bool result" where
  "manifestIsV1_0_0 manifest =
     map_sum id (\<lambda>v. v = VStr ''1.0.0'') (get_property manifest ''specVersion'')"

section \<open>StellarProjectManifestVersioned\<close>

record StellarProjectManifestVersioned =
  manifest_impl :: manifest_value

definition version_not_supported :: js_error where
  "version_not_supported = Error ''specVersion not supported for project manifest file''"

definition new_StellarProjectManifestVersioned ::
  "manifest_services \<Rightarrow> manifest_value \<Rightarrow> StellarProjectManifestVersioned result" where
  "new_StellarProjectManifestVersioned srv projectManifest =
     bind_result (get_property projectManifest ''specVersion'') (\<lambda>specVersion.
     bind_result (to_text specVersion) (\<lambda>key.
       case lookup_version key of
         None \<Rightarrow> Inl version_not_supported
       | Some (VersionClass klass) \<Rightarrow>
           map_sum id (\<lambda>impl. \<lparr>manifest_impl = impl\<rparr>) (srv_plainToClass srv klass projectManifest)
       | Some (PrototypeMember m) \<Rightarrow>
           map_sum id (\<lambda>impl. \<lparr>manifest_impl = impl\<rparr>) (srv_plainToBuiltin srv m projectManifest)))"

text \<open>\<open>asImpl\<close> and \<open>asV1_0_0\<close>: the same object, the latter at a narrower type.\<close>

definition asImpl :: "StellarProjectManifestVersioned \<Rightarrow> manifest_value" where
  "asImpl m = manifest_impl m"

definition asV1_0_0 :: "StellarProjectManifestVersioned \<Rightarrow> manifest_value" where
  "asV1_0_0 m = manifest_impl m"

definition manifest_specVersion :: "StellarProjectManifestVersioned \<Rightarrow> manifest_value result" where
  "manifest_specVersion m = get_property (manifest_impl m) ''specVersion''"

definition isV1_0_0 :: "StellarProjectManifestVersioned \<Rightarrow> bool result" where
  "isV1_0_0 m = map_sum id (\<lambda>v. v = VStr ''1.0.0'') (manifest_specVersion m)"

text \<open>Only an instance of a manifest class has the inherited methods.\<close>

fun is_manifest :: "manifest_value \<Rightarrow> bool" where
  "is_manifest (VObj (Some ProjectManifestV1_0_0Impl) fs) = True"
| "is_manifest v = False"

definition toDeployment :: "manifest_services \<Rightarrow> StellarProjectManifestVersioned \<Rightarrow> string result" where
  "toDeployment srv m =
     (if is_manifest (manifest_impl m)
      then bind_result (srv_deployment srv (manifest_impl m)) (srv_toYaml srv)
      else bind_result (get_property (manifest_impl m) ''deployment'') (\<lambda>deployment.
           bind_result (get_property deployment ''toYaml'') (\<lambda>f.
             Inl (TypeError ''this._impl.deployment.toYaml is not a function''))))"

definition validate_manifest :: "manifest_services \<Rightarrow> StellarProjectManifestVersioned \<Rightarrow> unit result" where
  "validate_manifest srv m =
     (if is_manifest (manifest_impl m) then srv_validateManifest srv (manifest_impl m)
      else bind_result (get_property (manifest_impl m) ''validate'') (\<lambda>f.
             Inl (TypeError ''this._impl.validate is not a function'')))"

definition manifest_dataSources :: "StellarProjectManifestVersioned \<Rightarrow> manifest_value result" where
  "manifest_dataSources m = get_property (manifest_impl m) ''dataSources''"

definition manifest_schema :: "StellarProjectManifestVersioned \<Rightarrow> manifest_value result" where
  "manifest_schema m =
     bind_result (get_property (manifest_impl m) ''schema'') (\<lambda>schema. get_property schema ''file'')"

definition manifest_description :: "StellarProjectManifestVersioned \<Rightarrow> manifest_value result" where
  "manifest_description m = get_property (manifest_impl m) ''description''"

definition manifest_repository :: "StellarProjectManifestVersioned \<Rightarrow> manifest_value result" where
  "manifest_repository m = get_property (manifest_impl m) ''repository''"

section \<open>Loading a manifest and creating a project\<close>

definition parseStellarProjectManifest ::
  "manifest_services \<Rightarrow> manifest_value \<Rightarrow> StellarProjectManifestVersioned result" where
  "parseStellarProjectManifest srv raw =
     bind_result (new_StellarProjectManifestVersioned srv raw) (\<lambda>projectManifest.
     bind_result (validate_manifest srv projectManifest) (\<lambda>_.
       Inr projectManifest))"

text \<open>
  \<open>BaseSubqueryProject.create\<close> is of the package \<open>@subql/node-core\<close>; the program supplies its
  options. \<open>'r\<close> is the type of the reader, \<open>'n\<close> that of the network overrides.
\<close>

record ('r, 'n) project_options =
  po_parseManifest :: "manifest_value \<Rightarrow> manifest_value result"
  po_path :: string
  po_rawManifest :: manifest_value
  po_reader :: 'r
  po_root :: string
  po_nodeSemver :: string
  po_blockHandlerKind :: string
  po_networkOverrides :: "'n option"
  po_isRuntimeDs :: "SubqlDatasource \<Rightarrow> bool"
  po_isCustomDs :: "SubqlDatasource \<Rightarrow> bool"

definition createSubQueryProject ::
  "manifest_services \<Rightarrow> (('r, 'n) project_options \<Rightarrow> 'p result) \<Rightarrow> string \<Rightarrow>
   string \<Rightarrow> manifest_value \<Rightarrow> 'r \<Rightarrow> string \<Rightarrow> 'n option \<Rightarrow> 'p result" where
  "createSubQueryProject srv create packageVersion path rawManifest reader root networkOverrides =
     create \<lparr>po_parseManifest = (\<lambda>raw. map_sum id asV1_0_0 (parseStellarProjectManifest srv raw)),
             po_path = path, po_rawManifest = rawManifest, po_reader = reader, po_root = root,
             po_nodeSemver = packageVersion, po_blockHandlerKind = handler_kind_value Block,
             po_networkOverrides = networkOverrides,
             po_isRuntimeDs = isRuntimeDs, po_isCustomDs = isCustomDs\<rparr>"

section \<open>Lemmas\<close>

lemma lookup_version_cases:
  "lookup_version key =
     (if key = ''1.0.0'' then Some (VersionClass ProjectManifestV1_0_0Impl)
      else if key \<in> set Object_prototype then Some (PrototypeMember key) else None)"
  by (simp add: lookup_version_def SOROBAN_SUPPORTED_VERSIONS_def)

lemma is_manifest_iff: "is_manifest v \<longleftrightarrow> (\<exists>fs. v = VObj (Some ProjectManifestV1_0_0Impl) fs)"
  by (cases v rule: is_manifest.cases) auto

lemma validate_manifest_returns [returns]:
  "validate_manifest srv m = Inr u \<longleftrightarrow> is_manifest (manifest_impl m) \<and> srv_validateManifest srv (manifest_impl m) = Inr u"
  by (auto simp: validate_manifest_def returns)

lemma parse_returns:
  "parseStellarProjectManifest srv raw = Inr m \<longleftrightarrow>
   new_StellarProjectManifestVersioned srv raw = Inr m \<and> validate_manifest srv m = Inr ()"
  by (auto simp: parseStellarProjectManifest_def returns)

end
