(* ===== verification/Manifest_Typing.thy ===== *)
theory Manifest_Typing
  imports Project_Manifest
begin

text \<open>
  Validated instances have the types of the TypeScript declarations.

  \<open>conforms_*\<close> is the typing judgement of the declarations: it says which class a value is an
  instance of and which types its properties have. The lemmas of the locale \<open>class_packages\<close> take
  one class at a time, from the inside out: a filter, a handler, the handlers of a mapping, the
  mapping, the datasource.
\<close>

section \<open>Conformance to the declared types\<close>

definition optional_string :: "manifest_value \<Rightarrow> bool" where
  "optional_string v = (absent v \<or> (\<exists>s. v = VStr s))"

fun filter_class :: "StellarHandlerKind \<Rightarrow> manifest_class" where
  "filter_class Block = BlockFilter"
| "filter_class Transaction = TransactionFilter"
| "filter_class SorobanTransaction = TransactionFilter"
| "filter_class Operation = OperationFilter"
| "filter_class Effects = EffectFilter"
| "filter_class Event = EventFilter"

definition conforms_event_filter :: "manifest_value \<Rightarrow> bool" where
  "conforms_event_filter f = (\<exists>gs. f = VObj (Some EventFilter) gs \<and> optional_string (field gs ''contractId'') \<and>
     (absent (field gs ''topics'') \<or> (\<exists>ts. field gs ''topics'' = VArr ts)))"

text \<open>
  The filter of an event handler is validated, those of the other handlers are known to be
  objects only. An event filter may be an array: its property lacks \<open>@IsObject\<close>.
\<close>

definition conforms_filter :: "StellarHandlerKind \<Rightarrow> manifest_value \<Rightarrow> bool" where
  "conforms_filter k f = (absent f \<or>
     (if k = Event then conforms_event_filter f \<or> (\<exists>vs. f = VArr vs)
      else (\<exists>gs. f = VObj (Some (filter_class k)) gs)))"

definition conforms_handler :: "StellarHandlerKind \<Rightarrow> manifest_value \<Rightarrow> bool" where
  "conforms_handler k h = (\<exists>fs. h = VObj (Some (handler_class k)) fs \<and>
     field fs ''kind'' = VStr (handler_kind_value k) \<and> (\<exists>s. field fs ''handler'' = VStr s) \<and>
     conforms_filter k (field fs ''filter''))"

definition conforms_mapping :: "manifest_value \<Rightarrow> bool" where
  "conforms_mapping m = (\<exists>ms file hs. m = VObj (Some StellarMapping) ms \<and> field ms ''file'' = VStr file \<and>
     field ms ''handlers'' = VArr hs \<and> (\<forall>h\<in>set hs. \<exists>k. conforms_handler k h))"

definition conforms_options :: "manifest_value \<Rightarrow> bool" where
  "conforms_options v = (absent v \<or> (\<exists>os. v = VObj (Some StellarProcessorOptions) os \<and>
     optional_string (field os ''abi'') \<and> optional_string (field os ''address'')) \<or> (\<exists>vs. v = VArr vs))"

definition conforms_runtime_datasource :: "manifest_value \<Rightarrow> bool" where
  "conforms_runtime_datasource ds = (\<exists>fs. ds = VObj (Some StellarRuntimeDataSourceImpl) fs \<and>
     field fs ''kind'' = VStr StellarDatasourceKind_Runtime \<and> conforms_mapping (field fs ''mapping'') \<and>
     conforms_options (field fs ''options''))"

definition conforms_custom_handler :: "manifest_value \<Rightarrow> bool" where
  "conforms_custom_handler h = (\<exists>fs kind handler. h = VObj (Some CustomHandler) fs \<and>
     field fs ''kind'' = VStr kind \<and> field fs ''handler'' = VStr handler \<and>
     (absent (field fs ''filter'') \<or> (\<exists>c gs. field fs ''filter'' = VObj c gs)))"

definition conforms_custom_datasource :: "manifest_value \<Rightarrow> bool" where
  "conforms_custom_datasource ds = (\<exists>fs kind ms file hs. ds = VObj (Some StellarCustomDataSourceImpl) fs \<and>
     field fs ''kind'' = VStr kind \<and> field fs ''mapping'' = VObj (Some CustomMapping) ms \<and>
     field ms ''file'' = VStr file \<and> field ms ''handlers'' = VArr hs \<and> (\<forall>h\<in>set hs. conforms_custom_handler h) \<and>
     (absent (field fs ''startBlock'') \<or> (\<exists>i. field fs ''startBlock'' = VNum i)) \<and>
     (\<exists>c ps. field fs ''processor'' = VObj c ps))"

section \<open>Lemmas\<close>

lemma absent_simps [simp]: "absent VUndefined" "absent VNull" "\<not> absent (VStr s)" "\<not> absent (VObj c fs)"
  "\<not> absent (VArr vs)" "\<not> absent (VNum i)"
  by (simp_all add: absent_def)

lemmas decorator_casts = manifest_value.splits

text \<open>The properties declared by each class, one fact per property.\<close>

lemmas declared_in = class_properties.simps class_property_defs

lemma is_string_ok: "decorator_ok valid IsString v \<longleftrightarrow> (\<exists>s. v = VStr s)"
  and is_int_ok: "decorator_ok valid IsInt v \<longleftrightarrow> (\<exists>i. v = VNum i)"
  and is_array_ok: "decorator_ok valid IsArray v \<longleftrightarrow> (\<exists>vs. v = VArr vs)"
  and is_object_ok: "decorator_ok valid IsObject v \<longleftrightarrow> (\<exists>c fs. v = VObj c fs)"
  by (auto split: manifest_value.splits)

lemmas cast_iffs = is_string_ok is_int_ok is_array_ok is_object_ok

declare decorator_ok.simps(1-4) [simp del]

context class_packages
begin

lemma valid_field:
  "valid (VObj (Some C) fs) \<Longrightarrow> decorated n ds \<in> set (class_properties C) \<Longrightarrow> property_ok valid ds (field fs n)"
  using valid_property [of C fs "decorated n ds"] by (simp add: decorated_def)

lemma made_field:
  assumes "plainToClass C (VObj c kvs) = Inr (VObj (Some C) fs)" "decorated n ds \<in> set (class_properties C)"
  shows "field fs n = VUndefined \<and> map_of kvs n = None \<or>
    (\<exists>v. map_of kvs n = Some v \<and> transform_property plainToClass ds v = Inr (field fs n))"
  using instance_field [OF assms(1,2)] instance_default [OF assms(1,2)]
  by (cases "map_of kvs n") (simp_all add: decorated_def)

text \<open>A property without \<open>@Type\<close> and \<open>@Transform\<close> keeps its value.\<close>

lemma kept_field:
  assumes "plainToClass C (VObj c kvs) = Inr (VObj (Some C) fs)" "decorated n ds \<in> set (class_properties C)"
    and "declared_type ds = None" "declared_transform ds = None"
  shows "field fs n = field kvs n"
  using made_field [OF assms(1,2)] assms(3,4) by (auto simp: transform_property_def field_def)

lemma typed_field:
  assumes "plainToClass C (VObj c kvs) = Inr (VObj (Some C) fs)" "decorated n ds \<in> set (class_properties C)"
    and "declared_type ds = Some (\<lambda>v. D)" "declared_transform ds = None" "field fs n = VObj c' gs"
  shows "c' = Some D"
proof -
  obtain v where v: "transform_typed plainToClass (\<lambda>v. D) v = Inr (VObj c' gs)"
    using made_field [OF assms(1,2)] assms(3-5) by (auto simp: transform_property_def returns)
  show ?thesis
  proof (cases v)
    case (VObj c'' gs'')
    then show ?thesis using v instance_class [of D c'' gs''] by auto
  qed (use v in \<open>auto simp: returns\<close>)
qed

lemma typed_object:
  assumes "plainToClass C (VObj c kvs) = Inr (VObj (Some C) fs)" "decorated n ds \<in> set (class_properties C)"
    and "declared_type ds = Some (\<lambda>v. D)" "declared_transform ds = None" "map_of kvs n = Some (VObj c' gs)"
  shows "\<exists>fs'. field fs n = VObj (Some D) fs' \<and> plainToClass D (VObj c' gs) = Inr (VObj (Some D) fs')"
proof -
  have "plainToClass D (VObj c' gs) = Inr (field fs n)"
    using made_field [OF assms(1,2)] assms(3-5) by (simp add: transform_property_def returns)
  then show ?thesis using instance_class by fastforce
qed

end

fun filter_decorators :: "StellarHandlerKind \<Rightarrow> decorator list" where
  "filter_decorators Block = [IsObject, IsOptional, Type BlockFilter]"
| "filter_decorators Transaction =
     [forbidNonWhitelisted [''account''], IsObject, IsOptional, Type TransactionFilter]"
| "filter_decorators SorobanTransaction =
     [forbidNonWhitelisted [''account''], IsObject, IsOptional, Type TransactionFilter]"
| "filter_decorators Operation =
     [forbidNonWhitelisted [''type'', ''sourceAccount''], IsObject, IsOptional, Type OperationFilter]"
| "filter_decorators Effects =
     [forbidNonWhitelisted [''type'', ''account''], IsObject, IsOptional, Type EffectFilter]"
| "filter_decorators Event =
     [forbidNonWhitelisted [''topics'', ''contractId''], IsOptional, ValidateNested False, Type EventFilter]"

lemma handler_declares:
  "decorated ''filter'' (filter_decorators k) \<in> set (class_properties (handler_class k))"
  "decorated ''kind'' [IsEnum handler_kind_values [handler_kind_value k]] \<in> set (class_properties (handler_class k))"
  "decorated ''handler'' [IsString] \<in> set (class_properties (handler_class k))"
  by (cases k; simp add: declared_in)+

lemma filter_decorators_simps:
  "declared_type (filter_decorators k) = Some (\<lambda>v. filter_class k)"
  "declared_transform (filter_decorators k) = None"
  "k \<noteq> Event \<Longrightarrow> IsObject \<in> set (filter_decorators k)"
  "k = Event \<Longrightarrow> ValidateNested False \<in> set (filter_decorators k)"
  by (cases k; simp)+

lemma mapping_declares:
  "decorated ''handlers'' [Transform mapping_handlers, IsArray, ValidateNested False] \<in> set (class_properties StellarMapping)"
  "decorated ''file'' [IsString] \<in> set (class_properties StellarMapping)"
  by (simp_all add: declared_in)

lemma runtime_datasource_declares:
  "decorated ''kind'' [IsEnum [StellarDatasourceKind_Runtime] [StellarDatasourceKind_Runtime]]
     \<in> set (class_properties StellarRuntimeDataSourceImpl)"
  "decorated ''mapping'' [Type StellarMapping, ValidateNested False] \<in> set (class_properties StellarRuntimeDataSourceImpl)"
  "decorated ''options'' [IsOptional, ValidateNested False, Type StellarProcessorOptions]
     \<in> set (class_properties StellarRuntimeDataSourceImpl)"
  by (simp_all add: class_properties.simps [of StellarRuntimeDataSourceImpl]
      class_properties.simps [of RuntimeDataSourceBase] class_property_defs)

lemma custom_datasource_declares:
  "decorated ''kind'' [IsString] \<in> set (class_properties StellarCustomDataSourceImpl)"
  "decorated ''mapping'' [Type CustomMapping, ValidateNested False] \<in> set (class_properties StellarCustomDataSourceImpl)"
  "decorated ''startBlock'' [IsOptional, IsInt] \<in> set (class_properties StellarCustomDataSourceImpl)"
  "decorated ''processor'' [Type (PackageClass ''ProcessorImpl''), IsObject] \<in> set (class_properties StellarCustomDataSourceImpl)"
  "decorated ''handlers'' [IsArray, Type CustomHandler, ValidateNested False] \<in> set (class_properties CustomMapping)"
  "decorated ''file'' [IsString] \<in> set (class_properties CustomMapping)"
  by (simp_all add: class_properties.simps [of StellarCustomDataSourceImpl]
      class_properties.simps [of CustomDataSourceBase] class_properties.simps [of CustomMapping]
      class_property_defs with_default_def decorated_def)

lemma property_ok_iff:
  "property_ok valid ds v \<longleftrightarrow> IsOptional \<in> set ds \<and> absent v \<or> (\<forall>d\<in>set ds. decorator_ok valid d v)"
  by (auto simp: property_ok_def list_all_iff)

lemma property_okD: "property_ok valid ds v \<Longrightarrow> d \<in> set ds \<Longrightarrow> absent v \<or> decorator_ok valid d v"
  by (auto simp: property_ok_iff)

context class_packages
begin

lemma made_event_filter:
  assumes "valid (VObj (Some EventFilter) gs)"
  shows "conforms_event_filter (VObj (Some EventFilter) gs)"
proof -
  have "property_ok valid [IsOptional, IsString] (field gs ''contractId'')"
    "property_ok valid [IsOptional, IsArray] (field gs ''topics'')"
    using valid_field [OF assms] by (simp_all add: declared_in)
  then show ?thesis
    by (auto simp: conforms_event_filter_def optional_string_def property_ok_iff cast_iffs)
qed

lemma made_filter:
  assumes made: "plainToClass (handler_class k) (VObj c kvs) = Inr (VObj (Some (handler_class k)) fs)"
    and valid: "valid (VObj (Some (handler_class k)) fs)"
  shows "conforms_filter k (field fs ''filter'')"
proof -
  let ?f = "field fs ''filter''"
  note ok = valid_field [OF valid handler_declares(1)]
  have tag: "c' = Some (filter_class k)" if "?f = VObj c' gs" for c' gs
    using typed_field [OF made handler_declares(1) filter_decorators_simps(1,2) that] .
  show ?thesis
  proof (cases "k = Event")
    case True
    then have "absent ?f \<or> nested_ok valid ?f"
      using property_okD [OF ok filter_decorators_simps(4)] by simp
    then show ?thesis
      using tag made_event_filter True unfolding conforms_filter_def
      by (cases ?f rule: manifest_value.exhaust) auto
  next
    case False
    then show ?thesis
      using property_okD [OF ok filter_decorators_simps(3)] tag
      by (auto simp: conforms_filter_def cast_iffs)
  qed
qed

lemma made_handler:
  assumes "plainToClass (handler_class k) (VObj c kvs) = Inr w" "valid w"
    and "field kvs ''kind'' = VStr (handler_kind_value k)"
  shows "conforms_handler k w"
proof -
  obtain fs where w: "w = VObj (Some (handler_class k)) fs" using instance_class [OF assms(1)] by blast
  note made = assms(1) [unfolded w] and valid = assms(2) [unfolded w]
  have "field fs ''kind'' = VStr (handler_kind_value k)"
    using kept_field [OF made handler_declares(2)] assms(3) by simp
  moreover have "\<exists>s. field fs ''handler'' = VStr s"
    using valid_field [OF valid handler_declares(3)] by (simp add: property_ok_iff cast_iffs)
  ultimately show ?thesis
    using made_filter [OF made valid] by (simp add: conforms_handler_def w)
qed

text \<open>The handlers of a mapping.\<close>

lemma made_handlers:
  assumes "transform_handlers plainToClass v = Inr (VArr hs)" "\<forall>h\<in>set hs. nested_element_ok valid h"
  shows "\<forall>h\<in>set hs. \<exists>k. conforms_handler k h"
proof -
  obtain vs where vs: "list_all2 (\<lambda>v h. handler_to_class plainToClass v = Inr h) vs hs"
    using assms(1) by (cases v) (auto simp: returns traverse_Inr_iff)
  have "\<exists>k. conforms_handler k h"
    if made: "handler_to_class plainToClass v = Inr h" and ok: "nested_element_ok valid h" for v h
  proof -
    obtain c kvs k where h: "v = VObj c kvs" "field kvs ''kind'' = VStr (handler_kind_value k)"
        "plainToClass (handler_class k) v = Inr h"
      using handler_to_class_Inr [OF made] by blast
    then have "valid h" using instance_class [of "handler_class k" c kvs] ok by fastforce
    then show ?thesis using made_handler h by blast
  qed
  then show ?thesis using list_all2_right [OF vs] assms(2) by blast
qed

lemma made_mapping:
  assumes made: "plainToClass StellarMapping (VObj c kvs) = Inr (VObj (Some StellarMapping) ms)"
    and valid: "valid (VObj (Some StellarMapping) ms)"
  shows "conforms_mapping (VObj (Some StellarMapping) ms)"
proof -
  have "property_ok valid [Transform mapping_handlers, IsArray, ValidateNested False] (field ms ''handlers'')"
    "property_ok valid [IsString] (field ms ''file'')"
    using valid_field [OF valid] mapping_declares by blast+
  then obtain hs f where hs: "field ms ''handlers'' = VArr hs" "\<forall>h\<in>set hs. nested_element_ok valid h"
      and f: "field ms ''file'' = VStr f"
    by (auto simp: property_ok_iff cast_iffs list_all_iff)
  obtain v where "transform_handlers plainToClass v = Inr (VArr hs)"
    using made_field [OF made mapping_declares(1)] hs(1) by (auto simp: transform_property_def)
  then show ?thesis using made_handlers hs f by (simp add: conforms_mapping_def)
qed

lemma made_options:
  assumes "valid (VObj (Some StellarProcessorOptions) os)"
  shows "conforms_options (VObj (Some StellarProcessorOptions) os)"
proof -
  have "property_ok valid [IsOptional, IsString] (field os ''abi'')"
    "property_ok valid [IsOptional, IsString] (field os ''address'')"
    using valid_field [OF assms] by (simp_all add: declared_in)
  then show ?thesis
    by (auto simp: conforms_options_def optional_string_def property_ok_iff cast_iffs)
qed

lemma made_runtime_datasource:
  assumes "plainToClass StellarRuntimeDataSourceImpl (VObj c kvs) = Inr ds" "valid ds"
    and mapping: "map_of kvs ''mapping'' = Some (VObj c' mkvs)"
  shows "conforms_runtime_datasource ds"
proof -
  obtain fs where ds: "ds = VObj (Some StellarRuntimeDataSourceImpl) fs"
    using instance_class [OF assms(1)] by blast
  note made = assms(1) [unfolded ds] and valid = assms(2) [unfolded ds]
  note ok = valid_field [OF valid runtime_datasource_declares(1)]
    valid_field [OF valid runtime_datasource_declares(2)] valid_field [OF valid runtime_datasource_declares(3)]
  obtain ms where ms: "field fs ''mapping'' = VObj (Some StellarMapping) ms"
      "plainToClass StellarMapping (VObj c' mkvs) = Inr (VObj (Some StellarMapping) ms)"
    using typed_object [OF made runtime_datasource_declares(2) _ _ mapping] by auto
  have "conforms_mapping (field fs ''mapping'')"
    using made_mapping [OF ms(2)] ok(2) ms(1) by (simp add: property_ok_iff)
  moreover have "conforms_options (field fs ''options'')"
  proof -
    have "c'' = Some StellarProcessorOptions" if "field fs ''options'' = VObj c'' os" for c'' os
      using typed_field [OF made runtime_datasource_declares(3) _ _ that] by simp
    then show ?thesis
      using ok(3) made_options
      by (cases "field fs ''options''") (auto simp: property_ok_iff conforms_options_def)
  qed
  moreover have "field fs ''kind'' = VStr StellarDatasourceKind_Runtime"
    using ok(1) by (simp add: property_ok_iff)
  ultimately show ?thesis by (simp add: conforms_runtime_datasource_def ds)
qed

text \<open>A custom datasource.\<close>

lemma made_custom_handler:
  assumes "valid (VObj (Some CustomHandler) fs)"
  shows "conforms_custom_handler (VObj (Some CustomHandler) fs)"
proof -
  have "property_ok valid [IsString] (field fs ''kind'')" "property_ok valid [IsString] (field fs ''handler'')"
    "property_ok valid [IsObject, IsOptional] (field fs ''filter'')"
    using valid_field [OF assms] by (simp_all add: declared_in)
  then show ?thesis by (auto simp: conforms_custom_handler_def property_ok_iff cast_iffs)
qed

lemma made_custom_datasource:
  assumes "plainToClass StellarCustomDataSourceImpl (VObj c kvs) = Inr ds" "valid ds"
    and mapping: "map_of kvs ''mapping'' = Some (VObj c' mkvs)"
    and handlers: "map_of mkvs ''handlers'' = Some (VArr hkvs)" "\<forall>h\<in>set hkvs. \<exists>c kvs. h = VObj c kvs"
  shows "conforms_custom_datasource ds"
proof -
  obtain fs where ds: "ds = VObj (Some StellarCustomDataSourceImpl) fs"
    using instance_class [OF assms(1)] by blast
  note made = assms(1) [unfolded ds] and valid = assms(2) [unfolded ds]
  note ok = custom_datasource_declares(1-4) [THEN valid_field [OF valid]]
  obtain ms where ms: "field fs ''mapping'' = VObj (Some CustomMapping) ms"
      "plainToClass CustomMapping (VObj c' mkvs) = Inr (VObj (Some CustomMapping) ms)"
    using typed_object [OF made custom_datasource_declares(2) _ _ mapping] by auto
  have valid_ms: "valid (VObj (Some CustomMapping) ms)"
    using ok(2) ms(1) by (simp add: property_ok_iff)
  obtain hs where hs: "field ms ''handlers'' = VArr hs" "\<forall>h\<in>set hs. nested_element_ok valid h"
    using valid_field [OF valid_ms custom_datasource_declares(5)]
    by (auto simp: property_ok_iff cast_iffs list_all_iff)
  have "list_all2 (\<lambda>h h'. transform_typed plainToClass (\<lambda>v. CustomHandler) h = Inr h') hkvs hs"
    using made_field [OF ms(2) custom_datasource_declares(5)] handlers(1) hs(1)
    by (auto simp: transform_property_def returns traverse_Inr_iff)
  note made_from = list_all2_right [OF this]
  have conforms: "conforms_custom_handler h'"
    if made: "transform_typed plainToClass (\<lambda>v. CustomHandler) (VObj c kvs) = Inr h'"
      and okh: "nested_element_ok valid h'" for c kvs h'
  proof -
    obtain gs where "h' = VObj (Some CustomHandler) gs"
      using instance_class [of CustomHandler c kvs h'] made by auto
    then show ?thesis using made_custom_handler okh by simp
  qed
  have "\<forall>h'\<in>set hs. conforms_custom_handler h'"
  proof
    fix h' assume h': "h' \<in> set hs"
    obtain h where "h \<in> set hkvs" "transform_typed plainToClass (\<lambda>v. CustomHandler) h = Inr h'"
      using made_from [OF h'] by blast
    then show "conforms_custom_handler h'" using conforms handlers(2) hs(2) h' by metis
  qed
  then show ?thesis
    using valid_field [OF valid_ms custom_datasource_declares(6)] ok hs ms(1)
    by (auto simp: conforms_custom_datasource_def ds property_ok_iff cast_iffs)
qed

end

end
