(* ===== verification/Manifest_Properties.thy ===== *)
theory Manifest_Properties
  imports Manifest_Typing
begin

text \<open>
  What the manifest classes guarantee: the class chosen for a datasource and how it agrees with
  the predicates of the indexer, the chain id of a deployment, and the properties. They state
  soundness of the validation for datasources, the classes chosen for datasources and networks,
  and the errors.
\<close>

section \<open>Choosing the class of a datasource\<close>

text \<open>\<open>datasource_class kvs\<close>: what the discriminator selects for a manifest entry.\<close>

definition datasource_class :: "(string \<times> manifest_value) list \<Rightarrow> manifest_class" where
  "datasource_class kvs = (if field kvs ''kind'' = VStr StellarDatasourceKind_Runtime
     then StellarRuntimeDataSourceImpl else StellarCustomDataSourceImpl)"

lemma sub_type_datasource:
  "sub_type StellarCustomDataSourceImpl ''kind'' [(''stellar/Runtime'', StellarRuntimeDataSourceImpl)] (VObj c kvs)
   = datasource_class kvs"
  by (auto simp: sub_type_def datasource_class_def StellarDatasourceKind_Runtime_def
      split: manifest_value.split option.split)

lemma datasource_declares_kind:
  "\<exists>ds. decorated ''kind'' ds \<in> set (class_properties (datasource_class kvs)) \<and>
     declared_type ds = None \<and> declared_transform ds = None"
  using runtime_datasource_declares(1) custom_datasource_declares(1)
  by (auto simp: datasource_class_def intro!: exI)

lemma manifest_declares:
  "decorated ''dataSources'' [datasource_type] \<in> set (class_properties ProjectManifestV1_0_0Impl)"
  by (simp add: declared_in(1) ProjectManifestV1_0_0Impl_properties_def)

context class_packages
begin

lemma made_datasource:
  assumes "transform_typed plainToClass (sub_type StellarCustomDataSourceImpl ''kind''
      [(''stellar/Runtime'', StellarRuntimeDataSourceImpl)]) (VObj c kvs) = Inr d"
  shows "\<exists>fs. d = VObj (Some (datasource_class kvs)) fs \<and> field fs ''kind'' = field kvs ''kind''"
proof -
  have made: "plainToClass (datasource_class kvs) (VObj c kvs) = Inr d"
    using assms by (simp add: sub_type_datasource)
  then obtain fs where d: "d = VObj (Some (datasource_class kvs)) fs" using instance_class by blast
  then show ?thesis using kept_field [OF made [unfolded d]] datasource_declares_kind [of kvs] by blast
qed

end

section \<open>Manifest datasources and the datasources of the indexer\<close>

text \<open>
  The instance and the record of \<open>Stellar_Types\<close> describe the same datasource, as far as the
  classification of datasources and handlers reads it.
\<close>

definition represents_handler :: "manifest_value \<Rightarrow> SubqlHandler \<Rightarrow> bool" where
  "represents_handler v h = (\<exists>c fs. v = VObj c fs \<and> field fs ''kind'' = VStr (h_kind h) \<and>
     field fs ''handler'' = VStr (h_handler h))"

definition represents :: "manifest_value \<Rightarrow> SubqlDatasource \<Rightarrow> bool" where
  "represents v ds = (\<exists>c fs c' ms hs. v = VObj c fs \<and> field fs ''kind'' = VStr (ds_kind ds) \<and>
     truthy (field fs ''processor'') = (ds_processor ds \<noteq> None) \<and>
     field fs ''mapping'' = VObj c' ms \<and> field ms ''handlers'' = VArr hs \<and>
     list_all2 represents_handler hs (m_handlers (ds_mapping ds)))"

lemma represented_base_handlers:
  assumes "conforms_runtime_datasource v" "represents v ds"
  shows "list_all isBaseHandler (m_handlers (ds_mapping ds))"
proof -
  obtain fs c' ms hs where "v = VObj (Some StellarRuntimeDataSourceImpl) fs" "field fs ''mapping'' = VObj c' ms"
      "field ms ''handlers'' = VArr hs" and hs: "list_all2 represents_handler hs (m_handlers (ds_mapping ds))"
    using assms by (auto simp: conforms_runtime_datasource_def represents_def)
  then have "\<forall>v\<in>set hs. \<exists>k. conforms_handler k v"
    using assms(1) by (auto simp: conforms_runtime_datasource_def conforms_mapping_def)
  moreover have "isBaseHandler h" if "represents_handler v h" "conforms_handler k v" for v h k
    using that by (auto simp: represents_handler_def conforms_handler_def isBaseHandler_def handler_kind_values_range)
  ultimately show ?thesis unfolding list_all_iff using list_all2_right [OF hs] by blast
qed

context class_packages
begin

lemma typed_origin:
  assumes "plainToClass C (VObj c kvs) = Inr (VObj (Some C) fs)" "decorated n ds \<in> set (class_properties C)"
    and "declared_type ds = Some type" "declared_transform ds = None" "field fs n = VObj c' gs"
  shows "\<exists>c0 kvs0. map_of kvs n = Some (VObj c0 kvs0)"
proof -
  obtain v where v: "map_of kvs n = Some v" "transform_typed plainToClass type v = Inr (VObj c' gs)"
    using made_field [OF assms(1,2)] assms(3-5) by (auto simp: transform_property_def returns)
  then show ?thesis by (cases v) (auto simp: returns)
qed

lemma made_datasource_classified:
  assumes made: "transform_typed plainToClass (sub_type StellarCustomDataSourceImpl ''kind''
      [(''stellar/Runtime'', StellarRuntimeDataSourceImpl)]) (VObj c kvs) = Inr d"
    and valid: "valid d" and rep: "represents d ds"
  shows "isCustomDs ds = (\<not> isRuntimeDs ds) \<and> (isRuntimeDs ds \<longrightarrow> list_all isBaseHandler (m_handlers (ds_mapping ds)))"
proof -
  obtain fs where d: "d = VObj (Some (datasource_class kvs)) fs" "field fs ''kind'' = field kvs ''kind''"
    using made_datasource [OF made] by blast
  have made': "plainToClass (datasource_class kvs) (VObj c kvs) = Inr d"
    using made by (simp add: sub_type_datasource)
  obtain c' ms where kind: "field kvs ''kind'' = VStr (ds_kind ds)" and mapping: "field fs ''mapping'' = VObj c' ms"
      and processor: "truthy (field fs ''processor'') = (ds_processor ds \<noteq> None)"
    using rep d by (auto simp: represents_def)
  show ?thesis
  proof (cases "ds_kind ds = StellarDatasourceKind_Runtime")
    case True
    then have cls: "datasource_class kvs = StellarRuntimeDataSourceImpl"
      using kind by (simp add: datasource_class_def)
    note made'' = made' [unfolded d(1) cls]
    obtain c0 mkvs where "map_of kvs ''mapping'' = Some (VObj c0 mkvs)"
      using typed_origin [OF made'' runtime_datasource_declares(2) _ _ mapping] by auto
    then have "conforms_runtime_datasource d"
      using made_runtime_datasource [OF made''] valid d(1) cls by simp
    then show ?thesis
      using represented_base_handlers rep True by (simp add: isRuntimeDs_def isCustomDs_def)
  next
    case False
    then have "datasource_class kvs = StellarCustomDataSourceImpl"
      using kind by (simp add: datasource_class_def)
    then have "property_ok valid [Type (PackageClass ''ProcessorImpl''), IsObject] (field fs ''processor'')"
      using valid d(1) custom_datasource_declares(4) by (auto intro: valid_field)
    then have "truthy (field fs ''processor'')" by (auto simp: property_ok_iff cast_iffs)
    then show ?thesis using processor False by (simp add: isRuntimeDs_def isCustomDs_def)
  qed
qed

lemma made_datasources:
  assumes made: "plainToClass ProjectManifestV1_0_0Impl (VObj c raw) = Inr (VObj (Some ProjectManifestV1_0_0Impl) fs)"
    and entries: "map_of raw ''dataSources'' = Some (VArr (map (VObj None) entries))"
  shows "\<exists>dss. field fs ''dataSources'' = VArr dss \<and>
    list_all2 (\<lambda>kvs d. \<exists>fs. d = VObj (Some (datasource_class kvs)) fs \<and> field fs ''kind'' = field kvs ''kind'') entries dss \<and>
    (\<forall>d ds. d \<in> set dss \<longrightarrow> valid d \<longrightarrow> represents d ds \<longrightarrow>
       isCustomDs ds = (\<not> isRuntimeDs ds) \<and>
       (isRuntimeDs ds \<longrightarrow> list_all isBaseHandler (m_handlers (ds_mapping ds))))"
proof -
  let ?type = "sub_type StellarCustomDataSourceImpl ''kind'' [(''stellar/Runtime'', StellarRuntimeDataSourceImpl)]"
  have "transform_typed plainToClass ?type (VArr (map (VObj None) entries)) = Inr (field fs ''dataSources'')"
    using made_field [OF made manifest_declares] entries
    by (simp add: transform_property_def datasource_type_def returns)
  then obtain dss where dss: "field fs ''dataSources'' = VArr dss"
      "list_all2 (\<lambda>v d. transform_typed plainToClass ?type v = Inr d) (map (VObj None) entries) dss"
    by (auto simp: returns traverse_Inr_iff)
  then have all: "list_all2 (\<lambda>kvs d. transform_typed plainToClass ?type (VObj None kvs) = Inr d) entries dss"
    by (simp add: list.rel_map)
  then have "list_all2 (\<lambda>kvs d. \<exists>fs. d = VObj (Some (datasource_class kvs)) fs \<and> field fs ''kind'' = field kvs ''kind'') entries dss"
    by (rule list_all2_mono) (rule made_datasource)
  then show ?thesis
    using dss(1) list_all2_right [OF all] made_datasource_classified by blast
qed

end

section \<open>The network of a deployment\<close>

lemma network_declares:
  "decorated ''network'' [Transform deployment_network, ValidateNested False, Type ProjectNetworkDeploymentV1_0_0]
     \<in> set (class_properties DeploymentV1_0_0)"
  "decorated ''chainId'' [IsNotEmpty, Transform trim_chainId, IsString]
     \<in> set (class_properties ProjectNetworkDeploymentV1_0_0)"
  "''genesisHash'' \<notin> prop_name ` set (class_properties ProjectNetworkDeploymentV1_0_0)"
  by (simp_all add: class_properties.simps [of DeploymentV1_0_0] DeploymentV1_0_0_properties_def
      class_properties.simps [of ProjectNetworkDeploymentV1_0_0] ProjectNetworkDeploymentV1_0_0_properties_def
      decorated_def)

text \<open>The chain id that a deployment gets from the \<open>chainId\<close> and the \<open>genesisHash\<close> of its network\<close>

definition effective_chainId :: "string option \<Rightarrow> string option \<Rightarrow> string option" where
  "effective_chainId chainId genesisHash =
     (case map_option trim chainId of
        Some (c # cs) \<Rightarrow> Some (c # cs)
      | other \<Rightarrow> (case genesisHash of Some (g # gs) \<Rightarrow> Some (trim (g # gs)) | _ \<Rightarrow> other))"

context class_packages
begin

lemma made_chainId:
  assumes "plainToClass ProjectNetworkDeploymentV1_0_0 (VObj c kvs) = Inr (VObj (Some ProjectNetworkDeploymentV1_0_0) fs)"
  shows "field fs ''chainId'' = VUndefined \<and> map_of kvs ''chainId'' = None \<or>
    (\<exists>s. map_of kvs ''chainId'' = Some (VStr s) \<and> field fs ''chainId'' = VStr (trim s))"
proof -
  have "\<exists>s. v = VStr s \<and> w = VStr (trim s)" if "transform_chainId v = Inr w" for v w
    using that by (cases v) auto
  then show ?thesis
    using made_field [OF assms network_declares(2)] by (auto simp: transform_property_def)
qed

lemma made_network:
  assumes made: "plainToClass DeploymentV1_0_0 (VObj c raw) = Inr (VObj (Some DeploymentV1_0_0) ds)"
    and network: "map_of raw ''network'' = Some (VObj c' kvs)"
    and chainId: "map_of kvs ''chainId'' = map_option VStr cid"
    and genesisHash: "map_of kvs ''genesisHash'' = map_option VStr ghash"
  shows "\<exists>fs. field ds ''network'' = VObj (Some ProjectNetworkDeploymentV1_0_0) fs \<and>
    field fs ''chainId'' = (case effective_chainId cid ghash of None \<Rightarrow> VUndefined | Some s \<Rightarrow> VStr s)"
proof -
  let ?C = "ProjectNetworkDeploymentV1_0_0"
  obtain w where w: "plainToClass ?C (VObj c' kvs) = Inr w" "transform_network plainToClass w = Inr (field ds ''network'')"
    using made_field [OF made network_declares(1)] network by (auto simp: transform_property_def returns)
  obtain fs1 where fs1: "w = VObj (Some ?C) fs1" using instance_class [OF w(1)] by blast
  note made1 = w(1) [unfolded fs1]
  have g: "field fs1 ''genesisHash'' = (case ghash of None \<Rightarrow> VUndefined | Some h \<Rightarrow> VStr h)"
    using undeclared_copied [OF made1 _ network_declares(3)] genesisHash by (simp add: field_def split: option.split)
  have c1: "field fs1 ''chainId'' = (case cid of None \<Rightarrow> VUndefined | Some s \<Rightarrow> VStr (trim s))"
    using made_chainId [OF made1] chainId by (cases cid) auto
  let ?fs2 = "if truthy (field fs1 ''genesisHash'') \<and> \<not> truthy (field fs1 ''chainId'')
     then set_field ''chainId'' (field fs1 ''genesisHash'') fs1 else fs1"
  have "plainToClass ?C (VObj (Some ?C) ?fs2) = Inr (field ds ''network'')"
    using w(2) by (auto simp: transform_network_def adopt_genesisHash_def fs1)
  moreover then obtain fs where fs: "field ds ''network'' = VObj (Some ?C) fs" using instance_class by blast
  ultimately have made2: "plainToClass ?C (VObj (Some ?C) ?fs2) = Inr (VObj (Some ?C) fs)" by simp
  have "field fs ''chainId'' = (case effective_chainId cid ghash of None \<Rightarrow> VUndefined | Some s \<Rightarrow> VStr s)"
  proof (cases "field ?fs2 ''chainId''")
    case VUndefined
    then have "field fs ''chainId'' = VUndefined" using made_chainId [OF made2] by (auto simp: field_def)
    moreover have "cid = None" "ghash = None \<or> ghash = Some []"
      using VUndefined c1 g by (cases cid; cases ghash; auto split: if_splits)+
    ultimately show ?thesis by (auto simp: effective_chainId_def)
  next
    case (VStr s)
    then have "field fs ''chainId'' = VStr (trim s)" using made_chainId [OF made2] by (auto simp: field_def split: option.splits)
    moreover have "effective_chainId cid ghash = Some (trim s)"
      using VStr c1 g trim_trim [of "the cid"] trim_trim [of "[]"]
      by (cases cid; cases ghash; auto simp: effective_chainId_def split: if_splits list.splits)
    ultimately show ?thesis by simp
  qed (use c1 g in \<open>auto split: if_splits option.splits\<close>)
  then show ?thesis using fs by blast
qed

end

section \<open>Properties\<close>

text \<open>
  What the program relies on in the packages: the laws of the decorators, that \<open>validateObject\<close>
  throws when \<open>validateSync\<close> reports something, and that a built-in function does not make
  instances of the program's manifest class.
\<close>

definition lawful_services :: "manifest_services \<Rightarrow> (manifest_value \<Rightarrow> string list) \<Rightarrow> bool" where
  "lawful_services srv validateSync \<longleftrightarrow>
     class_packages (srv_plainToClass srv) validateSync \<and>
     (\<forall>v msg. srv_validateObject srv v msg = Inr () \<longrightarrow> validateSync v = []) \<and>
     (\<forall>m v w. srv_plainToBuiltin srv m v = Inr w \<longrightarrow> \<not> is_manifest w)"

definition sample_manifest_services :: manifest_services where
  "sample_manifest_services = \<lparr>
     srv_plainToClass = reference_plainToClass,
     srv_plainToBuiltin = (\<lambda>m v. Inl (TypeError ''targetType is not a constructor'')),
     srv_validateObject = (\<lambda>v msg. if reference_valid v then Inr () else Inl (Error msg)),
     srv_validateManifest = (\<lambda>v. if reference_valid v then Inr () else Inl (Error ''failed to parse project.yaml'')),
     srv_deployment = reference_plainToClass DeploymentV1_0_0,
     srv_toYaml = (\<lambda>v. Inr ''specVersion: 1.0.0'')\<rparr>"

lemma sample_lawful: "lawful_services sample_manifest_services reference_validateSync"
  using reference_packages.class_packages_axioms
  by (auto simp: lawful_services_def sample_manifest_services_def split: if_splits)

definition sample_runtime_handlers :: "manifest_value list" where
  "sample_runtime_handlers =
    [VObj None [(''handler'', VStr ''handleEvent''), (''kind'', VStr ''soroban/EventHandler''),
       (''filter'', VObj None [(''topics'', VArr [VStr ''transfer''])])],
     VObj None [(''handler'', VStr ''handleOp''), (''kind'', VStr ''stellar/OperationHandler'')]]"

definition sample_runtime_fields :: "(string \<times> manifest_value) list" where
  "sample_runtime_fields =
    [(''kind'', VStr ''stellar/Runtime''), (''startBlock'', VNum 50),
     (''mapping'', VObj None [(''file'', VStr ''./dist/index.js''), (''handlers'', VArr sample_runtime_handlers)]),
     (''options'', VObj None [(''address'', VStr ''CA7Q'')])]"

definition sample_custom_fields :: "(string \<times> manifest_value) list" where
  "sample_custom_fields =
    [(''kind'', VStr ''stellar/Custom''),
     (''mapping'', VObj None [(''file'', VStr ''./dist/index.js''),
        (''handlers'', VArr [VObj None [(''handler'', VStr ''handle''), (''kind'', VStr ''substrate/Log'')]])]),
     (''assets'', VObj None []), (''startBlock'', VNum 50),
     (''processor'', VObj None [(''file'', VStr ''./processor.js'')])]"

text \<open>
  C11: Validation is sound for runtime datasources: a runtime datasource made from a manifest
  entry whose \<open>mapping\<close> is an object, and accepted by its \<open>validate\<close>
  method, has the types its declaration gives. It is of kind \<open>stellar/Runtime\<close>; its mapping names a file and holds handlers, each an
  instance of the class of its kind with a function name, and with a filter of the filter class of
  that kind; the contract and the topics of an event filter and the address of the options have
  their types.
\<close>

theorem validated_datasource_typed:
  assumes "lawful_services srv validateSync"
    and "srv_plainToClass srv StellarRuntimeDataSourceImpl (VObj c kvs) = Inr ds"
    and "map_of kvs ''mapping'' = Some (VObj c' mkvs)"
    and "validate_runtime_datasource srv ds = Inr ()"
  shows "conforms_runtime_datasource ds"
proof -
  have "class_packages (srv_plainToClass srv) validateSync" "validateSync ds = []"
    using assms(1,4) by (auto simp: lawful_services_def validate_runtime_datasource_def)
  then show ?thesis using class_packages.made_runtime_datasource assms(2,3) by blast
qed

theorem validated_datasource_typed_witness:
  "\<exists>ds. srv_plainToClass sample_manifest_services StellarRuntimeDataSourceImpl (VObj None sample_runtime_fields) = Inr ds \<and>
     validate_runtime_datasource sample_manifest_services ds = Inr () \<and> conforms_runtime_datasource ds"
proof -
  have "case srv_plainToClass sample_manifest_services StellarRuntimeDataSourceImpl (VObj None sample_runtime_fields) of
      Inr ds \<Rightarrow> validate_runtime_datasource sample_manifest_services ds = Inr () | Inl e \<Rightarrow> False"
    by code_simp
  then obtain ds where
    ds: "srv_plainToClass sample_manifest_services StellarRuntimeDataSourceImpl (VObj None sample_runtime_fields) = Inr ds"
      "validate_runtime_datasource sample_manifest_services ds = Inr ()"
    by (auto split: sum.splits)
  have "map_of sample_runtime_fields ''mapping'' =
      Some (VObj None [(''file'', VStr ''./dist/index.js''), (''handlers'', VArr sample_runtime_handlers)])"
    by (simp add: sample_runtime_fields_def)
  from validated_datasource_typed [OF sample_lawful ds(1) this ds(2)] show ?thesis using ds by blast
qed

text \<open>
  C30: Validation is sound for custom datasources: an accepted instance, made from an entry whose mapping
  is an object with an array of objects as its handlers, has a kind, a mapping with a file and
  typed custom handlers, an integer start block if any, and a processor object.
\<close>

theorem validated_custom_datasource_typed:
  assumes "lawful_services srv validateSync"
    and "srv_plainToClass srv StellarCustomDataSourceImpl (VObj c kvs) = Inr ds"
    and "map_of kvs ''mapping'' = Some (VObj c' mkvs)" "map_of mkvs ''handlers'' = Some (VArr hs)"
    and "\<forall>h\<in>set hs. \<exists>c kvs. h = VObj c kvs"
    and "validate_custom_datasource srv ds = Inr ()"
  shows "conforms_custom_datasource ds"
proof -
  have "class_packages (srv_plainToClass srv) validateSync" "validateSync ds = []"
    using assms(1,6) by (auto simp: lawful_services_def validate_custom_datasource_def)
  then show ?thesis using class_packages.made_custom_datasource assms(2-5) by blast
qed

theorem validated_custom_datasource_typed_witness:
  "\<exists>ds. srv_plainToClass sample_manifest_services StellarCustomDataSourceImpl (VObj None sample_custom_fields) = Inr ds \<and>
     validate_custom_datasource sample_manifest_services ds = Inr () \<and> conforms_custom_datasource ds"
proof -
  have "case srv_plainToClass sample_manifest_services StellarCustomDataSourceImpl (VObj None sample_custom_fields) of
      Inr ds \<Rightarrow> validate_custom_datasource sample_manifest_services ds = Inr () | Inl e \<Rightarrow> False"
    by code_simp
  then obtain ds where
    ds: "srv_plainToClass sample_manifest_services StellarCustomDataSourceImpl (VObj None sample_custom_fields) = Inr ds"
      "validate_custom_datasource sample_manifest_services ds = Inr ()"
    by (auto split: sum.splits)
  then show ?thesis
    using validated_custom_datasource_typed [OF sample_lawful ds(1) _ _ _ ds(2)] by (simp add: sample_custom_fields_def)
qed

text \<open>
  C12: The discriminator of the manifest agrees with the predicates of the indexer. The entries of
  \<open>dataSources\<close> become, in order, instances of the runtime class when their kind is
  \<open>stellar/Runtime\<close> and of the custom class otherwise; and a datasource of the indexer that
  represents one of them which validates is either a runtime or a custom datasource, never both,
  and in the first case all its handlers are base handlers.
\<close>

theorem datasources_classified:
  assumes "lawful_services srv validateSync"
    and "srv_plainToClass srv ProjectManifestV1_0_0Impl (VObj c raw) = Inr impl"
    and "map_of raw ''dataSources'' = Some (VArr (map (VObj None) entries))"
  shows "\<exists>dss. get_property impl ''dataSources'' = Inr (VArr dss) \<and>
    list_all2 (\<lambda>kvs d. \<exists>fs. d = VObj (Some (datasource_class kvs)) fs \<and> field fs ''kind'' = field kvs ''kind'') entries dss \<and>
    (\<forall>d ds. d \<in> set dss \<longrightarrow> validateSync d = [] \<longrightarrow> represents d ds \<longrightarrow>
       isCustomDs ds = (\<not> isRuntimeDs ds) \<and>
       (isRuntimeDs ds \<longrightarrow> list_all isBaseHandler (m_handlers (ds_mapping ds))))"
proof -
  have pk: "class_packages (srv_plainToClass srv) validateSync"
    using assms(1) by (simp add: lawful_services_def)
  obtain fs where impl: "impl = VObj (Some ProjectManifestV1_0_0Impl) fs"
    using class_packages.instance_class [OF pk assms(2)] by blast
  show ?thesis
    using class_packages.made_datasources [OF pk assms(2) [unfolded impl] assms(3)] by (simp add: impl)
qed

definition sample_manifest_fields :: "(string \<times> manifest_value) list" where
  "sample_manifest_fields =
    [(''specVersion'', VStr ''1.0.0''), (''name'', VStr ''stellar-project''), (''version'', VStr ''0.0.1''),
     (''runner'', VObj None [(''node'', VObj None [(''name'', VStr ''@subql/node-stellar''), (''version'', VStr ''*'')]),
        (''query'', VObj None [(''name'', VStr ''@subql/query''), (''version'', VStr ''*'')])]),
     (''schema'', VObj None [(''file'', VStr ''./schema.graphql'')]),
     (''network'', VObj None [(''chainId'', VStr ''Test SDF Network''), (''endpoint'', VStr ''https://horizon'')]),
     (''dataSources'', VArr (map (VObj None) [sample_runtime_fields, sample_custom_fields]))]"

theorem datasources_classified_witness:
  "\<exists>fs d d'. srv_plainToClass sample_manifest_services ProjectManifestV1_0_0Impl (VObj None sample_manifest_fields) =
       Inr (VObj (Some ProjectManifestV1_0_0Impl) fs) \<and>
     field fs ''dataSources'' = VArr [VObj (Some StellarRuntimeDataSourceImpl) d, VObj (Some StellarCustomDataSourceImpl) d'] \<and>
     reference_validateSync (VObj (Some StellarRuntimeDataSourceImpl) d) = []"
proof -
  have "case srv_plainToClass sample_manifest_services ProjectManifestV1_0_0Impl (VObj None sample_manifest_fields) of
      Inr (VObj (Some ProjectManifestV1_0_0Impl) fs) \<Rightarrow>
        (case field fs ''dataSources'' of VArr [d, d'] \<Rightarrow> reference_validateSync d = [] | _ \<Rightarrow> False) | _ \<Rightarrow> False"
    by code_simp
  then obtain fs d d' where
    made: "srv_plainToClass sample_manifest_services ProjectManifestV1_0_0Impl (VObj None sample_manifest_fields) =
        Inr (VObj (Some ProjectManifestV1_0_0Impl) fs)"
      and ds: "field fs ''dataSources'' = VArr [d, d']" "reference_validateSync d = []"
    by (auto split: sum.splits manifest_value.splits option.splits manifest_class.splits list.splits)
  have "map_of sample_manifest_fields ''dataSources'' =
      Some (VArr (map (VObj None) [sample_runtime_fields, sample_custom_fields]))"
    by (simp add: sample_manifest_fields_def)
  from datasources_classified [OF sample_lawful made this] show ?thesis
    using made ds by (auto simp: list_all2_Cons1 datasource_class_def sample_runtime_fields_def
        sample_custom_fields_def field_def StellarDatasourceKind_Runtime_def)
qed

text \<open>
  C31: The network of a deployment is an instance whose chain id is the trimmed \<open>chainId\<close> of the
  manifest, or, when that is missing or blank, the trimmed \<open>genesisHash\<close>.
\<close>

theorem deployment_chainId:
  assumes "lawful_services srv validateSync"
    and "srv_plainToClass srv DeploymentV1_0_0 (VObj c raw) = Inr deployment"
    and "map_of raw ''network'' = Some (VObj c' network)"
    and "map_of network ''chainId'' = map_option VStr chainId"
    and "map_of network ''genesisHash'' = map_option VStr genesisHash"
  shows "\<exists>net. get_property deployment ''network'' = Inr (VObj (Some ProjectNetworkDeploymentV1_0_0) net) \<and>
    field net ''chainId'' =
      (case effective_chainId chainId genesisHash of None \<Rightarrow> VUndefined | Some s \<Rightarrow> VStr s)"
proof -
  have pk: "class_packages (srv_plainToClass srv) validateSync"
    using assms(1) by (simp add: lawful_services_def)
  obtain fs where d: "deployment = VObj (Some DeploymentV1_0_0) fs"
    using class_packages.instance_class [OF pk assms(2)] by blast
  show ?thesis
    using class_packages.made_network [OF pk assms(2) [unfolded d] assms(3-5)] by (simp add: d)
qed

definition sample_deployment_fields :: "(string \<times> manifest_value) list" where
  "sample_deployment_fields =
    [(''network'', VObj None [(''genesisHash'', VStr '' Test SDF Network''), (''chainId'', VStr ''  '')])]"

theorem deployment_chainId_witness:
  "\<exists>d net. srv_plainToClass sample_manifest_services DeploymentV1_0_0 (VObj None sample_deployment_fields) = Inr d \<and>
     get_property d ''network'' = Inr (VObj (Some ProjectNetworkDeploymentV1_0_0) net) \<and>
     field net ''chainId'' = VStr ''Test SDF Network''"
proof -
  have "case srv_plainToClass sample_manifest_services DeploymentV1_0_0 (VObj None sample_deployment_fields) of
      Inr d \<Rightarrow> True | Inl e \<Rightarrow> False"
    by code_simp
  then obtain d where
    d: "srv_plainToClass sample_manifest_services DeploymentV1_0_0 (VObj None sample_deployment_fields) = Inr d"
    by (auto split: sum.splits)
  have "map_of sample_deployment_fields ''network'' =
      Some (VObj None [(''genesisHash'', VStr '' Test SDF Network''), (''chainId'', VStr ''  '')])"
    by (simp add: sample_deployment_fields_def)
  from deployment_chainId [OF sample_lawful d this, of "Some ''  ''" "Some '' Test SDF Network''"]
  have "\<exists>net. get_property d ''network'' = Inr (VObj (Some ProjectNetworkDeploymentV1_0_0) net) \<and>
      field net ''chainId'' =
        (case effective_chainId (Some ''  '') (Some '' Test SDF Network'') of None \<Rightarrow> VUndefined | Some s \<Rightarrow> VStr s)"
    by simp
  moreover have "effective_chainId (Some ''  '') (Some '' Test SDF Network'') = Some ''Test SDF Network''" by code_simp
  ultimately show ?thesis using d by auto
qed

text \<open>
  C33: The handlers of a mapping are transformed all or not at all. On success every handler is
  made an instance of the class of its kind, in order; the first handler whose kind is not one of
  the six ends the transformation with an error that names the kind; and handlers that are no
  array are a type error.
\<close>

theorem handlers_by_kind:
  "(transform_handlers plainToClass (VArr hs) = Inr w \<longrightarrow>
      (\<exists>ws. w = VArr ws \<and> list_all2 (\<lambda>h i. \<exists>c fs k. h = VObj c fs \<and>
         field fs ''kind'' = VStr (handler_kind_value k) \<and> plainToClass (handler_class k) h = Inr i) hs ws)) \<and>
   (list_all (\<lambda>h. \<exists>i. handler_to_class plainToClass h = Inr i) before \<longrightarrow> field fs ''kind'' = VStr kind \<longrightarrow>
      kind \<notin> set handler_kind_values \<longrightarrow>
      transform_handlers plainToClass (VArr (before @ VObj c fs # after)) =
        Inl (Error (''handler '' @ kind @ '' not supported''))) \<and>
   (\<exists>msg. transform_handlers plainToClass (VObj c fs) = Inl (TypeError msg)) \<and>
   (\<exists>msg. transform_handlers plainToClass VUndefined = Inl (TypeError msg))"
proof (intro conjI impI)
  assume "transform_handlers plainToClass (VArr hs) = Inr w"
  then obtain ws where "w = VArr ws" "list_all2 (\<lambda>h i. handler_to_class plainToClass h = Inr i) hs ws"
    by (auto simp: returns traverse_Inr_iff)
  then show "\<exists>ws. w = VArr ws \<and> list_all2 (\<lambda>h i. \<exists>c fs k. h = VObj c fs \<and>
      field fs ''kind'' = VStr (handler_kind_value k) \<and> plainToClass (handler_class k) h = Inr i) hs ws"
    by (blast intro: list_all2_mono handler_to_class_Inr)
next
  assume before: "list_all (\<lambda>h. \<exists>i. handler_to_class plainToClass h = Inr i) before"
    and kind: "field fs ''kind'' = VStr kind" "kind \<notin> set handler_kind_values"
  have "handler_to_class plainToClass (VObj c fs) = Inl (Error (''handler '' @ kind @ '' not supported''))"
    using kind handler_to_class_unsupported [of fs plainToClass c]
    by (auto simp: handler_kind_values_range)
  then have "traverse (handler_to_class plainToClass) (before @ VObj c fs # after) =
      Inl (Error (''handler '' @ kind @ '' not supported''))"
    using before by (induction before) auto
  then show "transform_handlers plainToClass (VArr (before @ VObj c fs # after)) =
      Inl (Error (''handler '' @ kind @ '' not supported''))"
    by simp
qed (simp only: transform_handlers.simps no_property_of_def, blast)+

theorem handlers_by_kind_witness:
  "transform_handlers reference_plainToClass (VArr (sample_runtime_handlers @ [VObj None [(''kind'', VStr ''stellar/CallHandler'')]])) =
     Inl (Error ''handler stellar/CallHandler not supported'')"
proof -
  have "list_all (\<lambda>h. \<exists>i. handler_to_class reference_plainToClass h = Inr i) sample_runtime_handlers"
  proof -
    have "list_all (\<lambda>h. case handler_to_class reference_plainToClass h of Inr i \<Rightarrow> True | Inl e \<Rightarrow> False) sample_runtime_handlers"
      by code_simp
    then show ?thesis by (rule list.pred_mono_strong) (auto split: sum.splits)
  qed
  then show ?thesis
    using handlers_by_kind [of reference_plainToClass "[]" VUndefined sample_runtime_handlers
        "[(''kind'', VStr ''stellar/CallHandler'')]" "''stellar/CallHandler''" None "[]"]
    by (simp add: field_def handler_kind_values_eq)
qed

text \<open>
  C32: Only manifests of version 1.0.0 are accepted. A manifest whose \<open>specVersion\<close> is another
  text is never parsed; the error says that the version is not supported, unless the text is the
  name of a member of \<open>Object.prototype\<close>, which the version table inherits. A parsed manifest is an
  instance of the manifest class that has been validated, its getter \<open>isV1_0_0\<close> is true and
  \<open>asV1_0_0\<close> is that instance.
\<close>

theorem only_version_1_0_0:
  assumes "lawful_services srv validateSync" and "field raw ''specVersion'' = VStr version"
  shows "(version \<noteq> ''1.0.0'' \<longrightarrow> (\<exists>e. parseStellarProjectManifest srv (VObj c raw) = Inl e)) \<and>
    (version \<noteq> ''1.0.0'' \<longrightarrow> version \<notin> set Object_prototype \<longrightarrow>
       parseStellarProjectManifest srv (VObj c raw) = Inl version_not_supported) \<and>
    (parseStellarProjectManifest srv (VObj c raw) = Inr m \<longrightarrow>
       is_manifest (asV1_0_0 m) \<and> isV1_0_0 m = Inr True \<and> srv_validateManifest srv (asV1_0_0 m) = Inr () \<and>
       srv_plainToClass srv ProjectManifestV1_0_0Impl (VObj c raw) = Inr (asV1_0_0 m))"
proof -
  have pk: "class_packages (srv_plainToClass srv) validateSync"
    and builtin: "srv_plainToBuiltin srv n v = Inr w \<Longrightarrow> \<not> is_manifest w" for n v w
    using assms(1) by (auto simp: lawful_services_def)
  let ?new = "new_StellarProjectManifestVersioned srv (VObj c raw)"
  have new: "?new = (case lookup_version version of
       None \<Rightarrow> Inl version_not_supported
     | Some (VersionClass klass) \<Rightarrow> map_sum id (\<lambda>impl. \<lparr>manifest_impl = impl\<rparr>) (srv_plainToClass srv klass (VObj c raw))
     | Some (PrototypeMember m) \<Rightarrow> map_sum id (\<lambda>impl. \<lparr>manifest_impl = impl\<rparr>) (srv_plainToBuiltin srv m (VObj c raw)))"
    using assms(2) by (simp add: new_StellarProjectManifestVersioned_def)
  have parsed: "version = ''1.0.0'' \<and> srv_plainToClass srv ProjectManifestV1_0_0Impl (VObj c raw) = Inr (asV1_0_0 m) \<and>
      is_manifest (asV1_0_0 m) \<and> srv_validateManifest srv (asV1_0_0 m) = Inr ()"
    if "parseStellarProjectManifest srv (VObj c raw) = Inr m" for m
  proof -
    have m: "?new = Inr m" "is_manifest (manifest_impl m)" "srv_validateManifest srv (manifest_impl m) = Inr ()"
      using that by (auto simp: parse_returns returns)
    then show ?thesis
      using builtin by (auto simp: new lookup_version_cases asV1_0_0_def returns split: if_splits)
  qed
  moreover have "isV1_0_0 m = Inr True" if "parseStellarProjectManifest srv (VObj c raw) = Inr m"
  proof -
    have made: "srv_plainToClass srv ProjectManifestV1_0_0Impl (VObj c raw) = Inr (asV1_0_0 m)" "version = ''1.0.0''"
      using parsed [OF that] by auto
    then obtain fs where fs: "asV1_0_0 m = VObj (Some ProjectManifestV1_0_0Impl) fs"
      using class_packages.instance_class [OF pk] by blast
    have "field fs ''specVersion'' = VStr ''1.0.0''"
      using class_packages.instance_field [OF pk made(1) [unfolded fs],
          of "with_default (VStr ''1.0.0'') (decorated ''specVersion'' [Equals (VStr ''1.0.0'')])"]
        assms(2) made(2)
      by (simp add: class_properties.simps [of ProjectManifestV1_0_0Impl] ProjectManifestV1_0_0Impl_properties_def
          property_simps field_def transform_property_def split: option.splits)
    then show ?thesis using fs by (simp add: isV1_0_0_def manifest_specVersion_def asV1_0_0_def)
  qed
  moreover have "parseStellarProjectManifest srv (VObj c raw) = Inl version_not_supported"
    if "version \<noteq> ''1.0.0''" "version \<notin> set Object_prototype"
    using that by (simp add: parseStellarProjectManifest_def new lookup_version_cases)
  ultimately show ?thesis by (metis sum.exhaust)
qed

theorem only_version_1_0_0_witness:
  "\<exists>m. parseStellarProjectManifest sample_manifest_services (VObj None sample_manifest_fields) = Inr m \<and> isV1_0_0 m = Inr True"
proof -
  have "case parseStellarProjectManifest sample_manifest_services (VObj None sample_manifest_fields) of
      Inr m \<Rightarrow> True | Inl e \<Rightarrow> False"
    by code_simp
  then obtain m where "parseStellarProjectManifest sample_manifest_services (VObj None sample_manifest_fields) = Inr m"
    by (auto split: sum.splits)
  moreover have "field sample_manifest_fields ''specVersion'' = VStr ''1.0.0''"
    by (simp add: sample_manifest_fields_def field_def)
  ultimately show ?thesis using only_version_1_0_0 [OF sample_lawful] by blast
qed

end
