(* ===== verification/Module_Wiring.thy ===== *)
theory Module_Wiring
  imports Main
begin

text \<open>
  The wiring of the process: the NestJS modules of \<open>packages/node/src\<close>. A module lists providers,
  each of which says under which token an instance is found and how it is made: by a class, whose
  constructor names the tokens it needs, by a factory with the tokens to inject, or by a value.

  The lists are those of \<open>indexer/fetch.module.ts\<close>, \<open>indexer/worker/worker-fetch.module.ts\<close>,
  \<open>subcommands/testing.module.ts\<close>, \<open>subcommands/reindex.module.ts\<close> and
  \<open>configure/configure.module.ts\<close>; \<open>constructor_tokens\<close> are the constructors of the program's own
  classes, those of the classes of other packages being a parameter \<open>package_tokens\<close>, as are the tokens
  that modules of other packages export. What NestJS needs in order to make an instance is the
  inductive predicate \<open>constructible\<close>. The lemmas at the end are the tokens the modules need from
  others whatever the packages are; that the processes start is not claimed.
\<close>

section \<open>Modules\<close>

datatype token = StringToken string | ClassToken string

datatype recipe = UseClass string | UseFactory string "token list" | UseValue string

record provider =
  provide :: token
  recipe_of :: recipe

definition class_provider :: "string \<Rightarrow> provider" where
  "class_provider c = \<lparr>provide = ClassToken c, recipe_of = UseClass c\<rparr>"

definition named_class :: "string \<Rightarrow> string \<Rightarrow> provider" where
  "named_class t c = \<lparr>provide = StringToken t, recipe_of = UseClass c\<rparr>"

definition factory_provider :: "string \<Rightarrow> string \<Rightarrow> token list \<Rightarrow> provider" where
  "factory_provider t f ts = \<lparr>provide = StringToken t, recipe_of = UseFactory f ts\<rparr>"

definition value_provider :: "token \<Rightarrow> string \<Rightarrow> provider" where
  "value_provider t v = \<lparr>provide = t, recipe_of = UseValue v\<rparr>"

record nest_module =
  imports_of :: "string list"
  providers_of :: "provider list"
  exports_of :: "token list"

text \<open>Every module makes the API service by \<open>StellarApiService.create\<close> from the same four tokens.\<close>

definition api_provider :: provider where
  "api_provider = factory_provider ''APIService'' ''StellarApiService.create''
     [StringToken ''ISubqueryProject'', ClassToken ''ConnectionPoolService'', ClassToken ''EventEmitter2'',
      ClassToken ''NodeConfig'']"

definition FetchModule :: nest_module where
  "FetchModule = \<lparr>imports_of = [''CoreModule''], providers_of = [
     api_provider,
     named_class ''IBlockchainService'' ''BlockchainService'',
     class_provider ''IndexerManager'',
     class_provider ''MultiChainRewindService'',
     factory_provider ''IBlockDispatcher'' ''blockDispatcherFactory''
       [ClassToken ''NodeConfig'', ClassToken ''EventEmitter2'', StringToken ''IProjectService'',
        StringToken ''IProjectUpgradeService'', ClassToken ''InMemoryCacheService'', ClassToken ''StoreService'',
        StringToken ''IStoreModelProvider'', ClassToken ''PoiSyncService'', StringToken ''ISubqueryProject'',
        ClassToken ''DynamicDsService'', StringToken ''IUnfinalizedBlocksService'',
        ClassToken ''ConnectionPoolStateManager'', StringToken ''IBlockchainService'',
        ClassToken ''IndexerManager'', ClassToken ''MultiChainRewindService'', ClassToken ''MonitorService''],
     class_provider ''FetchService'',
     \<lparr>provide = ClassToken ''DictionaryService'', recipe_of = UseClass ''StellarDictionaryService''\<rparr>,
     class_provider ''DsProcessorService'',
     class_provider ''DynamicDsService'',
     named_class ''IProjectService'' ''ProjectService'',
     named_class ''IUnfinalizedBlocksService'' ''UnfinalizedBlocksService''], exports_of = []\<rparr>"

definition WorkerFetchModule :: nest_module where
  "WorkerFetchModule = \<lparr>imports_of = [''WorkerCoreModule''], providers_of = [
     class_provider ''DsProcessorService'',
     class_provider ''IndexerManager'',
     api_provider,
     named_class ''IProjectService'' ''ProjectService'',
     named_class ''IBlockchainService'' ''BlockchainService'',
     class_provider ''WorkerService''], exports_of = []\<rparr>"

definition TestingFeatureModule :: nest_module where
  "TestingFeatureModule = \<lparr>imports_of = [''TestingCoreModule''], providers_of = [
     named_class ''IProjectService'' ''ProjectService'',
     api_provider,
     named_class ''IUnfinalizedBlocksService'' ''UnfinalizedBlocksService'',
     named_class ''IBlockchainService'' ''BlockchainService'',
     class_provider ''TestRunner'',
     named_class ''IIndexerManager'' ''IndexerManager'',
     class_provider ''IndexerManager'',
     class_provider ''DsProcessorService'',
     class_provider ''DynamicDsService''], exports_of = [ClassToken ''TestRunner'']\<rparr>"

definition ReindexFeatureModule :: nest_module where
  "ReindexFeatureModule = \<lparr>imports_of = [], providers_of = [
     factory_provider ''IStoreModelProvider'' ''storeModelFactory''
       [ClassToken ''NodeConfig'', ClassToken ''EventEmitter2'', ClassToken ''Sequelize''],
     class_provider ''StoreService'',
     class_provider ''ReindexService'',
     class_provider ''ForceCleanService'',
     named_class ''UnfinalizedBlocksService'' ''UnfinalizedBlocksService'',
     named_class ''DynamicDsService'' ''DynamicDsService'',
     class_provider ''DsProcessorService'',
     class_provider ''ConnectionPoolService'',
     class_provider ''ConnectionPoolStateManager'',
     api_provider,
     named_class ''IBlockchainService'' ''BlockchainService'',
     class_provider ''SchedulerRegistry'',
     class_provider ''MultiChainRewindService''], exports_of = []\<rparr>"

text \<open>\<open>ConfigureModule.register\<close>: a global module of values.\<close>

definition configure_register :: nest_module where
  "configure_register = \<lparr>imports_of = [], providers_of = [
     value_provider (ClassToken ''NodeConfig'') ''nodeConfig'',
     value_provider (StringToken ''ISubqueryProject'') ''project'',
     value_provider (StringToken ''IProjectUpgradeService'') ''project'',
     value_provider (StringToken ''Null'') ''null''],
   exports_of = [ClassToken ''NodeConfig'', StringToken ''ISubqueryProject'',
     StringToken ''IProjectUpgradeService'', StringToken ''Null'']\<rparr>"

text \<open>
  The root modules of the processes, by the modules they import: \<open>app.module.ts\<close>,
  \<open>indexer/worker/worker.module.ts\<close>, \<open>subcommands/testing.module.ts\<close>, \<open>subcommands/reindex.module.ts\<close> and
  \<open>subcommands/forceClean.module.ts\<close>. The options given to \<open>forRoot\<close> are left out.
\<close>

definition AppModule :: "string list" where
  "AppModule = [''DbModule'', ''EventEmitterModule'', ''ConfigureModule'', ''ScheduleModule'', ''CoreModule'',
     ''FetchModule'', ''MetaModule'']"

definition WorkerModule :: "string list" where
  "WorkerModule = [''DbModule'', ''EventEmitterModule'', ''ConfigureModule'', ''ScheduleModule'', ''WorkerCoreModule'',
     ''WorkerFetchModule'']"

definition TestingModule :: "string list" where
  "TestingModule = [''DbModule'', ''ConfigureModule'', ''EventEmitterModule'', ''ScheduleModule'', ''TestingFeatureModule'']"

definition ReindexModule :: "string list" where
  "ReindexModule = [''DbModule'', ''ConfigureModule'', ''ReindexFeatureModule'', ''EventEmitterModule'']"

definition ForceCleanModule :: "string list" where
  "ForceCleanModule = [''DbModule'', ''ConfigureModule'', ''ForceCleanFeatureModule'']"

section \<open>Constructors\<close>

definition IndexerManager_tokens :: "token list" where
  "IndexerManager_tokens = [StringToken ''APIService'', ClassToken ''NodeConfig'', ClassToken ''SandboxService'',
     ClassToken ''DsProcessorService'', ClassToken ''DynamicDsService'', StringToken ''IUnfinalizedBlocksService'',
     StringToken ''IBlockchainService'']"

definition BlockchainService_tokens :: "token list" where
  "BlockchainService_tokens = [StringToken ''APIService'']"

definition StellarDictionaryService_tokens :: "token list" where
  "StellarDictionaryService_tokens = [StringToken ''ISubqueryProject'', ClassToken ''NodeConfig'',
     ClassToken ''EventEmitter2'', ClassToken ''DsProcessorService'']"

definition WorkerService_tokens :: "token list" where
  "WorkerService_tokens = [StringToken ''APIService'', ClassToken ''IndexerManager'', StringToken ''IProjectService'',
     StringToken ''IProjectUpgradeService'', ClassToken ''NodeConfig'']"

text \<open>The classes of other packages have constructors that are a parameter.\<close>

definition constructor_tokens :: "(string \<Rightarrow> token list) \<Rightarrow> string \<Rightarrow> token list" where
  "constructor_tokens package_tokens c =
     (if c = ''IndexerManager'' then IndexerManager_tokens
      else if c = ''BlockchainService'' then BlockchainService_tokens
      else if c = ''StellarDictionaryService'' then StellarDictionaryService_tokens
      else if c = ''WorkerService'' then WorkerService_tokens
      else package_tokens c)"

definition dependencies :: "(string \<Rightarrow> token list) \<Rightarrow> provider \<Rightarrow> token list" where
  "dependencies package_tokens p = (case recipe_of p of
       UseClass c \<Rightarrow> constructor_tokens package_tokens c
     | UseFactory f ts \<Rightarrow> ts
     | UseValue v \<Rightarrow> [])"

section \<open>Making instances\<close>

text \<open>
  A token is found among the tokens that are exported to the module, or made by a provider of the
  module once everything the provider needs is made.
\<close>

inductive constructible :: "(string \<Rightarrow> token list) \<Rightarrow> token set \<Rightarrow> provider list \<Rightarrow> token \<Rightarrow> bool"
  for package_tokens visible providers where
  imported: "t \<in> visible \<Longrightarrow> constructible package_tokens visible providers t"
| made: "p \<in> set providers \<Longrightarrow>
         \<forall>d\<in>set (dependencies package_tokens p). constructible package_tokens visible providers d \<Longrightarrow>
         constructible package_tokens visible providers (provide p)"

inductive_cases constructibleE: "constructible package_tokens visible providers t"

text \<open>\<open>can_start\<close>: everything that the providers of a module need can be made.\<close>

definition can_start :: "(string \<Rightarrow> token list) \<Rightarrow> token set \<Rightarrow> provider list \<Rightarrow> bool" where
  "can_start package_tokens visible providers =
     (\<forall>p\<in>set providers. \<forall>d\<in>set (dependencies package_tokens p). constructible package_tokens visible providers d)"

definition external_tokens :: "(string \<Rightarrow> token list) \<Rightarrow> provider list \<Rightarrow> token list" where
  "external_tokens package_tokens providers =
     filter (\<lambda>t. t \<notin> set (map provide providers)) (concat (map (dependencies package_tokens) providers))"

lemma can_start_needs:
  assumes "can_start package_tokens visible providers"
  shows "set (external_tokens package_tokens providers) \<subseteq> visible"
  using assms by (auto simp: can_start_def external_tokens_def elim!: constructibleE)

lemmas module_defs = api_provider_def class_provider_def named_class_def factory_provider_def value_provider_def
  FetchModule_def WorkerFetchModule_def TestingFeatureModule_def ReindexFeatureModule_def

lemmas token_defs = dependencies_def constructor_tokens_def IndexerManager_tokens_def BlockchainService_tokens_def
  StellarDictionaryService_tokens_def WorkerService_tokens_def

section \<open>What the modules need from others\<close>

definition configured_tokens :: "token set" where
  "configured_tokens = {ClassToken ''NodeConfig'', StringToken ''ISubqueryProject'', ClassToken ''EventEmitter2''}"

definition fetch_requires :: "token set" where
  "fetch_requires = configured_tokens \<union> {StringToken ''IProjectUpgradeService'', ClassToken ''ConnectionPoolService'',
     ClassToken ''SandboxService'', ClassToken ''InMemoryCacheService'', ClassToken ''StoreService'',
     StringToken ''IStoreModelProvider'', ClassToken ''PoiSyncService'', ClassToken ''ConnectionPoolStateManager'',
     ClassToken ''MonitorService''}"

definition worker_requires :: "token set" where
  "worker_requires = configured_tokens \<union> {StringToken ''IProjectUpgradeService'', ClassToken ''ConnectionPoolService'',
     ClassToken ''SandboxService'', ClassToken ''DynamicDsService'', StringToken ''IUnfinalizedBlocksService''}"

definition testing_requires :: "token set" where
  "testing_requires = configured_tokens \<union> {ClassToken ''ConnectionPoolService'', ClassToken ''SandboxService''}"

definition reindex_requires :: "token set" where
  "reindex_requires = {ClassToken ''NodeConfig'', StringToken ''ISubqueryProject'', ClassToken ''EventEmitter2'',
     ClassToken ''Sequelize''}"

lemmas requires_defs = fetch_requires_def worker_requires_def testing_requires_def reindex_requires_def
  configured_tokens_def

lemma fetch_needs: "can_start package_tokens visible (providers_of FetchModule) \<Longrightarrow> fetch_requires \<subseteq> visible"
  by (rule order_trans [OF _ can_start_needs])
    (simp_all add: external_tokens_def requires_defs module_defs token_defs)

lemma worker_needs: "can_start package_tokens visible (providers_of WorkerFetchModule) \<Longrightarrow> worker_requires \<subseteq> visible"
  by (rule order_trans [OF _ can_start_needs])
    (simp_all add: external_tokens_def requires_defs module_defs token_defs)

lemma testing_needs: "can_start package_tokens visible (providers_of TestingFeatureModule) \<Longrightarrow> testing_requires \<subseteq> visible"
  by (rule order_trans [OF _ can_start_needs])
    (simp_all add: external_tokens_def requires_defs module_defs token_defs)

lemma reindex_needs: "can_start package_tokens visible (providers_of ReindexFeatureModule) \<Longrightarrow> reindex_requires \<subseteq> visible"
  by (rule order_trans [OF _ can_start_needs])
    (simp_all add: external_tokens_def requires_defs module_defs token_defs)

text \<open>The tokens of the configuration that the modules need are exported by the configuration module, but
  for the event emitter.\<close>

lemma configured_tokens_exported:
  "configured_tokens \<subseteq> insert (ClassToken ''EventEmitter2'') (set (exports_of configure_register))"
  by (simp add: configured_tokens_def configure_register_def)

end
