(* ===== verification/Node_Startup.thy ===== *)
theory Node_Startup
  imports Prelude Js_Text "HOL-Library.Sublist"
begin

text \<open>
  How the processes start: \<open>bootstrap\<close> (\<open>packages/node/src/init.ts\<close>), \<open>initWorker\<close>
  (\<open>indexer/worker/worker.ts\<close>), the subcommands (\<open>subcommands/*.init.ts\<close>,
  \<open>subcommands/testing.service.ts\<close>), the command line (\<open>yargs.ts\<close>, \<open>main.ts\<close>), and the wrappers \<open>getNetwork\<close>
  (\<open>stellar/stellar.server.ts\<close>) and \<open>retryOnFailEth\<close> (\<open>utils/project.ts\<close>).

  What the packages do (making the application, initialising the services, listening) are actions
  on a state of their own, the fields of \<open>startup_services\<close>. The code decides their order, what is
  passed between them and what happens when one throws. Logging is left out.
\<close>

section \<open>The services of the process\<close>

record 's startup_services =
  sv_getValidPort :: "int option \<Rightarrow> ('s, int option) action"
  sv_missing_is_null :: bool
  sv_createApp :: "('s, unit) action"
  sv_initApp :: "('s, unit) action"
  sv_get :: "string \<Rightarrow> ('s, unit) action"
  sv_initProject :: "int option \<Rightarrow> ('s, unit) action"
  sv_startHeight :: "'s \<Rightarrow> int"
  sv_initFetch :: "int \<Rightarrow> ('s, unit) action"
  sv_shutdownHooks :: "('s, unit) action"
  sv_listen :: "int \<Rightarrow> ('s, unit) action"

text \<open>
  How the start ends: running on a port, the process left with an error and its cause, or the
  promise of \<open>bootstrap\<close> rejected.
\<close>

datatype start_outcome = Running int | ProcessExit js_error "js_error option" | Rejected js_error

section \<open>The node\<close>

text \<open>
  A number in a template literal; a missing one is \<open>null\<close> or \<open>undefined\<close>, whichever the package
  returns (\<open>sv_missing_is_null\<close>), and adding ten to these gives \<open>10\<close> or \<open>NaN\<close>.
\<close>

definition port_text :: "bool \<Rightarrow> int option \<Rightarrow> string" where
  "port_text null p = (case p of None \<Rightarrow> if null then ''null'' else ''undefined'' | Some i \<Rightarrow> int_string i)"

definition port_plus_10_text :: "bool \<Rightarrow> int option \<Rightarrow> string" where
  "port_plus_10_text null p = (case p of None \<Rightarrow> if null then ''10'' else ''NaN'' | Some i \<Rightarrow> int_string (i + 10))"

definition no_port_message :: "bool \<Rightarrow> int option \<Rightarrow> string" where
  "no_port_message null port =
     ''Unable to find available port (tried ports in range ('' @ port_text null port @ ''..'' @
     port_plus_10_text null port @ '')). Try setting a free port manually by setting the --port flag''"

text \<open>The body of the \<open>try\<close>.\<close>

definition start_node :: "'s startup_services \<Rightarrow> int \<Rightarrow> ('s, unit) action" where
  "start_node sv port =
     andThen (sv_createApp sv)
    (andThen (sv_initApp sv)
    (andThen (sv_get sv ''IProjectService'')
    (andThen (sv_get sv ''FetchService'')
    (andThen (sv_initProject sv None)
    (andThen (\<lambda>s. sv_initFetch sv (sv_startHeight sv s) s)
    (andThen (sv_shutdownHooks sv)
             (sv_listen sv port)))))))"

definition bootstrap :: "'s startup_services \<Rightarrow> int option \<Rightarrow> 's \<Rightarrow> start_outcome \<times> 's" where
  "bootstrap sv argv_port s =
     (case sv_getValidPort sv argv_port s of
        (Inl e, s') \<Rightarrow> (Rejected e, s')
      | (Inr port, s') \<Rightarrow>
          (if \<not> truthy_num port then (ProcessExit (Error (no_port_message (sv_missing_is_null sv) port)) None, s')
           else (case start_node sv (the port) s' of
                   (Inl e, s'') \<Rightarrow> (ProcessExit (Error ''Node failed to start'') (Some e), s'')
                 | (Inr _, s'') \<Rightarrow> (Running (the port), s''))))"

section \<open>A worker\<close>

text \<open>\<open>initWorker\<close>: an error is logged and thrown again. \<open>initWorkerServices\<close> is of the package.\<close>

definition initWorker :: "'s startup_services \<Rightarrow> ('s \<Rightarrow> 's) \<Rightarrow> int option \<Rightarrow> ('s, unit) action" where
  "initWorker sv initWorkerServices startHeight =
     andThen (sv_createApp sv)
    (andThen (sv_initApp sv)
    (andThen (sv_get sv ''IProjectService'')
    (andThen (sv_initProject sv startHeight)
    (andThen (sv_get sv ''WorkerService'')
             (\<lambda>s. (Inr (), initWorkerServices s))))))"

section \<open>Subcommands\<close>

text \<open>\<open>TestingService.getTestRunner\<close>: the context is made and the project
  initialised before the runner is taken from it. The pair of the context's \<open>close\<close> and the runner, which
  the caller gets, is left out.\<close>

definition getTestRunner :: "'s startup_services \<Rightarrow> ('s, unit) action" where
  "getTestRunner sv =
     andThen (sv_createApp sv)
    (andThen (sv_initApp sv)
    (andThen (sv_get sv ''IProjectService'')
    (andThen (sv_initProject sv None)
             (sv_get sv ''TestRunner''))))"

text \<open>\<open>testingInit\<close>: the process exits with code 0 unless configuring or running throws.\<close>

definition testingInit :: "('s, unit) action \<Rightarrow> ('s, unit) action \<Rightarrow> 's \<Rightarrow> start_outcome option \<times> 's" where
  "testingInit getInstance run s =
     (case andThen getInstance run s of
        (Inl e, s') \<Rightarrow> (Some (ProcessExit (Error ''Testing failed'') (Some e)), s')
      | (Inr _, s') \<Rightarrow> (None, s'))"

text \<open>\<open>forceCleanInit\<close> and \<open>reindexInit\<close> hand their module to functions of the package.\<close>

definition forceCleanInit :: "(string \<Rightarrow> ('s, unit) action) \<Rightarrow> ('s, unit) action" where
  "forceCleanInit forceClean = forceClean ''ForceCleanModule''"

definition reindexInit :: "(string \<Rightarrow> int \<Rightarrow> ('s, unit) action) \<Rightarrow> int \<Rightarrow> ('s, unit) action" where
  "reindexInit baseReindexInit targetHeight = baseReindexInit ''ReindexModule'' targetHeight"

section \<open>The command line\<close>

text \<open>
  \<open>yargsBuilder\<close> of the package gets what the subcommands run and the options of the program's own;
  the modules of the subcommands are loaded when one is run.
\<close>

record root_option =
  opt_demandOption :: bool
  opt_type :: string
  opt_describe :: string

record ('t, 'c, 'r) yargs_input =
  yi_initTesting :: 't
  yi_initForceClean :: 'c
  yi_initReindex :: "int \<Rightarrow> 'r"
  yi_rootOptions :: "(string \<times> root_option) list"

definition yargsOptions ::
  "(('s \<Rightarrow> start_outcome option \<times> 's, ('s, unit) action, ('s, unit) action) yargs_input \<Rightarrow> 'o) \<Rightarrow>
   ('s, unit) action \<Rightarrow> ('s, unit) action \<Rightarrow> (string \<Rightarrow> ('s, unit) action) \<Rightarrow>
   (string \<Rightarrow> int \<Rightarrow> ('s, unit) action) \<Rightarrow> 'o" where
  "yargsOptions yargsBuilder getInstance run forceClean baseReindexInit = yargsBuilder
     \<lparr>yi_initTesting = testingInit getInstance run,
      yi_initForceClean = forceCleanInit forceClean,
      yi_initReindex = reindexInit baseReindexInit,
      yi_rootOptions = [(''soroban-network-endpoint'',
        \<lparr>opt_demandOption = False, opt_type = ''string'',
         opt_describe = ''Blockchain network endpoint to connect''\<rparr>)]\<rparr>"

text \<open>The arguments the program reads; \<open>argv_positional\<close> is \<open>argv._\<close>, whose numbers are parsed.\<close>

record node_argv =
  argv_positional :: "js_value list"
  argv_port :: "int option"
  argv_debug :: "string option"
  argv_outputFmt :: "string option"
  argv_logLevel :: "string option"

text \<open>
  \<open>main.ts\<close>: the logger is initialised before anything that needs it is loaded; the node starts only
  when there is no subcommand. \<open>BigInt.prototype.toJSON\<close> is set before.
\<close>

definition bigint_toJSON :: "int \<Rightarrow> js_value" where
  "bigint_toJSON n = JStr (int_string n)"

definition main ::
  "(string option \<Rightarrow> string option \<Rightarrow> string option \<Rightarrow> 's \<Rightarrow> 's) \<Rightarrow> 's startup_services \<Rightarrow> node_argv \<Rightarrow> 's \<Rightarrow>
   start_outcome option \<times> 's" where
  "main initLogger sv argv s =
     (let s' = initLogger (argv_debug argv) (argv_outputFmt argv) (argv_logLevel argv) s
      in if \<not> (case argv_positional argv of [] \<Rightarrow> False | v # _ \<Rightarrow> truthy_js v)
         then map_prod Some id (bootstrap sv (argv_port argv) s')
         else (None, s'))"

text \<open>\<open>worker.ts\<close>: the logger first, then the host, which exposes \<open>initWorker\<close> to the main thread.\<close>

definition worker_main ::
  "(string option \<Rightarrow> string option \<Rightarrow> string option \<Rightarrow> 's \<Rightarrow> 's) \<Rightarrow>
   (string list \<Rightarrow> (string \<times> (int option \<Rightarrow> ('s, unit) action)) list \<Rightarrow> 'h) \<Rightarrow>
   's startup_services \<Rightarrow> ('s \<Rightarrow> 's) \<Rightarrow> node_argv \<Rightarrow> 's \<Rightarrow> 'h \<times> 's" where
  "worker_main initLogger createWorkerHost sv initWorkerServices argv s =
     (let s' = initLogger (argv_debug argv) (argv_outputFmt argv) (argv_logLevel argv) s
      in (createWorkerHost [] [(''initWorker'', initWorker sv initWorkerServices)], s'))"

section \<open>Wrappers\<close>

text \<open>\<open>StellarServer.getNetwork\<close>: the root document of Horizon.\<close>

record StellarNetwork =
  network_passphrase :: string
  history_latest_ledger :: string
  network_name :: string

definition getNetwork ::
  "(string \<Rightarrow> string result) \<Rightarrow> (string \<Rightarrow> ('s, StellarNetwork) action) \<Rightarrow> string \<Rightarrow> ('s, StellarNetwork) action" where
  "getNetwork normalise_url http_get serverURL s =
     (case normalise_url serverURL of
        Inl e \<Rightarrow> (Inl e, s)
      | Inr url \<Rightarrow> http_get url s)"

text \<open>
  \<open>retryOnFailEth(request, errors)\<close>: \<open>retryOnFail\<close> of the package is given the predicate that says
  which errors are retried. \<open>reason\<close> is the \<open>reason\<close> of an error, if it has one; \<open>errors.find\<close> returns
  the element found, so an empty text is found but is falsy.
\<close>

definition handledErrors :: "string list" where
  "handledErrors = [''timeout'']"

definition retryOnFailEth ::
  "(('s, 'a) action \<Rightarrow> ('e \<Rightarrow> bool) \<Rightarrow> ('s, 'a) action) \<Rightarrow> ('e \<Rightarrow> string option) \<Rightarrow>
   ('s, 'a) action \<Rightarrow> string list option \<Rightarrow> ('s, 'a) action" where
  "retryOnFailEth retryOnFail reason request errors =
     retryOnFail request
       (\<lambda>e. truthy_str (find (\<lambda>t. Some t = reason e) (case errors of None \<Rightarrow> handledErrors | Some es \<Rightarrow> es)))"

section \<open>The order of the start\<close>

text \<open>
  Any services, with a log: every call leaves what was called, its result and the state after it. The
  services themselves see their own state only.
\<close>

datatype startup_call =
    InitLogger "string option" "string option" "string option"
  | CreateApp | InitApp | GetService string | InitProject "int option" | InitFetch int | ShutdownHooks | Listen int

type_synonym 's start_log = "(startup_call \<times> unit result \<times> 's) list"

definition logged :: "startup_call \<Rightarrow> ('s, unit) action \<Rightarrow> ('s \<times> 's start_log, unit) action" where
  "logged call a = (\<lambda>(s, log). case a s of (r, s') \<Rightarrow> (r, (s', log @ [(call, r, s')])))"

definition logged_services :: "'s startup_services \<Rightarrow> ('s \<times> 's start_log) startup_services" where
  "logged_services sv = \<lparr>
     sv_getValidPort = (\<lambda>p (s, log). case sv_getValidPort sv p s of (r, s') \<Rightarrow> (r, (s', log))),
     sv_missing_is_null = sv_missing_is_null sv,
     sv_createApp = logged CreateApp (sv_createApp sv),
     sv_initApp = logged InitApp (sv_initApp sv),
     sv_get = (\<lambda>n. logged (GetService n) (sv_get sv n)),
     sv_initProject = (\<lambda>h. logged (InitProject h) (sv_initProject sv h)),
     sv_startHeight = (\<lambda>(s, log). sv_startHeight sv s),
     sv_initFetch = (\<lambda>h. logged (InitFetch h) (sv_initFetch sv h)),
     sv_shutdownHooks = logged ShutdownHooks (sv_shutdownHooks sv),
     sv_listen = (\<lambda>p. logged (Listen p) (sv_listen sv p))\<rparr>"

definition logged_logger ::
  "(string option \<Rightarrow> string option \<Rightarrow> string option \<Rightarrow> 's \<Rightarrow> 's) \<Rightarrow>
   string option \<Rightarrow> string option \<Rightarrow> string option \<Rightarrow> 's \<times> 's start_log \<Rightarrow> 's \<times> 's start_log" where
  "logged_logger initLogger d f l = (\<lambda>(s, log).
     (initLogger d f l s, log @ [(InitLogger d f l, Inr (), initLogger d f l s)]))"

definition start_order :: "int \<Rightarrow> int \<Rightarrow> startup_call list" where
  "start_order height port =
     [CreateApp, InitApp, GetService ''IProjectService'', GetService ''FetchService'', InitProject None,
      InitFetch height, ShutdownHooks, Listen port]"

text \<open>
  The log of a start on a port, and what the start ends with: the calls come in one order, all but the
  last succeed, fetching is initialised with the height of the state that the initialisation of the
  project left, and the outcome is that of the last call, which is to listen if it succeeds.
\<close>

definition start_trace :: "('s \<Rightarrow> int) \<Rightarrow> int \<Rightarrow> 's start_log \<Rightarrow> unit result \<Rightarrow> bool" where
  "start_trace startHeight port log r \<longleftrightarrow>
     log \<noteq> [] \<and> (\<exists>h. prefix (map fst log) (start_order h port)) \<and>
     list_all (\<lambda>(call, r', s). r' = Inr ()) (butlast log) \<and>
     list_all (\<lambda>((before, _, s), (call, _)). case call of
         InitFetch h \<Rightarrow> before = InitProject None \<and> h = startHeight s
       | _ \<Rightarrow> True) (zip log (tl log)) \<and>
     fst (snd (last log)) = r \<and> (fst (last log) = Listen port \<or> isl r)"

lemma logged_call:
  "logged c a (s, log) = (case a s of (r, s') \<Rightarrow> (r, (s', log @ [(c, r, s')])))"
  by (simp add: logged_def)

lemma logged_calls:
  "andThen (\<lambda>s. logged (c s) (a s) s) b (s, log) =
     (case a (s, log) s of
        (Inl e, s') \<Rightarrow> (Inl e, (s', log @ [(c (s, log), Inl e, s')]))
      | (Inr u, s') \<Rightarrow> b (s', log @ [(c (s, log), Inr (), s')]))"
  by (simp add: andThen_def logged_def split: prod.split sum.split)

lemmas logged_run = logged_call logged_calls logged_calls [of "\<lambda>_. c" "\<lambda>_. a" for c a]

lemma start_node_trace:
  assumes "start_node (logged_services sv) port (s, log0) = (r, (s', log))"
  shows "\<exists>started. log = log0 @ started \<and> start_trace (sv_startHeight sv) port started r"
  using assms
  by (auto simp: start_node_def logged_services_def logged_run start_trace_def start_order_def
      split: prod.splits sum.splits)

lemma logged_services_sel:
  "sv_getValidPort (logged_services sv) p (s, log) = (case sv_getValidPort sv p s of (r, s') \<Rightarrow> (r, (s', log)))"
  "sv_missing_is_null (logged_services sv) = sv_missing_is_null sv"
  by (simp_all add: logged_services_def)

lemma bootstrap_trace:
  assumes "bootstrap (logged_services sv) p (s, log0) = (outcome, (s', log))"
  shows "\<exists>started. log = log0 @ started \<and>
    (case fst (sv_getValidPort sv p s) of
       Inl e \<Rightarrow> outcome = Rejected e \<and> started = []
     | Inr port \<Rightarrow>
         (if \<not> truthy_num port
          then outcome = ProcessExit (Error (no_port_message (sv_missing_is_null sv) port)) None \<and> started = []
          else (\<exists>r. start_trace (sv_startHeight sv) (the port) started r \<and>
            outcome = (case r of Inr _ \<Rightarrow> Running (the port)
              | Inl e \<Rightarrow> ProcessExit (Error ''Node failed to start'') (Some e)))))"
proof -
  obtain found s1 where found: "sv_getValidPort sv p s = (found, s1)" by fastforce
  show ?thesis
  proof (cases found)
    case (Inr port)
    show ?thesis
    proof (cases "truthy_num port")
      case True
      obtain r s2 log1 where run: "start_node (logged_services sv) (the port) (s1, log0) = (r, (s2, log1))"
        by (metis prod.exhaust_sel)
      obtain started where "log1 = log0 @ started" "start_trace (sv_startHeight sv) (the port) started r"
        using start_node_trace [OF run] by blast
      then show ?thesis
        using assms by (auto simp: bootstrap_def logged_services_sel found Inr True run split: sum.splits)
    qed (use assms in \<open>auto simp: bootstrap_def logged_services_sel found Inr\<close>)
  qed (use assms in \<open>auto simp: bootstrap_def logged_services_sel found\<close>)
qed

section \<open>Properties\<close>

text \<open>
  C37: The process starts in one order and stops at the first failure, whatever its services do. The
  logger is initialised first; with a subcommand nothing else is called. Otherwise, with a port, the
  calls are \<open>start_order\<close> up to and including the first that fails: the services are looked up
  before they are initialised, fetching starts at the height that the project has in the state its
  initialisation left, and the port is opened last. The node runs on that port when every call has
  succeeded; otherwise the process exits with the error of the last call as cause. Without a port
  nothing more is called, and the message is made from the missing port, not from the ports tried.
\<close>

theorem main_order:
  assumes "main (logged_logger initLogger) (logged_services sv) argv (s, []) = (outcome, (s', log))"
  shows "\<exists>started. log = (InitLogger (argv_debug argv) (argv_outputFmt argv) (argv_logLevel argv), Inr (),
        initLogger (argv_debug argv) (argv_outputFmt argv) (argv_logLevel argv) s) # started \<and>
    (if argv_positional argv \<noteq> [] \<and> truthy_js (hd (argv_positional argv)) then outcome = None \<and> started = []
     else
       (case fst (sv_getValidPort sv (argv_port argv)
           (initLogger (argv_debug argv) (argv_outputFmt argv) (argv_logLevel argv) s)) of
          Inl e \<Rightarrow> outcome = Some (Rejected e) \<and> started = []
        | Inr port \<Rightarrow>
            (if \<not> truthy_num port
             then outcome = Some (ProcessExit (Error (no_port_message (sv_missing_is_null sv) port)) None) \<and> started = []
             else (\<exists>r. start_trace (sv_startHeight sv) (the port) started r \<and>
               outcome = Some (case r of Inr _ \<Rightarrow> Running (the port)
                 | Inl e \<Rightarrow> ProcessExit (Error ''Node failed to start'') (Some e))))))"
proof -
  let ?logger = "InitLogger (argv_debug argv) (argv_outputFmt argv) (argv_logLevel argv)"
  let ?s = "initLogger (argv_debug argv) (argv_outputFmt argv) (argv_logLevel argv) s"
  show ?thesis
  proof (cases "argv_positional argv \<noteq> [] \<and> truthy_js (hd (argv_positional argv))")
    case True
    then show ?thesis
      using assms by (auto simp: main_def logged_logger_def Let_def neq_Nil_conv)
  next
    case False
    then have boot: "map_prod Some id (bootstrap (logged_services sv) (argv_port argv) (?s, [(?logger, Inr (), ?s)]))
        = (outcome, (s', log))"
      using assms by (auto simp: main_def logged_logger_def Let_def split: list.splits)
    then obtain out where "bootstrap (logged_services sv) (argv_port argv) (?s, [(?logger, Inr (), ?s)]) = (out, (s', log))"
        and out: "outcome = Some out"
      by (cases "bootstrap (logged_services sv) (argv_port argv) (?s, [(?logger, Inr (), ?s)])") auto
    from bootstrap_trace [OF this(1)] False show ?thesis
      by (auto simp: out split: sum.splits)
  qed
qed

text \<open>Services whose project starts at height 42, known only once it is initialised.\<close>

definition sample_startup :: "int startup_services" where
  "sample_startup = \<lparr>
     sv_getValidPort = (\<lambda>p s. (Inr (Some 3000), s)),
     sv_missing_is_null = True,
     sv_createApp = (\<lambda>s. (Inr (), s)),
     sv_initApp = (\<lambda>s. (Inr (), s)),
     sv_get = (\<lambda>n s. (Inr (), s)),
     sv_initProject = (\<lambda>h s. (Inr (), 42)),
     sv_startHeight = (\<lambda>s. s),
     sv_initFetch = (\<lambda>h s. (if h = 42 then Inr () else Inl (Error ''wrong height''), s)),
     sv_shutdownHooks = (\<lambda>s. (Inr (), s)),
     sv_listen = (\<lambda>p s. (if p = 3000 then Inr () else Inl (Error ''wrong port''), s))\<rparr>"

definition sample_argv :: node_argv where
  "sample_argv = \<lparr>argv_positional = [], argv_port = None, argv_debug = None, argv_outputFmt = None, argv_logLevel = None\<rparr>"

theorem main_order_witness:
  "\<exists>started r s'. main (logged_logger (\<lambda>d f l s. s)) (logged_services sample_startup) sample_argv (0, []) =
      (Some (Running 3000), (s', (InitLogger None None None, Inr (), 0) # started)) \<and>
    start_trace (sv_startHeight sample_startup) 3000 started r"
proof -
  let ?run = "main (logged_logger (\<lambda>d f l s. s)) (logged_services sample_startup) sample_argv (0, [])"
  have "fst ?run = Some (Running 3000)" by code_simp
  then obtain s' log where run: "?run = (Some (Running 3000), (s', log))"
    by (metis prod.exhaust_sel)
  have "fst (sv_getValidPort sample_startup p s) = Inr (Some 3000)" for p s
    by (simp add: sample_startup_def)
  with main_order [OF run] run show ?thesis
    by (auto simp: sample_argv_def truthy_num_def)
qed

end
