(* ===== verification/Release_Script.thy ===== *)
theory Release_Script
  imports Js_Text
begin

text \<open>
  The scripts that publish a release: \<open>.github/actions/create-release/gh-release-script.js\<close> finds the
  section of a version in the change log of a package and makes the request that creates the
  release, \<open>.github/actions/create-prerelease/remove-stable-version.js\<close> edits a package file.

  Reading files and sending the request are left to the caller: the change log is a text, the
  request a value. What is printed is left out, and so is the layout of the package file written
  back. The lemmas at the end say what the section is.
\<close>

section \<open>Lines\<close>

text \<open>\<open>text.split('\n')\<close>: one element more than there are line feeds.\<close>

fun split_lines :: "string \<Rightarrow> string list" where
  "split_lines [] = [[]]"
| "split_lines (c # cs) =
     (if c = CHR 0x0A then [] # split_lines cs
      else case split_lines cs of [] \<Rightarrow> [[c]] | l # ls \<Rightarrow> (c # l) # ls)"

definition unlines :: "string list \<Rightarrow> string" where
  "unlines ls = concat (map (\<lambda>l. l @ [CHR 0x0A]) ls)"

lemma split_lines_nonempty: "split_lines t \<noteq> []"
  by (induction t) (auto split: list.split)

lemma split_lines_unlines: "unlines (split_lines t) = t @ [CHR 0x0A]"
  using split_lines_nonempty
  by (induction t) (auto simp: unlines_def split: list.split)

section \<open>The heading of a release\<close>

text \<open>
  The regular expression of the script, from a given position: two hashes, a space, a bracketed
  version of at least two numbers, a hyphen between spaces, and a date. A run of digits is
  followed by another character, so that matching it greedily loses no match.
\<close>

definition strip_prefix :: "string \<Rightarrow> string \<Rightarrow> string option" where
  "strip_prefix p t = (if str_startsWith t p then Some (drop (length p) t) else None)"

definition strip_digits :: "string \<Rightarrow> string option" where
  "strip_digits t = (if takeWhile is_digit t = [] then None else Some (dropWhile is_digit t))"

fun strip_dotted :: "nat \<Rightarrow> string \<Rightarrow> string" where
  "strip_dotted 0 t = t"
| "strip_dotted (Suc n) t =
     (case Option.bind (strip_prefix ''.'' t) strip_digits of None \<Rightarrow> t | Some t' \<Rightarrow> strip_dotted n t')"

definition date_at :: "string \<Rightarrow> bool" where
  "date_at t \<longleftrightarrow> 10 \<le> length t \<and>
     list_all is_digit (take 4 t) \<and> t ! 4 = CHR ''-'' \<and> list_all is_digit (take 2 (drop 5 t)) \<and>
     t ! 7 = CHR ''-'' \<and> list_all is_digit (take 2 (drop 8 t))"

definition heading_at :: "string \<Rightarrow> bool" where
  "heading_at t =
     (case Option.bind (strip_prefix ''## ['' t) strip_digits of
        None \<Rightarrow> False
      | Some t1 \<Rightarrow>
          (case Option.bind (strip_prefix ''.'' t1) strip_digits of
             None \<Rightarrow> False
           | Some t2 \<Rightarrow>
               (case strip_prefix ''] - '' (strip_dotted (length t2) t2) of
                  None \<Rightarrow> False
                | Some t3 \<Rightarrow> date_at t3)))"

text \<open>\<open>regex.test(line)\<close> looks for a match anywhere in the line.\<close>

fun is_release_heading :: "string \<Rightarrow> bool" where
  "is_release_heading [] = heading_at []"
| "is_release_heading (c # cs) = (heading_at (c # cs) \<or> is_release_heading cs)"

section \<open>The script\<close>

text \<open>\<open>gatherReleaseInfo\<close>; \<open>None\<close> when the script ends because there is no section for the version.\<close>

definition mentions_version :: "string \<Rightarrow> string \<Rightarrow> bool" where
  "mentions_version version line = str_includes line (''['' @ version @ '']'')"

definition gatherReleaseInfo :: "string \<Rightarrow> string \<Rightarrow> string option" where
  "gatherReleaseInfo version changeLogs =
     (case dropWhile (\<lambda>l. \<not> mentions_version version l) (split_lines changeLogs) of
        [] \<Rightarrow> None
      | line # lines \<Rightarrow> Some (unlines (line # takeWhile (\<lambda>l. \<not> is_release_heading l) lines)))"

record release_request =
  rel_owner :: string
  rel_name :: string
  rel_repo :: string
  rel_tag_name :: string
  rel_target_commitish :: string
  rel_body :: string

text \<open>\<open>repoName.split('/')[1]\<close> in a template literal.\<close>

definition package_part :: "string \<Rightarrow> string" where
  "package_part repoName =
     (case dropWhile (\<lambda>c. c \<noteq> CHR ''/'') repoName of
        [] \<Rightarrow> ''undefined''
      | _ # rest \<Rightarrow> takeWhile (\<lambda>c. c \<noteq> CHR ''/'') rest)"

definition publishRelease :: "string \<Rightarrow> string \<Rightarrow> string \<Rightarrow> string \<Rightarrow> release_request" where
  "publishRelease version repoName commitish releaseInfo =
     \<lparr>rel_owner = ''subquery'', rel_name = ''['' @ version @ ''] '' @ repoName, rel_repo = ''subql-stellar'',
      rel_tag_name = package_part repoName @ ''/'' @ version, rel_target_commitish = commitish,
      rel_body = releaseInfo\<rparr>"

text \<open>
  The whole script: \<open>None\<close> when it exits without a request, for a version with a hyphen or without a
  section. Failures of the request are only logged.
\<close>

definition checkForBetaVersion :: "string \<Rightarrow> bool" where
  "checkForBetaVersion version = str_includes version ''-''"

definition release_script :: "string \<Rightarrow> string \<Rightarrow> string \<Rightarrow> string \<Rightarrow> release_request option" where
  "release_script version repoName commitish changeLogs =
     (if checkForBetaVersion version then None
      else map_option (publishRelease version repoName commitish) (gatherReleaseInfo version changeLogs))"

text \<open>\<open>remove-stable-version.js\<close>: the fields of the package file to write, if it is written at all.\<close>

definition removeStableVersion :: "(string \<times> js_value) list \<Rightarrow> (string \<times> js_value) list option" where
  "removeStableVersion pJson =
     (case map_of pJson ''stableVersion'' of
        None \<Rightarrow> None
      | Some v \<Rightarrow> if truthy_js v then Some (filter (\<lambda>(k, _). k \<noteq> ''stableVersion'') pJson) else None)"

section \<open>What is released\<close>

text \<open>
  The section of a version runs from the first line that mentions it in brackets up to the next
  heading of a release.
\<close>

lemma gatherReleaseInfo_section:
  assumes "split_lines changeLogs = before @ line # body @ rest"
    and "\<forall>l\<in>set before. \<not> mentions_version version l" "mentions_version version line"
    and "\<forall>l\<in>set body. \<not> is_release_heading l" "rest = [] \<or> is_release_heading (hd rest)"
  shows "gatherReleaseInfo version changeLogs = Some (unlines (line # body))"
proof -
  have "dropWhile (\<lambda>l. \<not> mentions_version version l) (split_lines changeLogs) = line # body @ rest"
    using assms(1-3) by (simp add: dropWhile_append2)
  moreover have "takeWhile (\<lambda>l. \<not> is_release_heading l) (body @ rest) = body"
    using assms(4,5) by (cases rest) (simp_all add: takeWhile_append2 takeWhile_tail)
  ultimately show ?thesis by (simp add: gatherReleaseInfo_def)
qed

lemma gatherReleaseInfo_none:
  "gatherReleaseInfo version changeLogs = None \<longleftrightarrow>
     (\<forall>l\<in>set (split_lines changeLogs). \<not> mentions_version version l)"
proof -
  have "gatherReleaseInfo version changeLogs = None \<longleftrightarrow>
      dropWhile (\<lambda>l. \<not> mentions_version version l) (split_lines changeLogs) = []"
    by (cases "dropWhile (\<lambda>l. \<not> mentions_version version l) (split_lines changeLogs)")
      (simp_all only: gatherReleaseInfo_def list.case option.distinct list.distinct simp_thms)
  then show ?thesis by (simp only: dropWhile_eq_Nil_conv not_not)
qed

lemma release_example:
  "release_script ''6.1.0'' ''@subql/node-stellar'' ''main''
     (unlines [''# Changelog'', ''## [6.2.0] - 2026-01-21'', ''- Update'',
        ''## [6.1.0] - 2025-08-26'', ''### Changed'', ''- SDK'', ''## [6.0.2] - 2025-07-21'']) =
   Some (publishRelease ''6.1.0'' ''@subql/node-stellar'' ''main''
     (unlines [''## [6.1.0] - 2025-08-26'', ''### Changed'', ''- SDK'']))"
  by code_simp

lemma removed_stable_version:
  "removeStableVersion pJson = Some pJson' \<Longrightarrow> map_of pJson' ''stableVersion'' = None"
  by (auto simp: removeStableVersion_def map_of_eq_None_iff split: option.splits if_splits)

end
