(* ===== verification/Spec2Isabelle.thy ===== *)
theory Spec2Isabelle
  imports Cache_Retention Fetch_Concurrency Dictionary_Indexing Filter_Properties Blockchain_Properties
    Manifest_Properties Module_Wiring Node_Startup Release_Script
begin

text \<open>
  A verification development of the SubQuery indexer for Stellar (\<open>subql-stellar\<close>).

  \<^bold>\<open>The program.\<close> The indexer fetches ledgers from a Horizon server, and the events of smart contracts
  from a Soroban RPC server, links the records of a ledger into one object graph, and hands every
  item of the graph to the handlers of the project's datasources. Which ledgers it fetches may be
  narrowed by a dictionary query built from the filters of the handlers. The program is the packages
  \<open>node\<close> (the indexer), \<open>common-stellar\<close> (project manifests) and \<open>types\<close> (shared types) under
  \<open>src/packages\<close>.

  \<^bold>\<open>The theories\<close> and what they model:

  \<^item> \<open>Prelude\<close>, \<open>Js_Text\<close>, \<open>Js_Date\<close>, \<open>Js_Json\<close>: errors as values of a result type, and what the
    program uses of the language: grouping, awaited calls in sequence, \<open>parseInt\<close>, \<open>BigInt\<close>, ISO
    dates, \<open>JSON.stringify\<close>.
  \<^item> \<open>Stellar_Types\<close>: \<open>types/src\<close>, the records of Horizon and of the RPC server restricted to the
    fields the program reads, handlers, filters, datasources, and the wrapped block.
  \<^item> \<open>Project_Utils\<close>: the classification predicates of \<open>common-stellar/src/project/utils.ts\<close>,
    \<open>node/src/utils\<close> and \<open>SubqueryProject.ts\<close>.
  \<^item> \<open>Block_Filter\<close>: the filters of \<open>node/src/stellar/block.stellar.ts\<close>.
  \<^item> \<open>Lodash\<close>: the lodash functions as parameters with their documented behaviour as locales.
  \<^item> \<open>Utils_Stellar\<close>: \<open>utils.stellar.ts\<close> and \<open>indexer/types.ts\<close>.
  \<^item> \<open>Soroban_Server\<close>, \<open>Soroban_Contract\<close>, \<open>Soroban_Cache\<close>, \<open>Soroban_Concurrency\<close>:
    \<open>soroban.server.ts\<close>, its event cache, the interface of the RPC server, and interleaved calls.
  \<^item> \<open>Cache_Retention\<close>: what the event cache keeps over any server, how fast it grows, and what pages
    shorter than the assumed limit leave in it.
  \<^item> \<open>Interleaving\<close>: tasks that share a state and interleave at every \<open>await\<close>, and the contracts under
    which every schedule keeps an invariant and every execution settles.
  \<^item> \<open>Horizon_Paging\<close>: the Horizon client as a parameter and the paged fetches of \<open>api.stellar.ts\<close>.
  \<^item> \<open>Ledger_Wrapping\<close>, \<open>Ledger_Wrapping_Spec\<close>, \<open>Ledger_Properties\<close>: the wrapping functions of
    \<open>api.stellar.ts\<close> with an explicit store for the objects they mutate, the wrapped block written
    down without a store, and the refinement between them.
  \<^item> \<open>Stellar_Api\<close>, \<open>Api_Properties\<close>, \<open>Fetch_Concurrency\<close>: the class \<open>StellarApi\<close>, from its constructor
    to \<open>fetchBlocks\<close>, whose fetches run in array order in the first and in any order in the last.
  \<^item> \<open>Safe_Api\<close>, \<open>Api_Connection\<close>, \<open>Api_Service\<close>, \<open>Service_Properties\<close>: \<open>safe-api.ts\<close>,
    \<open>api.connection.ts\<close>, \<open>api.service.stellar.ts\<close>.
  \<^item> \<open>Indexer_Manager\<close>, \<open>Indexer_Properties\<close>: \<open>indexer.manager.ts\<close>.
  \<^item> \<open>Dictionary_V1\<close>, \<open>Dictionary_Properties\<close>: \<open>dictionary/v1/stellarDictionaryV1.ts\<close>.
  \<^item> \<open>Dictionary_Indexing\<close>: the query entries against the filter table of the indexer, the interface of
    the dictionary, and what indexing does with a ledger the dictionary does not list.
  \<^item> \<open>Blockchain_Service\<close>, \<open>Blockchain_Properties\<close>: \<open>blockchain.service.ts\<close>, \<open>worker.service.ts\<close>,
    \<open>stellarDictionary.service.ts\<close>, \<open>configure.module.ts\<close>.
  \<^item> \<open>Filter_Properties\<close>: properties of the filters, the predicates and the paged fetches.
  \<^item> \<open>Manifest_Classes\<close>, \<open>Manifest_Packages\<close>: the classes of \<open>common-stellar/src/project/models.ts\<close> and
    \<open>versioned/v1_0_0/model.ts\<close> as the declarations they are, the functions given to \<open>@Transform\<close>, and
    the documented meaning of the decorators.
  \<^item> \<open>Project_Manifest\<close>: \<open>ProjectManifestVersioned.ts\<close>, \<open>load.ts\<close> and \<open>createSubQueryProject\<close>.
  \<^item> \<open>Manifest_Typing\<close>, \<open>Manifest_Properties\<close>: validated manifests are well typed, and agree with the
    predicates of the indexer.
  \<^item> \<open>Module_Wiring\<close>, \<open>Node_Startup\<close>: the NestJS modules, the command line (\<open>yargs.ts\<close>), and how the
    processes start (\<open>main.ts\<close>, \<open>init.ts\<close>, \<open>worker.ts\<close> and the subcommands).
  \<^item> \<open>Release_Script\<close>: the scripts under \<open>.github/actions\<close> that prepare a release.

  \<^bold>\<open>State.\<close> The state the program keeps is the event cache of a \<open>SorobanServer\<close> (\<open>eventsCache\<close>, a map
  from ledgers to responses), the fields of a \<open>StellarApi\<close> (a record), the objects of a block under
  construction (\<open>store\<close> in \<open>Ledger_Wrapping\<close>), a datasource that \<open>updateDynamicDs\<close> changes, and the
  project that \<open>StellarApiService.create\<close> changes. It is passed explicitly; the connection pool chooses
  an API by an action of its own (\<open>pick_api\<close>), perhaps another one each time;
  the RPC server has a world of its own that every call may change.

  \<^bold>\<open>Parameters.\<close> Horizon, with a server for every endpoint and set of options (\<open>stellarClient\<close> is the
  one of an API), the RPC server, lodash, the URL parser, the SDK's decoding of contract values
  and the constructor and methods of its server, the constructors of package classes in the NestJS
  modules, the dictionary, and the functions of \<open>@subql/node-core\<close> (\<open>indexData\<close>,
  \<open>internalIndexBlock\<close>, \<open>createConnections\<close>, \<open>filterBlockTimestamp\<close>, the dictionary client) are
  arguments. What is assumed of them is stated in locales: \<open>honest_rpc\<close>, \<open>honest_calls\<close> and
  \<open>full_page_rpc\<close> for the RPC server (one that still has the ledgers asked for; its errors are the
  subject of \<open>event_errors_translated\<close>), \<open>handler_runner\<close> for \<open>indexData\<close>, \<open>dictionary_service\<close> for the
  dictionary, \<open>paged_collection\<close> for Horizon, \<open>lodash_events\<close>, \<open>lodash_uniqBy\<close>, \<open>lodash_sortBy\<close>, and
  \<open>class_packages\<close> for class-transformer and class-validator. Each is interpreted on a computable
  reference. The base classes of \<open>@subql/common\<close> may declare properties of their own; nothing is
  claimed about these.

  \<^bold>\<open>Termination.\<close> The two loops that follow the pages of a server end only if the server lets them:
  \<open>fetchEventsForSequence\<close> and \<open>collect_pages\<close> are partial functions, \<open>None\<close> being a call that never
  returns, and the properties prove that they return under the contract of the server. Everything else
  is total; the retry loop of the safe API counts down from five. The reference for \<open>plainToClass\<close>
  follows the references between the manifest classes for five levels, which \<open>class_rank\<close> shows to be
  enough; no other fuel is used.

  \<^bold>\<open>The properties\<close> say, in the order of the pipeline: fetching from both servers is complete and ends,
  also when calls interleave, and concurrent fetches never mix ledgers, whatever the server answers; the
  cache returns whole ledgers if pages are full and parts of them if pages are short, and what it never
  forgets; workers and the main thread see the same blocks and headers; the wrapped block is the
  intended one, loses nothing, and its references are right; \<open>fetchBlocks\<close> returns the blocks of the
  chain, or which error; every datasource is given every item once, in the documented order, with the
  type declared for its kind; the filters mean what they say; the dictionary query is bounded, has no entry for handlers of Soroban
  transactions, and skipping a ledger that is not listed for it leaves the handlers' state as it was; what the
  validation of a manifest guarantees; how the services around fail, that a started
  service has its Soroban client, and that the safe API retries, and shows the events of one ledger
  only; and that the process starts in order, whatever its services do.

  \<^bold>\<open>Not modelled:\<close> logging; the code of \<open>@subql/node-core\<close> behind \<open>initLogger\<close>, \<open>yargsBuilder\<close> and
  \<open>createWorkerHost\<close> (parameters of the entry points) and the options given to its modules; the files
  that only re-export; the configuration of the test and lint tools and the package manager's bundle
  under \<open>.yarn\<close>; the type aliases for custom processors, which are instances of types of the package
  \<open>types-core\<close> and have no code of their own.
\<close>

section \<open>Across the components\<close>

text \<open>
  C1: From the servers to the handlers: for a served ledger whose operations belong to its
  transactions and whose effects belong to its operations, \<open>fetchBlocks\<close> returns one block, and indexing
  it makes these calls, each item in turn for all datasources, in the order of the datasources: the
  block; every transaction of the ledger in order, and again as a Soroban transaction when it invokes
  a contract; every operation and every effect of the ledger exactly once; and, exactly once, every
  event of the log for the ledger that names one of its operations.
\<close>

theorem ledger_reaches_handlers:
  assumes "lodash_events (env_lodash env)"
    and "full_page_rpc (rpc_getEvents env) (chain_events c) pos maxLimit"
    and "0 < api_pageLimit api" "api_pageLimit api \<le> maxLimit"
    and "api_sorobanClient api = Some client"
    and "cache_sound (chain_events c) cache"
    and "serves_chain (stellarClient env api) (api_pageLimit api) c s"
    and "distinct (map op_id (chain_ops c s))"
    and "\<forall>o'\<in>set (chain_ops c s). op_transaction_hash o' \<in> tx_hash ` set (chain_txs c s)"
    and "\<forall>e\<in>set (chain_effs c s). effect_key e \<in> Inr ` op_id ` set (chain_ops c s)"
  shows "\<exists>b ts ps es evs vs cache' w'. fetchBlocks env api [s] cache w = Some (Inr [b], cache', w') \<and>
    indexBlockData f (iblock b) dss = for_each vs (run_visit f) \<and>
    visited Block vs = map (Pair (BlockData (block (iblock b)))) dss \<and>
    visited Transaction vs = pairs TransactionData ts dss \<and> map transaction_record ts = chain_txs c s \<and>
    visited SorobanTransaction vs = pairs TransactionData (filter invokes_contract ts) dss \<and>
    visited Operation vs = pairs OperationData ps dss \<and> mset (map operation_record ps) = mset (chain_ops c s) \<and>
    visited Effects vs = pairs EffectData es dss \<and> mset (map effect_record es) = mset (chain_effs c s) \<and>
    visited Event vs = pairs EventData evs dss \<and>
    mset (map event_record evs) =
      (if hasInvokeHostFunctionOp (chain_ops c s)
       then filter_mset (\<lambda>e. owner (chain_txs c s) (chain_ops c s) e \<noteq> None) (mset (events_of (chain_events c) s))
       else {#})"
proof -
  obtain cache' w' where fetched: "fetchBlocks env api [s] cache w = Some (Inr [chain_result c s], cache', w')"
    using fetchBlocks_one [OF assms(1-7)] by blast
  define log where "log = (if hasInvokeHostFunctionOp (chain_ops c s) then events_of (chain_events c) s else [])"
  define b where "b = wrapped_ledger (chain_ledger c s) (chain_txs c s) (chain_ops c s) (chain_effs c s) log"
  define vs where "vs = block_schedule (wrap_block b) dss"
  have wrapped: "iblock (chain_result c s) = wrap_block b"
    by (simp add: chain_result_def formatBlockUtil_def chain_block_def b_def log_def)
  have d: "distinct (map tx_hash (chain_txs c s))" using assms(7) by (simp add: serves_chain_def)
  note visits = block_visits [OF b_def vs_def]
    and kept = wrapped_ledger_conserves [OF d assms(8-10), where lg = "chain_ledger c s" and evs = log, folded b_def]
  have txs: "map transaction_record (block_transactions b) = chain_txs c s"
    by (simp add: b_def wrapped_ledger_sel)
  obtain evs where evs: "visited Event vs = pairs EventData evs dss"
      "mset (map event_record evs) = filter_mset (\<lambda>e. owner (chain_txs c s) (chain_ops c s) e \<noteq> None) (mset log)"
    using event_visits [OF d, of "chain_ledger c s" "chain_ops c s" "chain_effs c s" log dss] by (auto simp: vs_def b_def)
  have "indexBlockData f (iblock (chain_result c s)) dss = for_each vs (run_visit f)"
    by (simp only: indexBlockData_eq wrapped vs_def)
  moreover have "block (iblock (chain_result c s)) = b"
    by (simp add: wrapped wrap_block_def new_StellarBlockWrapped_def)
  moreover have "filter_mset (\<lambda>e. owner (chain_txs c s) (chain_ops c s) e \<noteq> None) (mset log) =
      (if hasInvokeHostFunctionOp (chain_ops c s)
       then filter_mset (\<lambda>e. owner (chain_txs c s) (chain_ops c s) e \<noteq> None) (mset (events_of (chain_events c) s))
       else {#})" by (simp add: log_def)
  ultimately show ?thesis
    using fetched visits txs kept(1,2) evs
    by (intro exI [of _ "chain_result c s"] exI [of _ "block_transactions b"] exI [of _ "block_operations b"]
        exI [of _ "block_effects b"] exI [of _ evs] exI [of _ vs] exI [of _ cache'] exI [of _ w'])
      (simp only: conj_assoc simp_thms)
qed

text \<open>Two datasources, and an \<open>indexData\<close> that counts its calls.\<close>

definition sample_dss :: "SubqlDatasource list" where
  "sample_dss = [Indexer_Properties.sample_ds, Indexer_Properties.sample_ds\<lparr>ds_startBlock := Some 5\<rparr>]"

definition counting_indexData :: "(nat, string) indexData" where
  "counting_indexData k d ds n = (Inr (), Suc n)"

theorem ledger_reaches_handlers_witness:
  "\<exists>b es vs cache' w'. fetchBlocks sample_services sample_api [7] (\<lambda>_. None) 0 = Some (Inr [b], cache', w') \<and>
     indexBlockData counting_indexData (iblock b) sample_dss = for_each vs (run_visit counting_indexData) \<and>
     visited Effects vs = pairs EffectData es sample_dss \<and> mset (map effect_record es) = mset sample_effs"
proof -
  have eqs: "chain_txs sample_chain 7 = sample_txs" "chain_ops sample_chain 7 = sample_ops"
      "chain_effs sample_chain 7 = sample_effs" by (simp_all add: sample_chain_def)
  from ledger_reaches_handlers [OF sample_setup, where dss = sample_dss and f = counting_indexData and w = 0,
      unfolded eqs, OF sample_well_formed(3-5)]
  show ?thesis by blast
qed




text \<open>
  C13: Dynamic datasources are checked against the manifest classes. When \<open>updateDynamicDs\<close> of the
  blockchain service accepts a runtime datasource, the datasource with its new options, read as an
  object with a mapping, is an instance with the types its declaration gives.
\<close>

theorem dynamic_ds_typed:
  assumes "lawful_services srv validateSync"
    and "\<And>d. \<exists>c mapping. map_of (as_object d) ''mapping'' = Some (VObj c mapping)"
    and "isRuntimeDs ds"
    and "updateDynamicDs (\<lambda>d. srv_plainToClass srv StellarRuntimeDataSourceImpl (VObj None (as_object d)))
      validateSync args ds = (Inr (), ds')"
  shows "\<exists>parsedDs. srv_plainToClass srv StellarRuntimeDataSourceImpl (VObj None (as_object ds')) = Inr parsedDs \<and>
    conforms_runtime_datasource parsedDs"
proof -
  obtain parsedDs where p: "srv_plainToClass srv StellarRuntimeDataSourceImpl (VObj None (as_object ds')) = Inr parsedDs"
      "validateSync parsedDs = []"
    using updateDynamicDs_accepts [OF assms(3,4)] by blast
  moreover have "class_packages (srv_plainToClass srv) validateSync"
    using assms(1) by (simp add: lawful_services_def)
  moreover obtain c mapping where "map_of (as_object ds') ''mapping'' = Some (VObj c mapping)"
    using assms(2) by blast
  ultimately show ?thesis using class_packages.made_runtime_datasource by blast
qed

text \<open>A datasource as an object, for the example: its kind, its mapping and its address option.\<close>

definition sample_as_object :: "SubqlDatasource \<Rightarrow> (string \<times> manifest_value) list" where
  "sample_as_object ds =
    [(''kind'', VStr (ds_kind ds)),
     (''mapping'', VObj None
       [(''file'', VStr (m_file (ds_mapping ds))),
        (''handlers'', VArr (map (\<lambda>h. VObj None [(''kind'', VStr (h_kind h)), (''handler'', VStr (h_handler h))])
          (m_handlers (ds_mapping ds))))]),
     (''options'', VObj None (case ds_address ds of None \<Rightarrow> [] | Some a \<Rightarrow> [(''address'', VStr a)]))]"

definition sample_dynamic_ds :: SubqlDatasource where
  "sample_dynamic_ds = \<lparr>ds_kind = StellarDatasourceKind_Runtime, ds_startBlock = None,
     ds_mapping = \<lparr>m_file = ''./dist/index.js'',
       m_handlers = [\<lparr>h_handler = ''handleTx'', h_kind = handler_kind_value Transaction, h_filter = None\<rparr>]\<rparr>,
     ds_options = None, ds_processor = None\<rparr>"

theorem dynamic_ds_typed_witness:
  "\<exists>ds' parsedDs. updateDynamicDs
       (\<lambda>d. srv_plainToClass sample_manifest_services StellarRuntimeDataSourceImpl (VObj None (sample_as_object d)))
       reference_validateSync (Some [''address'' \<mapsto> JStr ''GA'']) sample_dynamic_ds = (Inr (), ds') \<and>
     ds_address ds' = Some ''GA'' \<and>
     srv_plainToClass sample_manifest_services StellarRuntimeDataSourceImpl (VObj None (sample_as_object ds')) = Inr parsedDs \<and>
     conforms_runtime_datasource parsedDs"
proof -
  let ?make = "\<lambda>d. srv_plainToClass sample_manifest_services StellarRuntimeDataSourceImpl (VObj None (sample_as_object d))"
  have "case updateDynamicDs ?make reference_validateSync (Some [''address'' \<mapsto> JStr ''GA'']) sample_dynamic_ds of
      (Inr u, ds') \<Rightarrow> ds_address ds' = Some ''GA'' | (Inl e, ds') \<Rightarrow> False"
    by code_simp
  then obtain ds' where
    ds': "updateDynamicDs ?make reference_validateSync (Some [''address'' \<mapsto> JStr ''GA'']) sample_dynamic_ds = (Inr (), ds')"
      "ds_address ds' = Some ''GA''"
    by (auto split: prod.splits sum.splits)
  have "isRuntimeDs sample_dynamic_ds" by (simp add: isRuntimeDs_def sample_dynamic_ds_def)
  from dynamic_ds_typed [OF sample_lawful _ this ds'(1)] show ?thesis
    using ds' by (auto simp: sample_as_object_def)
qed

end
